(* ===== verification/Prelude.thy ===== *)
theory Prelude
  imports Complex_Main "HOL-Library.Product_Lexorder" "HOL-Library.List_Lexorder"
    "HOL-Library.Char_ord" "HOL-Library.Multiset"
begin

text \<open>
  Shared vocabulary of the development: results with a typed error, SQL-like operations on
  tables (lists of rows with a key column), and the generic lemmas about them.
  A table is a list of rows in insertion order; its primary key is a function from rows.
\<close>

section \<open>Results\<close>

text \<open>\<open>Inl e\<close> is a raised exception or an error return, \<open>Inr a\<close> a normal result.\<close>

type_synonym ('e, 'a) result = "'e + 'a"

named_theorems table_simps \<open>rewriting of lookups, updates and deletions on tables\<close>

fun res_bind :: "('e, 'a) result \<Rightarrow> ('a \<Rightarrow> ('e, 'b) result) \<Rightarrow> ('e, 'b) result" where
  "res_bind (Inl e) f = Inl e"
| "res_bind (Inr a) f = f a"

lemma res_bind_Inr_iff [simp]: "res_bind r f = Inr b \<longleftrightarrow> (\<exists>a. r = Inr a \<and> f a = Inr b)"
  by (cases r) auto

lemma res_bind_Inl_iff:
  "res_bind r f = Inl e \<longleftrightarrow> r = Inl e \<or> (\<exists>a. r = Inr a \<and> f a = Inl e)"
  by (cases r) auto

text \<open>A comprehension whose body may raise: the first error ends it.\<close>

fun res_map :: "('a \<Rightarrow> ('e, 'b) result) \<Rightarrow> 'a list \<Rightarrow> ('e, 'b list) result" where
  "res_map f [] = Inr []"
| "res_map f (x # xs) =
     (case f x of Inl e \<Rightarrow> Inl e
      | Inr y \<Rightarrow> (case res_map f xs of Inl e \<Rightarrow> Inl e | Inr ys \<Rightarrow> Inr (y # ys)))"

lemma res_map_Inr_iff:
  "res_map f xs = Inr ys \<longleftrightarrow> list_all2 (\<lambda>x y. f x = Inr y) xs ys"
proof (induction xs arbitrary: ys)
  case (Cons x xs)
  have "res_map f (x # xs) = Inr ys \<longleftrightarrow>
      (\<exists>z zs. ys = z # zs \<and> f x = Inr z \<and> res_map f xs = Inr zs)"
    by (auto split: sum.splits)
  then show ?case by (simp add: list_all2_Cons1 Cons.IH)
qed auto

lemma res_map_total:
  assumes "\<And>x. x \<in> set xs \<Longrightarrow> \<exists>y. f x = Inr y"
  shows "\<exists>ys. res_map f xs = Inr ys"
  using assms
proof (induction xs)
  case (Cons x xs)
  then obtain y ys where "f x = Inr y" "res_map f xs = Inr ys" by (metis list.set_intros)
  then show ?case by simp
qed simp

fun is_ok :: "('e, 'a) result \<Rightarrow> bool" where
  "is_ok (Inl e) = False"
| "is_ok (Inr a) = True"

lemma is_ok_iff: "is_ok r \<longleftrightarrow> (\<exists>a. r = Inr a)"
  by (cases r) auto

text \<open>The errors a result carries: none for a value.\<close>

fun errs_of :: "('e list, 'a) result \<Rightarrow> 'e list" where
  "errs_of (Inl es) = es"
| "errs_of (Inr a) = []"

lemma errs_of_is_ok: "is_ok r \<Longrightarrow> errs_of r = []"
  by (cases r) auto

text \<open>A condition on an optional value, true of \<open>None\<close>.\<close>

fun opt_all :: "('a \<Rightarrow> bool) \<Rightarrow> 'a option \<Rightarrow> bool" where
  "opt_all P None = True"
| "opt_all P (Some a) = P a"

lemma opt_all_iff: "opt_all P v \<longleftrightarrow> (\<forall>a. v = Some a \<longrightarrow> P a)"
  by (cases v) auto

section \<open>Tables\<close>

definition lookup_by :: "('r \<Rightarrow> 'k) \<Rightarrow> 'k \<Rightarrow> 'r list \<Rightarrow> 'r option" where
  "lookup_by key k rows = find (\<lambda>r. key r = k) rows"

definition update_by :: "('r \<Rightarrow> 'k) \<Rightarrow> 'k \<Rightarrow> ('r \<Rightarrow> 'r) \<Rightarrow> 'r list \<Rightarrow> 'r list" where
  "update_by key k f rows = map (\<lambda>r. if key r = k then f r else r) rows"

definition delete_by :: "('r \<Rightarrow> 'k) \<Rightarrow> 'k \<Rightarrow> 'r list \<Rightarrow> 'r list" where
  "delete_by key k rows = filter (\<lambda>r. key r \<noteq> k) rows"

lemma lookup_by_Nil [simp]: "lookup_by key k [] = None"
  by (simp add: lookup_by_def)

lemma lookup_by_Cons [simp]:
  "lookup_by key k (r # rs) = (if key r = k then Some r else lookup_by key k rs)"
  by (simp add: lookup_by_def)

lemma lookup_by_SomeD: "lookup_by key k rows = Some r \<Longrightarrow> r \<in> set rows \<and> key r = k"
  by (induction rows) (auto split: if_splits)

lemma lookup_by_None_iff: "lookup_by key k rows = None \<longleftrightarrow> k \<notin> key ` set rows"
  by (induction rows) auto

lemma lookup_by_Some_iff:
  "distinct (map key rows) \<Longrightarrow>
   lookup_by key k rows = Some r \<longleftrightarrow> r \<in> set rows \<and> key r = k"
  by (induction rows) (auto simp: image_iff)

lemma lookup_by_append [table_simps]:
  "lookup_by key k (xs @ ys) =
     (case lookup_by key k xs of None \<Rightarrow> lookup_by key k ys | Some r \<Rightarrow> Some r)"
  by (induction xs) auto

lemma lookup_by_update_by [table_simps]:
  "(\<And>r. key (f r) = key r) \<Longrightarrow>
   lookup_by key k (update_by key j f rows) =
     (if k = j then map_option f (lookup_by key k rows) else lookup_by key k rows)"
  by (induction rows) (auto simp: update_by_def)

lemma lookup_by_delete_by [table_simps]:
  "lookup_by key k (delete_by key j rows) = (if k = j then None else lookup_by key k rows)"
  by (induction rows) (auto simp: delete_by_def)

lemma map_key_update_by [table_simps]:
  "(\<And>r. h (f r) = h r) \<Longrightarrow> map h (update_by key k f rows) = map h rows"
  by (induction rows) (auto simp: update_by_def)

lemma length_update_by [simp]: "length (update_by key k f rows) = length rows"
  by (simp add: update_by_def)

lemma set_update_by:
  "set (update_by key k f rows) = (\<lambda>r. if key r = k then f r else r) ` set rows"
  by (simp add: update_by_def)

lemma set_delete_by: "set (delete_by key k rows) = {r \<in> set rows. key r \<noteq> k}"
  by (simp add: delete_by_def)

lemma distinct_map_filter_key: "distinct (map key rows) \<Longrightarrow> distinct (map key (filter P rows))"
  by (induction rows) auto

lemma distinct_delete_by: "distinct (map h rows) \<Longrightarrow> distinct (map h (delete_by key k rows))"
  by (simp add: delete_by_def distinct_map_filter_key)

section \<open>ORDER BY and LIMIT\<close>

text \<open>
  \<open>order_asc key rows\<close> is ORDER BY key, \<open>order_desc\<close> is ORDER BY key DESC.
  The keys used in the code end with a unique column, so ties do not arise.
\<close>

definition order_asc :: "('r \<Rightarrow> 'k::linorder) \<Rightarrow> 'r list \<Rightarrow> 'r list" where
  "order_asc key rows = sort_key key rows"

definition order_desc :: "('r \<Rightarrow> 'k::linorder) \<Rightarrow> 'r list \<Rightarrow> 'r list" where
  "order_desc key rows = rev (sort_key key rows)"

lemma set_order_asc [simp]: "set (order_asc key rows) = set rows"
  by (simp add: order_asc_def)

lemma set_order_desc [simp]: "set (order_desc key rows) = set rows"
  by (simp add: order_desc_def)

lemma length_order_desc [simp]: "length (order_desc key rows) = length rows"
  by (simp add: order_desc_def)

lemma length_order_asc [simp]: "length (order_asc key rows) = length rows"
  by (simp add: order_asc_def)

lemma sorted_order_asc: "sorted (map key (order_asc key rows))"
  by (simp add: order_asc_def)

lemma sorted_rev_order_desc: "sorted (map key (rev (order_desc key rows)))"
  by (simp add: order_desc_def)

lemma distinct_map_sort_key [simp]:
  fixes key :: "'r \<Rightarrow> 'k::linorder"
  shows "distinct (map h (sort_key key rows)) = distinct (map h rows)"
proof -
  have "mset (map h (sort_key key rows)) = mset (map h rows)" by simp
  then show ?thesis by (rule mset_eq_imp_distinct_iff)
qed

lemma distinct_order_desc:
  "distinct (map h rows) \<Longrightarrow> distinct (map h (order_desc key rows))"
  by (simp add: order_desc_def rev_map [symmetric])

text \<open>The first \<open>n\<close> rows of a descending order dominate the rows that LIMIT drops.\<close>

lemma take_order_desc_ge:
  assumes "r \<in> set (take n (order_desc key rows))" and "s \<in> set (drop n (order_desc key rows))"
  shows "key s \<le> key r"
proof -
  let ?xs = "order_desc key rows"
  have "sorted (map key (rev (take n ?xs @ drop n ?xs)))"
    by (simp add: sorted_rev_order_desc)
  then have "sorted (map key (rev (drop n ?xs)) @ map key (rev (take n ?xs)))"
    by (simp only: rev_append map_append)
  then show ?thesis using assms by (simp only: sorted_append) auto
qed

lemma sorted_wrt_order_desc:
  assumes "distinct (map key rows)"
  shows "sorted_wrt (\<lambda>r q. key q < key r) (order_desc key rows)"
proof -
  have "sorted_wrt (<) (map key (sort_key key rows))"
    using assms by (simp only: strict_sorted_iff) simp
  then show ?thesis by (simp add: order_desc_def sorted_wrt_rev sorted_wrt_map)
qed

section \<open>Lists\<close>

lemma find_None_iff_set: "find P xs = None \<longleftrightarrow> (\<forall>x \<in> set xs. \<not> P x)"
  by (induction xs) auto

lemma find_SomeD: "find P xs = Some x \<Longrightarrow> x \<in> set xs \<and> P x"
  by (induction xs) (auto split: if_splits)

lemma distinct_map_append_one:
  "distinct (map f (xs @ [x])) \<longleftrightarrow> distinct (map f xs) \<and> f x \<notin> f ` set xs"
  by auto

end
