(* ===== verification/Py_Text.thy ===== *)
theory Py_Text
  imports Prelude "HOL-Library.Word" "HOL-Library.Sublist"
begin

text \<open>
  The parts of Python's \<open>str\<close> and \<open>bytes\<close> the code uses. A \<open>str\<close> is a HOL string: a
  list of characters with code points 0 to 255 (the Latin-1 range); \<open>len\<close> counts characters.
  \<open>bytes\<close> is a list of 8-bit words.
\<close>

type_synonym byte = "8 word"

section \<open>White space, prefixes, splitting\<close>

text \<open>\<open>str.isspace\<close> of one character, in the Latin-1 range.\<close>

definition py_isspace :: "char \<Rightarrow> bool" where
  "py_isspace c \<longleftrightarrow>
     (let n = (of_char c :: nat) in 9 \<le> n \<and> n \<le> 13 \<or> 28 \<le> n \<and> n \<le> 32 \<or> n = 133 \<or> n = 160)"

definition py_lstrip :: "string \<Rightarrow> string" where
  "py_lstrip s = dropWhile py_isspace s"

definition py_strip :: "string \<Rightarrow> string" where
  "py_strip s = rev (dropWhile py_isspace (rev (dropWhile py_isspace s)))"

definition py_startswith :: "string \<Rightarrow> string \<Rightarrow> bool" where
  "py_startswith s p \<longleftrightarrow> prefix p s"

text \<open>\<open>s.split(c)\<close> for a one-character separator: always at least one piece.\<close>

fun py_split_on :: "char \<Rightarrow> string \<Rightarrow> string list" where
  "py_split_on c [] = [[]]"
| "py_split_on c (x # xs) =
     (if x = c then [] # py_split_on c xs
      else case py_split_on c xs of [] \<Rightarrow> [[x]] | p # ps \<Rightarrow> (x # p) # ps)"

text \<open>\<open>s.split()\<close>: maximal runs of non-blank characters.\<close>

function py_split :: "string \<Rightarrow> string list" where
  "py_split s =
     (case dropWhile py_isspace s of
        [] \<Rightarrow> []
      | c # cs \<Rightarrow> (c # takeWhile (\<lambda>x. \<not> py_isspace x) cs)
                  # py_split (dropWhile (\<lambda>x. \<not> py_isspace x) cs))"
  by pat_completeness auto
termination
proof (relation "measure length")
  fix s :: string and c cs
  assume "dropWhile py_isspace s = c # cs"
  then have "length (c # cs) \<le> length s"
    by (metis length_dropWhile_le)
  moreover have "length (dropWhile (\<lambda>x. \<not> py_isspace x) cs) \<le> length cs"
    by (rule length_dropWhile_le)
  ultimately show "(dropWhile (\<lambda>x. \<not> py_isspace x) cs, s) \<in> measure length" by simp
qed simp

declare py_split.simps [simp del]

text \<open>\<open>s.partition(c)\<close>: the text before the first \<open>c\<close>, and the text after it.\<close>

definition py_partition_fst :: "char \<Rightarrow> string \<Rightarrow> string" where
  "py_partition_fst c s = takeWhile (\<lambda>x. x \<noteq> c) s"

definition py_partition_snd :: "char \<Rightarrow> string \<Rightarrow> string" where
  "py_partition_snd c s = tl (dropWhile (\<lambda>x. x \<noteq> c) s)"

lemma py_split_on_not_Nil [simp]: "py_split_on c s \<noteq> []"
  by (induction s) (auto split: list.splits)

lemma py_split_on_free: "c \<notin> set s \<Longrightarrow> py_split_on c s = [s]"
  by (induction s) auto

lemma py_split_on_append:
  "c \<notin> set p \<Longrightarrow> py_split_on c (p @ c # s) = p # py_split_on c s"
  by (induction p) (auto split: list.splits)

lemma py_split_on_pieces: "p \<in> set (py_split_on c s) \<Longrightarrow> c \<notin> set p"
  by (induction s arbitrary: p) (auto split: if_splits list.splits)

lemma py_strip_idem [simp]: "py_strip (py_strip s) = py_strip s"
proof -
  let ?d = "dropWhile py_isspace"
  have "?d (rev (?d (rev (?d s)))) = rev (?d (rev (?d s)))"
  proof (cases "rev (?d (rev (?d s)))")
    case (Cons c cs)
    have "suffix (?d (rev (?d s))) (rev (?d s))" by (rule suffix_dropWhile)
    then have "prefix (c # cs) (?d s)"
      using Cons by (metis rev_rev_ident suffix_to_prefix)
    then have "?d s = c # tl (?d s)" by (cases "?d s") auto
    then have "\<not> py_isspace c" by (metis hd_dropWhile list.sel(1) list.distinct(1))
    with Cons show ?thesis by simp
  next
    case Nil
    show ?thesis unfolding Nil by simp
  qed
  then show ?thesis by (simp only: py_strip_def rev_rev_ident dropWhile_idem)
qed

section \<open>Regular expressions of the code, as character classes\<close>

definition is_digit_c :: "char \<Rightarrow> bool" where
  "is_digit_c c \<longleftrightarrow> CHR ''0'' \<le> c \<and> c \<le> CHR ''9''"

definition is_alpha_c :: "char \<Rightarrow> bool" where
  "is_alpha_c c \<longleftrightarrow>
     CHR ''A'' \<le> c \<and> c \<le> CHR ''Z'' \<or> CHR ''a'' \<le> c \<and> c \<le> CHR ''z''"

definition digit_val :: "char \<Rightarrow> nat" where
  "digit_val c = of_char c - 48"

fun nat_of_digits :: "nat \<Rightarrow> string \<Rightarrow> nat" where
  "nat_of_digits acc [] = acc"
| "nat_of_digits acc (c # cs) = nat_of_digits (10 * acc + digit_val c) cs"

fun digits_of_nat :: "nat \<Rightarrow> string" where
  "digits_of_nat n =
     (if n < 10 then [char_of (48 + n)]
      else digits_of_nat (n div 10) @ [char_of (48 + n mod 10)])"

declare digits_of_nat.simps [simp del]

lemma nat_of_digits_append:
  "nat_of_digits acc (xs @ [c]) = 10 * nat_of_digits acc xs + digit_val c"
  by (induction xs arbitrary: acc) auto

lemma digit_val_char_of [simp]: "n < 10 \<Longrightarrow> digit_val (char_of (48 + n :: nat)) = n"
  by (simp add: digit_val_def)

lemma is_digit_char_of [simp]: "n < 10 \<Longrightarrow> is_digit_c (char_of (48 + n :: nat))"
  by (simp add: is_digit_c_def less_eq_char_def)

lemma nat_of_digits_digits_of_nat: "nat_of_digits 0 (digits_of_nat n) = n"
proof (induction n rule: digits_of_nat.induct)
  case (1 n)
  then show ?case
    by (subst digits_of_nat.simps) (auto simp: nat_of_digits_append)
qed

lemma digits_of_nat_digits: "\<forall>c \<in> set (digits_of_nat n). is_digit_c c"
proof (induction n rule: digits_of_nat.induct)
  case (1 n)
  then show ?case
    by (subst digits_of_nat.simps) auto
qed

lemma digits_of_nat_not_Nil: "digits_of_nat n \<noteq> []"
  by (subst digits_of_nat.simps) simp

section \<open>UTF-8 and hexadecimal\<close>

text \<open>\<open>str.encode()\<close> in the Latin-1 range: one byte below 128, two from there on.\<close>

definition utf8_char :: "char \<Rightarrow> byte list" where
  "utf8_char c =
     (let n = (of_char c :: nat)
      in if n < 128 then [of_nat n] else [of_nat (192 + n div 64), of_nat (128 + n mod 64)])"

definition utf8_encode :: "string \<Rightarrow> byte list" where
  "utf8_encode s = concat (map utf8_char s)"

definition hex_digit :: "nat \<Rightarrow> char" where
  "hex_digit n = (if n < 10 then char_of (48 + n) else char_of (87 + n))"

text \<open>\<open>bytes.hex()\<close>: two lower-case digits for each byte.\<close>

definition bytes_hex :: "byte list \<Rightarrow> string" where
  "bytes_hex bs = concat (map (\<lambda>b. [hex_digit (unat b div 16), hex_digit (unat b mod 16)]) bs)"

definition hex_val :: "char \<Rightarrow> nat option" where
  "hex_val c =
     (let n = (of_char c :: nat)
      in if 48 \<le> n \<and> n \<le> 57 then Some (n - 48)
         else if 65 \<le> n \<and> n \<le> 70 then Some (n - 55)
         else if 97 \<le> n \<and> n \<le> 102 then Some (n - 87)
         else None)"

text \<open>
  \<open>bytes.fromhex\<close> skips ASCII white space before each byte (not inside one) and raises
  ValueError, here \<open>None\<close>, for anything but pairs of hexadecimal digits.
\<close>

definition hex_space :: "char \<Rightarrow> bool" where
  "hex_space c \<longleftrightarrow> c \<in> set [CHR 0x20, CHR 0x09, CHR 0x0A, CHR 0x0B, CHR 0x0C, CHR 0x0D]"

fun bytes_fromhex :: "string \<Rightarrow> byte list option" where
  "bytes_fromhex [] = Some []"
| "bytes_fromhex [c] = (if hex_space c then Some [] else None)"
| "bytes_fromhex (c # d # s) =
     (if hex_space c then bytes_fromhex (d # s)
      else case (hex_val c, hex_val d) of
             (Some h, Some l) \<Rightarrow>
               (case bytes_fromhex s of
                  Some bs \<Rightarrow> Some (of_nat (16 * h + l) # bs) | None \<Rightarrow> None)
           | _ \<Rightarrow> None)"

lemma hex_val_hex_digit [simp]: "n < 16 \<Longrightarrow> hex_val (hex_digit n) = Some n"
  by (auto simp: hex_val_def hex_digit_def Let_def)

lemma hex_space_hex_digit [simp]: "n < 16 \<Longrightarrow> \<not> hex_space (hex_digit n)"
proof -
  assume "n < 16"
  then have "n \<in> set [0..<16]" by simp
  moreover have "\<forall>k \<in> set [0..<16]. \<not> hex_space (hex_digit k)" by code_simp
  ultimately show ?thesis by blast
qed

lemma unat_byte_div_mod: "(of_nat (16 * (unat b div 16) + unat b mod 16) :: byte) = b"
  by (simp add: mult_div_mod_eq)

lemma byte_nibbles: "unat (b :: byte) div 16 < 16" "unat (b :: byte) mod 16 < 16"
proof -
  have "unat b < 2 ^ LENGTH(8)" by (rule unsigned_less)
  then show "unat b div 16 < 16" by (simp add: less_mult_imp_div_less)
qed simp

lemma bytes_fromhex_hex: "bytes_fromhex (bytes_hex bs) = Some bs"
proof (induction bs)
  case (Cons b bs)
  then show ?case
    by (simp add: bytes_hex_def byte_nibbles unat_byte_div_mod del: of_nat_add of_nat_mult)
qed (simp add: bytes_hex_def)

lemma bytes_hex_chars: "c \<in> set (bytes_hex bs) \<Longrightarrow> \<exists>n < 16. c = hex_digit n"
  by (auto simp: bytes_hex_def intro: byte_nibbles)

section \<open>Parsing integers\<close>

text \<open>
  \<open>int(s)\<close> on the ASCII inputs: surrounding white space, an optional sign, digits with single
  underscores between them; \<open>None\<close> stands for ValueError.
\<close>

fun strip_underscores :: "string \<Rightarrow> string option" where
  "strip_underscores [] = None"
| "strip_underscores [c] = (if is_digit_c c then Some [c] else None)"
| "strip_underscores (c # d # s) =
     (if \<not> is_digit_c c then None
      else if d = CHR ''_'' then map_option (\<lambda>r. c # r) (strip_underscores s)
      else map_option (\<lambda>r. c # r) (strip_underscores (d # s)))"

definition py_int :: "string \<Rightarrow> int option" where
  "py_int s =
     (case py_strip s of
        [] \<Rightarrow> None
      | c # cs \<Rightarrow>
          if c = CHR ''-'' then map_option (\<lambda>d. - int (nat_of_digits 0 d)) (strip_underscores cs)
          else if c = CHR ''+'' then map_option (\<lambda>d. int (nat_of_digits 0 d)) (strip_underscores cs)
          else map_option (\<lambda>d. int (nat_of_digits 0 d)) (strip_underscores (c # cs)))"

lemma is_digit_not_underscore: "is_digit_c c \<Longrightarrow> c \<noteq> CHR ''_''"
  by (auto simp: is_digit_c_def less_eq_char_def)

lemma strip_underscores_digits:
  "s \<noteq> [] \<Longrightarrow> \<forall>c \<in> set s. is_digit_c c \<Longrightarrow> strip_underscores s = Some s"
  by (induction s rule: strip_underscores.induct) (auto dest: is_digit_not_underscore)

lemma is_digit_not_space: "is_digit_c c \<Longrightarrow> \<not> py_isspace c"
  by (auto simp: is_digit_c_def py_isspace_def less_eq_char_def Let_def)

lemma py_strip_nonspace:
  assumes "\<forall>c \<in> set s. \<not> py_isspace c"
  shows "py_strip s = s"
proof -
  have d: "dropWhile py_isspace t = t" if "\<forall>c \<in> set t. \<not> py_isspace c" for t
    using that by (cases t) auto
  show ?thesis using assms by (simp add: py_strip_def d)
qed

lemma py_int_digits_of_nat: "py_int (digits_of_nat n) = Some (int n)"
proof -
  obtain c cs where cs: "digits_of_nat n = c # cs"
    using digits_of_nat_not_Nil by (cases "digits_of_nat n") auto
  then have dig: "\<forall>x \<in> set (c # cs). is_digit_c x"
    by (metis digits_of_nat_digits)
  then have "py_strip (c # cs) = c # cs"
    by (intro py_strip_nonspace) (auto dest: is_digit_not_space)
  moreover have "c \<noteq> CHR ''-''" "c \<noteq> CHR ''+''"
    using dig by (auto simp: is_digit_c_def less_eq_char_def)
  moreover have "strip_underscores (c # cs) = Some (c # cs)"
    using dig by (intro strip_underscores_digits) auto
  moreover have "nat_of_digits 0 (c # cs) = n"
    using nat_of_digits_digits_of_nat [of n] by (simp only: cs)
  ultimately show ?thesis
    by (simp add: py_int_def cs del: nat_of_digits.simps)
qed

end
