(* ===== verification/Py_Values.thy ===== *)
theory Py_Values
  imports Py_Text
begin

text \<open>
  Python values as the code meets them: numbers, aware and naive datetimes, and the tree of
  values a JSON decoder returns. Times are counted in microseconds, the resolution of
  \<open>datetime\<close>, from 0001-01-01T00:00:00.
\<close>

section \<open>Time\<close>

type_synonym usec = int

definition seconds :: "int \<Rightarrow> usec" where "seconds n = n * 1000000"
definition minutes :: "int \<Rightarrow> usec" where "minutes n = n * 60000000"
definition days :: "int \<Rightarrow> usec" where "days n = n * 86400000000"

lemmas timedelta_defs = seconds_def minutes_def days_def

text \<open>
  A \<open>datetime\<close>: the wall clock and the UTC offset, \<open>None\<close> for a naive one. The wall clock of
  a datetime that exists lies between \<open>datetime.min\<close> and \<open>datetime.max\<close>, 3652059 days later.
\<close>

datatype py_datetime = DT (wall: usec) (utcoffset: "usec option")

definition datetime_end :: usec where
  "datetime_end = days 3652059"

definition in_datetime_range :: "usec \<Rightarrow> bool" where
  "in_datetime_range t \<longleftrightarrow> 0 \<le> t \<and> t < datetime_end"

text \<open>The instant an aware datetime denotes, on the UTC time line.\<close>

definition instant :: "py_datetime \<Rightarrow> usec" where
  "instant d = wall d - (case utcoffset d of None \<Rightarrow> 0 | Some off \<Rightarrow> off)"

definition is_aware :: "py_datetime \<Rightarrow> bool" where
  "is_aware d \<longleftrightarrow> utcoffset d \<noteq> None"

text \<open>
  \<open>value.astimezone(UTC)\<close> of an aware datetime: the same instant with offset zero, and
  OverflowError, here \<open>None\<close>, where the UTC wall clock leaves the range of years.
\<close>

definition astimezone_utc :: "py_datetime \<Rightarrow> py_datetime option" where
  "astimezone_utc d =
     (if in_datetime_range (instant d) then Some (DT (instant d) (Some 0)) else None)"

lemma instant_utc [simp]: "instant (DT t (Some 0)) = t"
  by (simp add: instant_def)

lemma astimezone_utc_Some:
  "astimezone_utc d = Some u \<longleftrightarrow> in_datetime_range (instant d) \<and> u = DT (instant d) (Some 0)"
  by (auto simp: astimezone_utc_def)

section \<open>Numbers and value trees\<close>

text \<open>
  A Decimal or a float is either a finite number, taken by the value its \<open>str\<close> denotes, or one
  of NaN and the infinities.
\<close>

datatype py_number = Finite rat | NonFinite

datatype pyval =
    PNone
  | PBool bool
  | PInt int
  | PNum py_number
  | PStr string
  | PTime py_datetime
  | PList "pyval list"
  | PDict "(string \<times> pyval) list"

text \<open>\<open>d.get(k)\<close> on a dict: absent keys read as \<open>None\<close>.\<close>

definition dict_get :: "(string \<times> pyval) list \<Rightarrow> string \<Rightarrow> pyval" where
  "dict_get d k = (case map_of d k of None \<Rightarrow> PNone | Some v \<Rightarrow> v)"

text \<open>\<open>payload if isinstance(payload, dict) else {}\<close>\<close>

fun dict_or_empty :: "pyval \<Rightarrow> (string \<times> pyval) list" where
  "dict_or_empty (PDict d) = d"
| "dict_or_empty _ = []"

end
