(* ===== verification/Telemetry_Schemas.thy ===== *)
theory Telemetry_Schemas
  imports Py_Values
begin

text \<open>
  \<open>backend/app/telemetry/schemas.py\<close>: the wire models of telemetry-batch.v1. The classes become
  records, their field declarations become one check per field, run in declaration order.

  pydantic itself is not part of the repository. Its validation of a single annotated type is
  the parameter \<open>V\<close> of every check; \<open>pydantic_core\<close> states the documented behaviour of that
  validation the code relies on, and \<open>core_check\<close> is a validator that has it.
\<close>

section \<open>Errors and the leaf validator\<close>

datatype loc_item = LField string | LIndex nat

record verror =
  ve_loc :: "loc_item list"
  ve_code :: string

text \<open>The annotated types the models use, as handed to pydantic.\<close>

datatype leaf =
    Str_leaf nat nat "string \<Rightarrow> bool"   \<comment> \<open>strict \<open>str\<close>: min_length, max_length, pattern\<close>
  | Int_leaf int int                     \<comment> \<open>strict \<open>int\<close>: ge, le\<close>
  | Lit_str "string list"                \<comment> \<open>\<open>Literal[...]\<close> of strings\<close>
  | Lit_int "int list"                   \<comment> \<open>\<open>Literal[...]\<close> of integers\<close>
  | Aware_leaf                           \<comment> \<open>\<open>AwareDatetime\<close>\<close>
  | Decimal_leaf                         \<comment> \<open>\<open>Decimal\<close>\<close>
  | List_leaf nat nat                    \<comment> \<open>strict \<open>list[Any]\<close>: min_length, max_length\<close>

type_synonym validator = "leaf \<Rightarrow> pyval \<Rightarrow> (verror list, pyval) result"

definition verr :: "string \<Rightarrow> verror list" where
  "verr c = [\<lparr>ve_loc = [], ve_code = c\<rparr>]"

locale pydantic_core =
  fixes check :: validator
  assumes str_leaf: "check (Str_leaf lo hi p) v = Inr w \<longleftrightarrow>
      (\<exists>s. v = PStr s \<and> w = PStr s \<and> lo \<le> length s \<and> length s \<le> hi \<and> p s)"
    and int_leaf: "check (Int_leaf a b) v = Inr w \<longleftrightarrow>
      (\<exists>n. v = PInt n \<and> w = PInt n \<and> a \<le> n \<and> n \<le> b)"
    and lit_str: "check (Lit_str ss) v =
      (if \<exists>s \<in> set ss. v = PStr s then Inr v else Inl (verr ''literal_error''))"
    and lit_int: "check (Lit_int ns) (PInt n) =
      (if n \<in> set ns then Inr (PInt n) else Inl (verr ''literal_error''))"
    and aware_result: "check Aware_leaf v = Inr w \<Longrightarrow> \<exists>d. w = PTime d \<and> is_aware d"
    and aware_time: "is_aware d \<Longrightarrow> check Aware_leaf (PTime d) = Inr (PTime d)"
    and decimal_leaf: "check Decimal_leaf (PNum (Finite q)) = Inr (PNum (Finite q))"
    and list_leaf: "check (List_leaf lo hi) v = Inr w \<longleftrightarrow>
      (\<exists>xs. v = PList xs \<and> w = PList xs \<and> lo \<le> length xs \<and> length xs \<le> hi)"
    and list_too_long: "lo \<le> hi \<Longrightarrow> hi < length xs \<Longrightarrow>
      check (List_leaf lo hi) (PList xs) = Inl (verr ''too_long'')"
    and list_code: "check (List_leaf lo hi) v = Inl es \<Longrightarrow> e \<in> set es \<Longrightarrow>
      ve_code e = ''too_long'' \<Longrightarrow> \<exists>xs. v = PList xs \<and> hi < length xs"
    and errors_at_root: "check l v = Inl es \<Longrightarrow> es \<noteq> [] \<and> (\<forall>e \<in> set es. ve_loc e = [])"

section \<open>Constrained types\<close>

definition MAX_BATCH_SIZE :: nat where "MAX_BATCH_SIZE = 500"
definition MAX_IDENTIFIER_LENGTH :: nat where "MAX_IDENTIFIER_LENGTH = 128"
definition MAX_COUNTER :: int where "MAX_COUNTER = 2 ^ 63 - 1"

text \<open>The pattern \<open>^[^\x00]+$\<close>.\<close>

definition identifier_pattern :: "string \<Rightarrow> bool" where
  "identifier_pattern s \<longleftrightarrow> s \<noteq> [] \<and> CHR 0x00 \<notin> set s"

definition Identifier :: leaf where
  "Identifier = Str_leaf 1 MAX_IDENTIFIER_LENGTH identifier_pattern"

definition Counter :: leaf where
  "Counter = Int_leaf 0 MAX_COUNTER"

definition ClockQuality :: "string list" where
  "ClockQuality = [''synchronised'', ''unsynchronised'', ''estimated'', ''unknown'']"

datatype item_reason =
    Unknown_device | Wrong_gateway | Invalid_metric | Invalid_unit
  | Value_out_of_range | Malformed_value | Identity_conflict

datatype batch_reason = Unsupported_schema_version | Batch_too_large | Malformed_batch

text \<open>What the annotations promise of a value that passed.\<close>

definition identifier_ok :: "string \<Rightarrow> bool" where
  "identifier_ok s \<longleftrightarrow>
     1 \<le> length s \<and> length s \<le> MAX_IDENTIFIER_LENGTH \<and> identifier_pattern s"

definition counter_ok :: "int \<Rightarrow> bool" where
  "counter_ok n \<longleftrightarrow> 0 \<le> n \<and> n \<le> MAX_COUNTER"

text \<open>
  \<open>require_number\<close>: bool is excluded although it is a subclass of int; \<open>str\<close> of an int
  refuses more than 4300 digits with ValueError.
\<close>

definition int_str_limit :: int where "int_str_limit = 10 ^ 4300"

fun require_number :: "pyval \<Rightarrow> py_number option" where
  "require_number (PInt n) =
     (if \<bar>n\<bar> < int_str_limit then Some (Finite (of_int n)) else None)"
| "require_number (PNum (Finite q)) = Some (Finite q)"
| "require_number (PNum NonFinite) = None"
| "require_number _ = None"

text \<open>
  \<open>re.fullmatch(TIMESTAMP_PATTERN, value)\<close>: nineteen characters of date and time, where \<open>d\<close>
  in the template stands for a digit, an optional fraction and a zone.
\<close>

fun match_template :: "string \<Rightarrow> string \<Rightarrow> bool" where
  "match_template [] [] = True"
| "match_template (t # ts) (c # cs) =
     ((if t = CHR ''d'' then is_digit_c c else c = t) \<and> match_template ts cs)"
| "match_template _ _ = False"

definition match_zone :: "string \<Rightarrow> bool" where
  "match_zone z \<longleftrightarrow> z = ''Z'' \<or>
     (case z of [] \<Rightarrow> False
      | c # cs \<Rightarrow> (c = CHR ''+'' \<or> c = CHR ''-'') \<and> match_template ''dd:dd'' cs)"

definition match_fraction_zone :: "string \<Rightarrow> bool" where
  "match_fraction_zone r \<longleftrightarrow>
     (case r of [] \<Rightarrow> False
      | c # cs \<Rightarrow>
          if c = CHR ''.'' then takeWhile is_digit_c cs \<noteq> [] \<and> match_zone (dropWhile is_digit_c cs)
          else match_zone r)"

definition timestamp_pattern :: "string \<Rightarrow> bool" where
  "timestamp_pattern s \<longleftrightarrow>
     match_template ''dddd-dd-ddTdd:dd:dd'' (take 19 s) \<and> match_fraction_zone (drop 19 s)"

fun require_timestamp :: "pyval \<Rightarrow> pyval option" where
  "require_timestamp (PTime d) = Some (PTime d)"
| "require_timestamp (PStr s) = (if timestamp_pattern s then Some (PStr s) else None)"
| "require_timestamp _ = None"

definition normalize_utc :: "py_datetime \<Rightarrow> py_datetime option" where
  "normalize_utc d = astimezone_utc d"

text \<open>
  Reading a validated leaf at its declared type. The last equation of each is the branch that
  a validator with the documented behaviour never takes.
\<close>

fun as_str :: "(verror list, pyval) result \<Rightarrow> (verror list, string) result" where
  "as_str (Inl es) = Inl es"
| "as_str (Inr (PStr s)) = Inr s"
| "as_str (Inr _) = Inl (verr ''string_type'')"

fun as_int :: "(verror list, pyval) result \<Rightarrow> (verror list, int) result" where
  "as_int (Inl es) = Inl es"
| "as_int (Inr (PInt n)) = Inr n"
| "as_int (Inr _) = Inl (verr ''int_type'')"

fun as_time :: "(verror list, pyval) result \<Rightarrow> (verror list, py_datetime) result" where
  "as_time (Inl es) = Inl es"
| "as_time (Inr (PTime d)) = Inr d"
| "as_time (Inr _) = Inl (verr ''datetime_type'')"

fun as_number :: "(verror list, pyval) result \<Rightarrow> (verror list, rat) result" where
  "as_number (Inl es) = Inl es"
| "as_number (Inr (PNum (Finite q))) = Inr q"
| "as_number (Inr _) = Inl (verr ''decimal_type'')"

text \<open>\<open>Timestamp\<close>: before-validator, aware datetime, after-validator; the result is its UTC instant.\<close>

definition check_timestamp :: "validator \<Rightarrow> pyval \<Rightarrow> (verror list, usec) result" where
  "check_timestamp V v =
     (case require_timestamp v of
        None \<Rightarrow> Inl (verr ''value_error'')
      | Some w \<Rightarrow>
          (case as_time (V Aware_leaf w) of
             Inl es \<Rightarrow> Inl es
           | Inr d \<Rightarrow>
               (case normalize_utc d of
                  None \<Rightarrow> Inl (verr ''value_error'')
                | Some u \<Rightarrow> Inr (instant u))))"

definition check_nullable_timestamp :: "validator \<Rightarrow> pyval \<Rightarrow> (verror list, usec option) result" where
  "check_nullable_timestamp V v =
     (if v = PNone then Inr None
      else case check_timestamp V v of Inl es \<Rightarrow> Inl es | Inr t \<Rightarrow> Inr (Some t))"

definition check_temperature :: "validator \<Rightarrow> pyval \<Rightarrow> (verror list, rat) result" where
  "check_temperature V v =
     (case require_number v of
        None \<Rightarrow> Inl (verr ''value_error'')
      | Some x \<Rightarrow> as_number (V Decimal_leaf (PNum x)))"

section \<open>Models with forbidden extras\<close>

definition under :: "string \<Rightarrow> verror list \<Rightarrow> verror list" where
  "under f es = map (\<lambda>e. e\<lparr>ve_loc := LField f # ve_loc e\<rparr>) es"

text \<open>A required field of a model, and the members a model with \<open>extra="forbid"\<close> refuses.\<close>

definition required :: "string \<Rightarrow> (pyval \<Rightarrow> (verror list, 'a) result) \<Rightarrow>
    (string \<times> pyval) list \<Rightarrow> (verror list, 'a) result" where
  "required f c d =
     (case map_of d f of
        None \<Rightarrow> Inl (under f (verr ''missing''))
      | Some v \<Rightarrow> (case c v of Inl es \<Rightarrow> Inl (under f es) | Inr a \<Rightarrow> Inr a))"

definition extra_errors :: "string list \<Rightarrow> (string \<times> pyval) list \<Rightarrow> verror list" where
  "extra_errors names d =
     concat (map (\<lambda>(k, _). if k \<in> set names then [] else under k (verr ''extra_forbidden'')) d)"

record telemetry_quality =
  q_reading :: string
  q_clock :: string

definition validate_quality :: "validator \<Rightarrow> pyval \<Rightarrow> (verror list, telemetry_quality) result" where
  "validate_quality V v =
     (case v of
        PDict d \<Rightarrow>
          (let r = required ''reading'' (\<lambda>x. as_str (V (Lit_str [''valid'']) x)) d;
               c = required ''clock'' (\<lambda>x. as_str (V (Lit_str ClockQuality) x)) d;
               es = errs_of r @ errs_of c @ extra_errors [''reading'', ''clock''] d
           in if es = [] then Inr \<lparr>q_reading = projr r, q_clock = projr c\<rparr> else Inl es)
      | _ \<Rightarrow> Inl (verr ''model_type''))"

record telemetry_event =
  ev_device_id :: string
  ev_boot_id :: string
  ev_sequence_number :: int
  ev_measured_at :: "usec option"
  ev_device_uptime_ms :: int
  ev_gateway_received_at :: usec
  ev_metric :: string
  ev_value :: rat
  ev_unit :: string
  ev_quality :: telemetry_quality

definition event_fields :: "string list" where
  "event_fields = [''device_id'', ''boot_id'', ''sequence_number'', ''measured_at'',
     ''device_uptime_ms'', ''gateway_received_at'', ''metric'', ''value'', ''unit'', ''quality'']"

text \<open>\<open>TelemetryEvent.model_validate(payload)\<close>: all errors, in declaration order, or the event.\<close>

definition validate_event :: "validator \<Rightarrow> pyval \<Rightarrow> (verror list, telemetry_event) result" where
  "validate_event V payload =
     (case payload of
        PDict d \<Rightarrow>
          (let dev = required ''device_id'' (\<lambda>x. as_str (V Identifier x)) d;
               boot = required ''boot_id'' (\<lambda>x. as_str (V Identifier x)) d;
               sq = required ''sequence_number'' (\<lambda>x. as_int (V Counter x)) d;
               meas = required ''measured_at'' (check_nullable_timestamp V) d;
               up = required ''device_uptime_ms'' (\<lambda>x. as_int (V Counter x)) d;
               rcv = required ''gateway_received_at'' (check_timestamp V) d;
               met = required ''metric'' (\<lambda>x. as_str (V (Lit_str [''temperature'']) x)) d;
               val = required ''value'' (check_temperature V) d;
               uni = required ''unit'' (\<lambda>x. as_str (V (Lit_str [''celsius'']) x)) d;
               qual = required ''quality'' (validate_quality V) d;
               es = errs_of dev @ errs_of boot @ errs_of sq @ errs_of meas @ errs_of up
                    @ errs_of rcv @ errs_of met @ errs_of val @ errs_of uni @ errs_of qual
                    @ extra_errors event_fields d
           in if es = []
              then Inr \<lparr>ev_device_id = projr dev, ev_boot_id = projr boot,
                        ev_sequence_number = projr sq, ev_measured_at = projr meas,
                        ev_device_uptime_ms = projr up, ev_gateway_received_at = projr rcv,
                        ev_metric = projr met, ev_value = projr val, ev_unit = projr uni,
                        ev_quality = projr qual\<rparr>
              else Inl es)
      | _ \<Rightarrow> Inl (verr ''model_type''))"

section \<open>Response items\<close>

datatype outcome = Accepted | Duplicate | Rejected

record response_item =
  ri_device_id :: "string option"
  ri_boot_id :: "string option"
  ri_sequence_number :: "int option"
  ri_outcome :: outcome
  ri_reason :: "item_reason option"

definition complete_identity :: "response_item \<Rightarrow> bool" where
  "complete_identity r \<longleftrightarrow>
     ri_device_id r \<noteq> None \<and> ri_boot_id r \<noteq> None \<and> ri_sequence_number r \<noteq> None"

text \<open>The model validator; the string is the message of the ValueError.\<close>

definition validate_outcome :: "response_item \<Rightarrow> (string, response_item) result" where
  "validate_outcome r =
     (if ri_outcome r = Rejected then
        (if ri_reason r = None then Inl ''rejected outcomes require a reason''
         else if \<not> complete_identity r \<and> ri_reason r \<noteq> Some Malformed_value
         then Inl ''only malformed_value may have an incomplete identity''
         else Inr r)
      else
        (if ri_reason r \<noteq> None then Inl ''accepted and duplicate outcomes cannot have a reason''
         else if \<not> complete_identity r
         then Inl ''accepted and duplicate outcomes require an identity''
         else Inr r))"

text \<open>The constructor: the annotated fields first, then the model validator.\<close>

definition TelemetryResponseItem ::
    "string option \<Rightarrow> string option \<Rightarrow> int option \<Rightarrow> outcome \<Rightarrow> item_reason option
     \<Rightarrow> (string, response_item) result" where
  "TelemetryResponseItem dev boot sq out reason =
     (if opt_all identifier_ok dev \<and> opt_all identifier_ok boot
         \<and> opt_all counter_ok sq
      then validate_outcome \<lparr>ri_device_id = dev, ri_boot_id = boot, ri_sequence_number = sq,
                              ri_outcome = out, ri_reason = reason\<rparr>
      else Inl ''invalid identity field'')"

record batch_error =
  be_reason :: batch_reason
  be_message :: string
  be_details :: "verror list"

datatype batch_item = Valid_item telemetry_event | Rejected_item response_item

record validated_batch =
  vb_schema_version :: int
  vb_items :: "batch_item list"

section \<open>What validation promises\<close>

text \<open>A well-formed event: every annotation of \<open>TelemetryEvent\<close> holds of it.\<close>

definition quality_ok :: "telemetry_quality \<Rightarrow> bool" where
  "quality_ok q \<longleftrightarrow> q_reading q = ''valid'' \<and> q_clock q \<in> set ClockQuality"

definition event_wf :: "telemetry_event \<Rightarrow> bool" where
  "event_wf e \<longleftrightarrow>
     identifier_ok (ev_device_id e) \<and> identifier_ok (ev_boot_id e)
     \<and> counter_ok (ev_sequence_number e) \<and> opt_all in_datetime_range (ev_measured_at e)
     \<and> counter_ok (ev_device_uptime_ms e) \<and> in_datetime_range (ev_gateway_received_at e)
     \<and> ev_metric e = ''temperature'' \<and> ev_unit e = ''celsius'' \<and> quality_ok (ev_quality e)"

text \<open>A response item that its own model validator accepts.\<close>

definition response_item_ok :: "response_item \<Rightarrow> bool" where
  "response_item_ok r \<longleftrightarrow> validate_outcome r = Inr r"

lemma response_item_ok_iff:
  "response_item_ok r \<longleftrightarrow>
     (if ri_outcome r = Rejected
      then ri_reason r \<noteq> None \<and> (complete_identity r \<or> ri_reason r = Some Malformed_value)
      else ri_reason r = None \<and> complete_identity r)"
  by (auto simp: response_item_ok_def validate_outcome_def)

lemma errs_of_Nil_iff: "errs_of r = [] \<longleftrightarrow> r = Inl [] \<or> (\<exists>a. r = Inr a)"
  by (cases r) auto

lemma under_Nil_iff [simp]: "under f es = [] \<longleftrightarrow> es = []"
  by (simp add: under_def)

lemma verr_not_Nil [simp]: "verr c \<noteq> []"
  by (simp add: verr_def)

lemma required_Inr_iff:
  "required f c d = Inr a \<longleftrightarrow> (\<exists>v. map_of d f = Some v \<and> c v = Inr a)"
  by (auto simp: required_def split: option.splits sum.splits)

lemma required_not_Inl_Nil: "(\<And>v. c v \<noteq> Inl []) \<Longrightarrow> required f c d \<noteq> Inl []"
  by (auto simp: required_def split: option.splits sum.splits)

lemma errs_of_Nil_projr: "r \<noteq> Inl [] \<Longrightarrow> errs_of r = [] \<longleftrightarrow> r = Inr (projr r)"
  by (cases r) auto

lemma extra_errors_Nil_iff: "extra_errors names d = [] \<longleftrightarrow> fst ` set d \<subseteq> set names"
  by (auto simp: extra_errors_def split: if_splits)

section \<open>Facts about every validator with the documented behaviour\<close>

named_theorems typed_field \<open>a checked field, read at its declared type\<close>
named_theorems proper \<open>a check never fails with an empty list of errors\<close>

lemma as_str_proper: "r \<noteq> Inl [] \<Longrightarrow> as_str r \<noteq> Inl []"
  by (cases r rule: as_str.cases) (auto simp: verr_def)

lemma as_int_proper: "r \<noteq> Inl [] \<Longrightarrow> as_int r \<noteq> Inl []"
  by (cases r rule: as_int.cases) (auto simp: verr_def)

lemma as_time_proper: "r \<noteq> Inl [] \<Longrightarrow> as_time r \<noteq> Inl []"
  by (cases r rule: as_time.cases) (auto simp: verr_def)

lemma as_number_proper: "r \<noteq> Inl [] \<Longrightarrow> as_number r \<noteq> Inl []"
  by (cases r rule: as_number.cases) (auto simp: verr_def)

lemma as_str_Inr_iff: "as_str r = Inr s \<longleftrightarrow> r = Inr (PStr s)"
  by (cases r rule: as_str.cases) auto

lemma as_int_Inr_iff: "as_int r = Inr n \<longleftrightarrow> r = Inr (PInt n)"
  by (cases r rule: as_int.cases) auto

lemma as_time_Inr_iff: "as_time r = Inr d \<longleftrightarrow> r = Inr (PTime d)"
  by (cases r rule: as_time.cases) auto

context pydantic_core
begin

lemma check_proper: "check l v \<noteq> Inl []"
  using errors_at_root by blast

lemma leaf_proper [proper]:
  "as_str (check l v) \<noteq> Inl []" "as_int (check l v) \<noteq> Inl []"
  "as_time (check l v) \<noteq> Inl []" "as_number (check l v) \<noteq> Inl []"
  by (simp_all add: as_str_proper as_int_proper as_time_proper as_number_proper check_proper)

lemma identifier_field [typed_field]:
  "as_str (check Identifier v) = Inr s \<longleftrightarrow> v = PStr s \<and> identifier_ok s"
  by (auto simp: as_str_Inr_iff Identifier_def str_leaf identifier_ok_def)

lemma counter_field [typed_field]:
  "as_int (check Counter v) = Inr n \<longleftrightarrow> v = PInt n \<and> counter_ok n"
  by (auto simp: as_int_Inr_iff Counter_def int_leaf counter_ok_def)

lemma literal_field [typed_field]:
  "as_str (check (Lit_str ss) v) = Inr s \<longleftrightarrow> v = PStr s \<and> s \<in> set ss"
  by (auto simp: as_str_Inr_iff lit_str split: if_splits)

lemma literal_error: "as_str (check (Lit_str ss) v) = Inl es \<Longrightarrow> es = verr ''literal_error''"
  by (auto simp: lit_str split: if_splits)

lemma timestamp_proper [proper]: "check_timestamp check v \<noteq> Inl []"
  using leaf_proper(3)
  by (auto simp: check_timestamp_def split: option.splits sum.splits)

lemma nullable_timestamp_proper [proper]: "check_nullable_timestamp check v \<noteq> Inl []"
  using timestamp_proper [of v]
  by (auto simp: check_nullable_timestamp_def split: sum.splits)

lemma temperature_proper [proper]: "check_temperature check v \<noteq> Inl []"
  using leaf_proper(4) by (auto simp: check_temperature_def split: option.splits)

lemma quality_proper [proper]: "validate_quality check v \<noteq> Inl []"
  by (auto simp: validate_quality_def Let_def split: pyval.splits)

lemma timestamp_range: "check_timestamp check v = Inr t \<Longrightarrow> in_datetime_range t"
  by (auto simp: check_timestamp_def normalize_utc_def astimezone_utc_Some
           split: option.splits sum.splits)

lemma nullable_timestamp_range:
  "check_nullable_timestamp check v = Inr t \<Longrightarrow> opt_all in_datetime_range t"
  by (auto simp: check_nullable_timestamp_def dest: timestamp_range split: if_splits sum.splits)

text \<open>A datetime that is already aware is kept as its instant, out of range it is an error.\<close>

lemma timestamp_of_time:
  "is_aware d \<Longrightarrow> check_timestamp check (PTime d) =
     (if in_datetime_range (instant d) then Inr (instant d) else Inl (verr ''value_error''))"
  by (simp add: check_timestamp_def aware_time normalize_utc_def astimezone_utc_def)

lemma temperature_of_number: "check_temperature check (PNum (Finite q)) = Inr q"
  by (simp add: check_temperature_def decimal_leaf)

lemma bool_is_no_temperature:
  "check_temperature check (PBool b) = Inl (verr ''value_error'')"
  "check_temperature check (PNum NonFinite) = Inl (verr ''value_error'')"
  by (simp_all add: check_temperature_def)

lemma validate_quality_Inr_iff:
  "validate_quality check (PDict d) = Inr q \<longleftrightarrow>
     required ''reading'' (\<lambda>x. as_str (check (Lit_str [''valid'']) x)) d = Inr (q_reading q)
     \<and> required ''clock'' (\<lambda>x. as_str (check (Lit_str ClockQuality) x)) d = Inr (q_clock q)
     \<and> fst ` set d \<subseteq> {''reading'', ''clock''}"
  (is "?l \<longleftrightarrow> ?r \<and> ?c \<and> ?x")
proof
  show "?r \<and> ?c \<and> ?x" if ?l
    using that unfolding validate_quality_def Let_def
    by (auto simp: errs_of_Nil_projr required_not_Inl_Nil proper extra_errors_Nil_iff
             split: if_splits)
  show ?l if "?r \<and> ?c \<and> ?x"
    using that by (simp add: validate_quality_def Let_def extra_errors_Nil_iff)
qed

lemma quality_wf:
  assumes "validate_quality check v = Inr q"
  shows "quality_ok q"
proof -
  obtain d where "v = PDict d"
    using assms by (cases v) (auto simp: validate_quality_def)
  with assms show ?thesis
    by (auto simp: validate_quality_Inr_iff required_Inr_iff typed_field quality_ok_def)
qed

text \<open>An event comes out exactly when each field does and there is no other member.\<close>

lemma validate_event_Inr_iff:
  "validate_event check (PDict d) = Inr e \<longleftrightarrow>
     required ''device_id'' (\<lambda>x. as_str (check Identifier x)) d = Inr (ev_device_id e)
     \<and> required ''boot_id'' (\<lambda>x. as_str (check Identifier x)) d = Inr (ev_boot_id e)
     \<and> required ''sequence_number'' (\<lambda>x. as_int (check Counter x)) d = Inr (ev_sequence_number e)
     \<and> required ''measured_at'' (check_nullable_timestamp check) d = Inr (ev_measured_at e)
     \<and> required ''device_uptime_ms'' (\<lambda>x. as_int (check Counter x)) d = Inr (ev_device_uptime_ms e)
     \<and> required ''gateway_received_at'' (check_timestamp check) d = Inr (ev_gateway_received_at e)
     \<and> required ''metric'' (\<lambda>x. as_str (check (Lit_str [''temperature'']) x)) d = Inr (ev_metric e)
     \<and> required ''value'' (check_temperature check) d = Inr (ev_value e)
     \<and> required ''unit'' (\<lambda>x. as_str (check (Lit_str [''celsius'']) x)) d = Inr (ev_unit e)
     \<and> required ''quality'' (validate_quality check) d = Inr (ev_quality e)
     \<and> fst ` set d \<subseteq> set event_fields"
  (is "?l \<longleftrightarrow> ?r")
proof
  show ?r if ?l
    using that unfolding validate_event_def Let_def
    by (simp add: errs_of_Nil_projr required_not_Inl_Nil proper extra_errors_Nil_iff
             split: if_splits) auto
  show ?l if ?r
    using that by (simp add: validate_event_def Let_def extra_errors_Nil_iff)
qed

lemma validate_event_wf:
  assumes "validate_event check payload = Inr e"
  shows "event_wf e"
proof -
  obtain d where "payload = PDict d"
    using assms by (cases payload) (auto simp: validate_event_def)
  with assms show ?thesis
    by (auto simp: validate_event_Inr_iff required_Inr_iff typed_field event_wf_def
             dest: timestamp_range nullable_timestamp_range quality_wf)
qed

end

end
