(* ===== verification/Core_Validator.thy ===== *)
theory Core_Validator
  imports Telemetry_Schemas
begin

text \<open>
  A validator with the documented behaviour of \<open>pydantic_core\<close>, so that the statements with
  that hypothesis can be evaluated on concrete payloads, and the lemmas about the schemas that
  hold for every such validator.
\<close>

section \<open>ISO 8601 instants\<close>

definition is_leap :: "int \<Rightarrow> bool" where
  "is_leap y \<longleftrightarrow> y mod 4 = 0 \<and> (y mod 100 \<noteq> 0 \<or> y mod 400 = 0)"

definition days_before_year :: "int \<Rightarrow> int" where
  "days_before_year y = (y - 1) * 365 + (y - 1) div 4 - (y - 1) div 100 + (y - 1) div 400"

definition month_lengths :: "int \<Rightarrow> int list" where
  "month_lengths y = [31, if is_leap y then 29 else 28, 31, 30, 31, 30, 31, 31, 30, 31, 30, 31]"

definition days_before_month :: "int \<Rightarrow> nat \<Rightarrow> int" where
  "days_before_month y m = sum_list (take (m - 1) (month_lengths y))"

definition civil_to_usec :: "int \<Rightarrow> nat \<Rightarrow> int \<Rightarrow> int \<Rightarrow> int \<Rightarrow> int \<Rightarrow> int \<Rightarrow> usec" where
  "civil_to_usec y m d hh mm ss us =
     days (days_before_year y + days_before_month y m + d - 1)
     + hh * 3600000000 + mm * 60000000 + ss * 1000000 + us"

definition num_at :: "string \<Rightarrow> nat \<Rightarrow> nat \<Rightarrow> nat" where
  "num_at s i n = nat_of_digits 0 (take n (drop i s))"

definition fraction_usec :: "string \<Rightarrow> int" where
  "fraction_usec ds = foldl (\<lambda>a c. 10 * a + int (digit_val c)) 0 (take 6 (ds @ ''000000''))"

definition zone_offset :: "string \<Rightarrow> int option" where
  "zone_offset z =
     (if z = ''Z'' then Some 0
      else let hh = int (num_at z 1 2); mm = int (num_at z 4 2);
               off = minutes (60 * hh + mm)
           in if hh < 24 \<and> mm < 60
              then Some (if take 1 z = ''-'' then - off else off) else None)"

definition iso_parse :: "string \<Rightarrow> py_datetime option" where
  "iso_parse s =
     (if \<not> timestamp_pattern s then None
      else let y = int (num_at s 0 4); m = num_at s 5 2; d = int (num_at s 8 2);
               hh = int (num_at s 11 2); mi = int (num_at s 14 2); ss = int (num_at s 17 2);
               r = drop 19 s;
               fr = (if take 1 r = ''.'' then takeWhile is_digit_c (tl r) else []);
               z = (if take 1 r = ''.'' then dropWhile is_digit_c (tl r) else r)
           in if 1 \<le> y \<and> 1 \<le> m \<and> m \<le> 12 \<and> 1 \<le> d \<and> d \<le> month_lengths y ! (m - 1)
                 \<and> hh < 24 \<and> mi < 60 \<and> ss < 60
              then (case zone_offset z of None \<Rightarrow> None
                    | Some off \<Rightarrow> Some (DT (civil_to_usec y m d hh mi ss (fraction_usec fr)) (Some off)))
              else None)"

lemma iso_parse_aware: "iso_parse s = Some d \<Longrightarrow> is_aware d"
  by (auto simp: iso_parse_def is_aware_def Let_def split: if_splits option.splits)

section \<open>A validator with the documented behaviour\<close>

fun core_check :: validator where
  "core_check (Str_leaf lo hi p) (PStr s) =
     (if length s < lo then Inl (verr ''string_too_short'')
      else if hi < length s then Inl (verr ''string_too_long'')
      else if p s then Inr (PStr s) else Inl (verr ''string_pattern_mismatch''))"
| "core_check (Str_leaf lo hi p) _ = Inl (verr ''string_type'')"
| "core_check (Int_leaf a b) (PInt n) =
     (if n < a then Inl (verr ''greater_than_equal'')
      else if b < n then Inl (verr ''less_than_equal'') else Inr (PInt n))"
| "core_check (Int_leaf a b) _ = Inl (verr ''int_type'')"
| "core_check (Lit_str ss) (PStr s) =
     (if s \<in> set ss then Inr (PStr s) else Inl (verr ''literal_error''))"
| "core_check (Lit_str ss) _ = Inl (verr ''literal_error'')"
| "core_check (Lit_int ns) (PInt n) =
     (if n \<in> set ns then Inr (PInt n) else Inl (verr ''literal_error''))"
| "core_check (Lit_int ns) _ = Inl (verr ''literal_error'')"
| "core_check Aware_leaf (PTime d) =
     (if is_aware d then Inr (PTime d) else Inl (verr ''timezone_aware''))"
| "core_check Aware_leaf (PStr s) =
     (case iso_parse s of None \<Rightarrow> Inl (verr ''datetime_parsing'') | Some d \<Rightarrow> Inr (PTime d))"
| "core_check Aware_leaf _ = Inl (verr ''datetime_type'')"
| "core_check Decimal_leaf (PNum (Finite q)) = Inr (PNum (Finite q))"
| "core_check Decimal_leaf (PInt n) = Inr (PNum (Finite (of_int n)))"
| "core_check Decimal_leaf _ = Inl (verr ''decimal_type'')"
| "core_check (List_leaf lo hi) (PList xs) =
     (if length xs < lo then Inl (verr ''too_short'')
      else if hi < length xs then Inl (verr ''too_long'') else Inr (PList xs))"
| "core_check (List_leaf lo hi) _ = Inl (verr ''list_type'')"

lemma core_list_code:
  "core_check (List_leaf lo hi) v = Inl es \<Longrightarrow> e \<in> set es \<Longrightarrow> ve_code e = ''too_long'' \<Longrightarrow>
   \<exists>xs. v = PList xs \<and> hi < length xs"
  by (cases v) (auto simp: verr_def split: if_splits)

lemma core_errors_at_root:
  "core_check l v = Inl es \<Longrightarrow> es \<noteq> [] \<and> (\<forall>e \<in> set es. ve_loc e = [])"
  by (induction l v rule: core_check.induct)
     (auto simp: verr_def split: if_splits option.splits)

interpretation core: pydantic_core core_check
proof
  show "\<And>lo hi p v w. core_check (Str_leaf lo hi p) v = Inr w \<longleftrightarrow>
      (\<exists>s. v = PStr s \<and> w = PStr s \<and> lo \<le> length s \<and> length s \<le> hi \<and> p s)"
    subgoal for lo hi p v w by (cases v) auto
    done
  show "\<And>a b v w. core_check (Int_leaf a b) v = Inr w \<longleftrightarrow>
      (\<exists>n. v = PInt n \<and> w = PInt n \<and> a \<le> n \<and> n \<le> b)"
    subgoal for a b v w by (cases v) auto
    done
  show "\<And>ss v. core_check (Lit_str ss) v =
      (if \<exists>s \<in> set ss. v = PStr s then Inr v else Inl (verr ''literal_error''))"
    subgoal for ss v by (cases v) auto
    done
  show "\<And>v w. core_check Aware_leaf v = Inr w \<Longrightarrow> \<exists>d. w = PTime d \<and> is_aware d"
    subgoal for v w by (cases v) (auto split: if_splits option.splits dest: iso_parse_aware)
    done
  show "\<And>lo hi v w. core_check (List_leaf lo hi) v = Inr w \<longleftrightarrow>
      (\<exists>xs. v = PList xs \<and> w = PList xs \<and> lo \<le> length xs \<and> length xs \<le> hi)"
    subgoal for lo hi v w by (cases v) auto
    done
qed (auto intro: core_list_code dest: core_errors_at_root)

end
