(* ===== verification/Telemetry_Validation.thy ===== *)
theory Telemetry_Validation
  imports Core_Validator
begin

text \<open>
  \<open>backend/app/telemetry/validation.py\<close>: decoding of the request body, validation of the
  envelope, and the classification of each item on its own.

  The scanner of \<open>json.loads\<close> after UTF-8 decoding is the parameter \<open>scan\<close>: it yields the
  syntax tree of the body, or \<open>None\<close> where decoding or scanning raises. The hooks the code
  passes to it run over that tree here.
\<close>

section \<open>Decoding\<close>

datatype raw_json =
    RNull
  | RBool bool
  | RInt int
  | RFloat "rat option"   \<comment> \<open>\<open>None\<close>: \<open>Decimal\<close> raises InvalidOperation on the literal\<close>
  | RConst string         \<comment> \<open>\<open>NaN\<close>, \<open>Infinity\<close> or \<open>-Infinity\<close>\<close>
  | RStr string
  | RArr "raw_json list"
  | RObj "(string \<times> raw_json) list"

definition reject_constant :: "string \<Rightarrow> pyval option" where
  "reject_constant c = None"

fun unique_object_from :: "(string \<times> 'v) list \<Rightarrow> (string \<times> 'v) list \<Rightarrow> (string \<times> 'v) list option" where
  "unique_object_from result [] = Some result"
| "unique_object_from result ((key, v) # pairs) =
     (if key \<in> fst ` set result then None
      else unique_object_from (result @ [(key, v)]) pairs)"

definition unique_object :: "(string \<times> 'v) list \<Rightarrow> (string \<times> 'v) list option" where
  "unique_object pairs = unique_object_from [] pairs"

fun load_value :: "raw_json \<Rightarrow> pyval option"
  and load_values :: "raw_json list \<Rightarrow> pyval list option"
  and load_pairs :: "(string \<times> raw_json) list \<Rightarrow> (string \<times> pyval) list option" where
  "load_value RNull = Some PNone"
| "load_value (RBool b) = Some (PBool b)"
| "load_value (RInt n) = Some (PInt n)"
| "load_value (RFloat q) = map_option (\<lambda>x. PNum (Finite x)) q"
| "load_value (RConst c) = reject_constant c"
| "load_value (RStr s) = Some (PStr s)"
| "load_value (RArr xs) = map_option PList (load_values xs)"
| "load_value (RObj ps) =
     (case load_pairs ps of None \<Rightarrow> None | Some qs \<Rightarrow> map_option PDict (unique_object qs))"
| "load_values [] = Some []"
| "load_values (x # xs) =
     (case load_value x of None \<Rightarrow> None
      | Some v \<Rightarrow> map_option ((#) v) (load_values xs))"
| "load_pairs [] = Some []"
| "load_pairs ((k, x) # ps) =
     (case load_value x of None \<Rightarrow> None
      | Some v \<Rightarrow> map_option ((#) (k, v)) (load_pairs ps))"

section \<open>The envelope\<close>

text \<open>The before-validator of \<open>schema_version\<close>, then \<open>Literal[1]\<close>.\<close>

definition require_integer_version :: "validator \<Rightarrow> pyval \<Rightarrow> (verror list, int) result" where
  "require_integer_version V v =
     (case v of PInt n \<Rightarrow> as_int (V (Lit_int [1]) (PInt n)) | _ \<Rightarrow> Inl (verr ''value_error''))"

fun as_list :: "(verror list, pyval) result \<Rightarrow> (verror list, pyval list) result" where
  "as_list (Inl es) = Inl es"
| "as_list (Inr (PList xs)) = Inr xs"
| "as_list (Inr _) = Inl (verr ''list_type'')"

definition check_events :: "validator \<Rightarrow> pyval \<Rightarrow> (verror list, pyval list) result" where
  "check_events V v = as_list (V (List_leaf 1 MAX_BATCH_SIZE) v)"

definition validate_envelope :: "validator \<Rightarrow> pyval \<Rightarrow> (verror list, int \<times> pyval list) result" where
  "validate_envelope V payload =
     (case payload of
        PDict d \<Rightarrow>
          (let ver = required ''schema_version'' (require_integer_version V) d;
               evs = required ''events'' (check_events V) d;
               es = errs_of ver @ errs_of evs @ extra_errors [''schema_version'', ''events''] d
           in if es = [] then Inr (projr ver, projr evs) else Inl es)
      | _ \<Rightarrow> Inl (verr ''model_type''))"

text \<open>The two errors that do not make an envelope malformed.\<close>

definition benign_error :: "verror \<Rightarrow> bool" where
  "benign_error i \<longleftrightarrow>
     ve_loc i = [LField ''schema_version''] \<and> ve_code i = ''literal_error''
     \<or> ve_loc i = [LField ''events''] \<and> ve_code i = ''too_long''"

definition envelope_error :: "verror list \<Rightarrow> batch_error" where
  "envelope_error details =
     (let structural_errors = filter (\<lambda>i. \<not> benign_error i) details
      in if structural_errors = []
         then (if \<exists>i \<in> set details. ve_loc i = [LField ''schema_version'']
               then \<lparr>be_reason = Unsupported_schema_version,
                     be_message = ''Only schema_version 1 is supported.'',
                     be_details = details\<rparr>
               else \<lparr>be_reason = Batch_too_large,
                     be_message = ''A batch may contain at most 500 events.'',
                     be_details = details\<rparr>)
         else \<lparr>be_reason = Malformed_batch,
               be_message = ''Expected schema_version and an events array containing 1 to 500 items.'',
               be_details = details\<rparr>)"

definition undecodable :: batch_error where
  "undecodable = \<lparr>be_reason = Malformed_batch,
     be_message = ''Body must be UTF-8 JSON with unique object members.'', be_details = []\<rparr>"

section \<open>Items\<close>

definition error_field :: "verror \<Rightarrow> loc_item option" where
  "error_field i = (case ve_loc i of [] \<Rightarrow> None | l # _ \<Rightarrow> Some l)"

definition rejection_reason :: "verror list \<Rightarrow> item_reason" where
  "rejection_reason errors =
     (let fields = set (map error_field errors)
      in if fields \<subseteq> {Some (LField ''metric''), Some (LField ''unit'')}
            \<and> list_all (\<lambda>i. ve_code i = ''literal_error'') errors
         then (if Some (LField ''metric'') \<in> fields then Invalid_metric else Invalid_unit)
         else Malformed_value)"

text \<open>\<open>_identity\<close>: the value when the adapter accepts it, else \<open>None\<close>.\<close>

definition adapter_value :: "(verror list, 'a) result \<Rightarrow> 'a option" where
  "adapter_value r = (case r of Inl _ \<Rightarrow> None | Inr a \<Rightarrow> Some a)"

definition identity_identifier :: "validator \<Rightarrow> pyval \<Rightarrow> string option" where
  "identity_identifier V v = adapter_value (as_str (V Identifier v))"

definition identity_counter :: "validator \<Rightarrow> pyval \<Rightarrow> int option" where
  "identity_counter V v = adapter_value (as_int (V Counter v))"

text \<open>
  The result is \<open>Inl\<close> where constructing the response item would raise; that never happens
  (\<open>validate_item_total\<close> below).
\<close>

definition validate_telemetry_item :: "validator \<Rightarrow> pyval \<Rightarrow> (string, batch_item) result" where
  "validate_telemetry_item V payload =
     (case validate_event V payload of
        Inr e \<Rightarrow> Inr (Valid_item e)
      | Inl errors \<Rightarrow>
          (let reason = rejection_reason errors;
               raw = dict_or_empty payload
           in case TelemetryResponseItem
                     (identity_identifier V (dict_get raw ''device_id''))
                     (identity_identifier V (dict_get raw ''boot_id''))
                     (identity_counter V (dict_get raw ''sequence_number''))
                     Rejected (Some reason) of
                Inl message \<Rightarrow> Inl message
              | Inr r \<Rightarrow> Inr (Rejected_item r)))"

datatype parse_error = Batch_error batch_error | Uncaught string

definition parse_telemetry_batch ::
    "('b \<Rightarrow> raw_json option) \<Rightarrow> validator \<Rightarrow> 'b \<Rightarrow> (parse_error, validated_batch) result" where
  "parse_telemetry_batch scan V body =
     (case scan body of
        None \<Rightarrow> Inl (Batch_error undecodable)
      | Some tree \<Rightarrow>
          (case load_value tree of
             None \<Rightarrow> Inl (Batch_error undecodable)
           | Some payload \<Rightarrow>
               (case validate_envelope V payload of
                  Inl errors \<Rightarrow> Inl (Batch_error (envelope_error errors))
                | Inr (version, events) \<Rightarrow>
                    (case res_map (validate_telemetry_item V) events of
                       Inl message \<Rightarrow> Inl (Uncaught message)
                     | Inr items \<Rightarrow> Inr \<lparr>vb_schema_version = version, vb_items = items\<rparr>))))"

section \<open>Decoding keeps objects with distinct members and nothing else\<close>

lemma unique_object_from_eq:
  "distinct (map fst result) \<Longrightarrow>
   unique_object_from result pairs =
     (if distinct (map fst (result @ pairs)) then Some (result @ pairs) else None)"
  by (induction result pairs rule: unique_object_from.induct) auto

lemma unique_object_eq:
  "unique_object pairs = (if distinct (map fst pairs) then Some pairs else None)"
  by (simp add: unique_object_def unique_object_from_eq)

lemma load_pairs_keys: "load_pairs ps = Some qs \<Longrightarrow> map fst qs = map fst ps"
  by (induction ps arbitrary: qs) (auto split: option.splits)

text \<open>Every object of a tree that loads has distinct members, and no constant is non-standard.\<close>

fun strict_tree :: "raw_json \<Rightarrow> bool" where
  "strict_tree (RFloat q) \<longleftrightarrow> q \<noteq> None"
| "strict_tree (RConst c) \<longleftrightarrow> False"
| "strict_tree (RArr xs) \<longleftrightarrow> (\<forall>x \<in> set xs. strict_tree x)"
| "strict_tree (RObj ps) \<longleftrightarrow> distinct (map fst ps) \<and> (\<forall>p \<in> set ps. strict_tree (snd p))"
| "strict_tree _ \<longleftrightarrow> True"

lemma load_value_defined:
  "load_value t \<noteq> None \<longleftrightarrow> strict_tree t"
  "load_values ts \<noteq> None \<longleftrightarrow> (\<forall>t \<in> set ts. strict_tree t)"
  "load_pairs ps \<noteq> None \<longleftrightarrow> (\<forall>p \<in> set ps. strict_tree (snd p))"
proof (induction t and ts and ps rule: load_value_load_values_load_pairs.induct)
  case (8 ps)
  then show ?case
    by (auto simp: unique_object_eq load_pairs_keys split: option.splits)
qed (auto simp: reject_constant_def split: option.splits)

section \<open>Where errors are reported\<close>

lemma error_field_under [simp]:
  "es \<noteq> [] \<Longrightarrow> error_field ` set (under f es) = {Some (LField f)}"
  by (auto simp: under_def error_field_def image_iff) (metis list.set_intros(1) neq_Nil_conv)

lemma error_fields_required:
  "(\<And>v. c v \<noteq> Inl []) \<Longrightarrow>
   error_field ` set (errs_of (required f c d)) =
     (if \<exists>a. required f c d = Inr a then {} else {Some (LField f)})"
proof (cases "map_of d f")
  case None
  then show ?thesis by (simp add: required_def)
next
  case (Some v)
  assume proper: "\<And>v. c v \<noteq> Inl []"
  show ?thesis
  proof (cases "c v")
    case (Inl es)
    with proper have "es \<noteq> []" by blast
    with Some Inl show ?thesis by (simp add: required_def)
  qed (simp add: Some required_def)
qed

lemma error_fields_extra:
  "error_field ` set (extra_errors names d) =
     (\<lambda>k. Some (LField k)) ` (fst ` set d - set names)"
  by (force simp: extra_errors_def under_def verr_def error_field_def split: if_splits)

text \<open>All fields but \<open>metric\<close> and \<open>unit\<close> are valid and there is no other member.\<close>

definition rest_valid :: "validator \<Rightarrow> (string \<times> pyval) list \<Rightarrow> bool" where
  "rest_valid V d \<longleftrightarrow>
     is_ok (required ''device_id'' (\<lambda>x. as_str (V Identifier x)) d)
     \<and> is_ok (required ''boot_id'' (\<lambda>x. as_str (V Identifier x)) d)
     \<and> is_ok (required ''sequence_number'' (\<lambda>x. as_int (V Counter x)) d)
     \<and> is_ok (required ''measured_at'' (check_nullable_timestamp V) d)
     \<and> is_ok (required ''device_uptime_ms'' (\<lambda>x. as_int (V Counter x)) d)
     \<and> is_ok (required ''gateway_received_at'' (check_timestamp V) d)
     \<and> is_ok (required ''value'' (check_temperature V) d)
     \<and> is_ok (required ''quality'' (validate_quality V) d)
     \<and> fst ` set d \<subseteq> set event_fields"

text \<open>The error list of a field whose check is a string literal.\<close>

lemma literal_codes:
  assumes "\<And>v es. c v = Inl es \<Longrightarrow> es = verr ''literal_error''"
  shows "list_all (\<lambda>i. ve_code i = ''literal_error'') (errs_of (required f c d)) \<longleftrightarrow>
    map_of d f \<noteq> None"
proof (cases "map_of d f")
  case None
  then show ?thesis by (simp add: required_def under_def verr_def)
next
  case (Some v)
  show ?thesis
  proof (cases "c v")
    case (Inl es)
    with assms have "es = verr ''literal_error''" by blast
    with Some Inl show ?thesis by (simp add: required_def under_def verr_def)
  qed (simp add: Some required_def)
qed

lemma validate_event_not_dict:
  "\<forall>d. payload \<noteq> PDict d \<Longrightarrow> validate_event V payload = Inl (verr ''model_type'')"
  unfolding validate_event_def by (cases payload) (simp_all del: Let_def)

lemma rejection_reason_verr: "rejection_reason (verr c) = Malformed_value"
  by (simp add: verr_def rejection_reason_def error_field_def Let_def)

context pydantic_core
begin

lemma rest_valid_iff_fields:
  assumes "validate_event check (PDict d) = Inl es"
  shows "set (map error_field es) \<subseteq> {Some (LField ''metric''), Some (LField ''unit'')}
    \<longleftrightarrow> rest_valid check d"
proof -
  have es: "es = errs_of (required ''device_id'' (\<lambda>x. as_str (check Identifier x)) d)
      @ errs_of (required ''boot_id'' (\<lambda>x. as_str (check Identifier x)) d)
      @ errs_of (required ''sequence_number'' (\<lambda>x. as_int (check Counter x)) d)
      @ errs_of (required ''measured_at'' (check_nullable_timestamp check) d)
      @ errs_of (required ''device_uptime_ms'' (\<lambda>x. as_int (check Counter x)) d)
      @ errs_of (required ''gateway_received_at'' (check_timestamp check) d)
      @ errs_of (required ''metric'' (\<lambda>x. as_str (check (Lit_str [''temperature'']) x)) d)
      @ errs_of (required ''value'' (check_temperature check) d)
      @ errs_of (required ''unit'' (\<lambda>x. as_str (check (Lit_str [''celsius'']) x)) d)
      @ errs_of (required ''quality'' (validate_quality check) d)
      @ extra_errors event_fields d"
    using assms by (simp only: validate_event_def Let_def pyval.case split: if_splits) simp_all
  have "fst ` set d - set event_fields = {} \<longleftrightarrow> fst ` set d \<subseteq> set event_fields" by blast
  moreover have "(\<lambda>k. Some (LField k)) ` (fst ` set d - set event_fields)
      \<subseteq> {Some (LField ''metric''), Some (LField ''unit'')} \<longleftrightarrow>
      fst ` set d - set event_fields = {}"
    by (auto simp: event_fields_def)
  ultimately show ?thesis
    unfolding es set_map set_append image_Un Un_subset_iff
    by (simp add: error_fields_required proper error_fields_extra rest_valid_def is_ok_iff)
qed

lemma rest_valid_errors:
  assumes "validate_event check (PDict d) = Inl es" and "rest_valid check d"
  shows "es = errs_of (required ''metric'' (\<lambda>x. as_str (check (Lit_str [''temperature'']) x)) d)
     @ errs_of (required ''unit'' (\<lambda>x. as_str (check (Lit_str [''celsius'']) x)) d)"
proof -
  have "extra_errors event_fields d = []"
    using assms(2) by (simp add: rest_valid_def extra_errors_Nil_iff)
  then show ?thesis
    using assms unfolding rest_valid_def
    by (auto simp: validate_event_def Let_def errs_of_is_ok split: if_splits)
qed

lemma rejection_reason_eq:
  assumes err: "validate_event check (PDict d) = Inl es"
  shows "rejection_reason es =
    (if rest_valid check d \<and> map_of d ''metric'' \<noteq> None \<and> map_of d ''unit'' \<noteq> None
     then (if map_of d ''metric'' = Some (PStr ''temperature'') then Invalid_unit
           else Invalid_metric)
     else Malformed_value)"
proof (cases "rest_valid check d")
  case False
  then show ?thesis
    using rest_valid_iff_fields [OF err] by (simp add: rejection_reason_def Let_def)
next
  case True
  let ?m = "required ''metric'' (\<lambda>x. as_str (check (Lit_str [''temperature'']) x)) d"
  let ?u = "required ''unit'' (\<lambda>x. as_str (check (Lit_str [''celsius'']) x)) d"
  have es: "es = errs_of ?m @ errs_of ?u"
    by (rule rest_valid_errors [OF err True])
  have codes: "list_all (\<lambda>i. ve_code i = ''literal_error'') es \<longleftrightarrow>
      map_of d ''metric'' \<noteq> None \<and> map_of d ''unit'' \<noteq> None"
    unfolding es list_all_append
    by (simp add: literal_codes literal_error)
  have "Some (LField ''metric'') \<in> set (map error_field es) \<longleftrightarrow> \<not> (\<exists>a. ?m = Inr a)"
    unfolding es set_map set_append image_Un
    by (simp add: error_fields_required proper)
  moreover have "(\<exists>a. ?m = Inr a) \<longleftrightarrow> map_of d ''metric'' = Some (PStr ''temperature'')"
    by (auto simp: required_Inr_iff typed_field)
  ultimately show ?thesis
    using True rest_valid_iff_fields [OF err] codes
    by (simp add: rejection_reason_def Let_def)
qed

lemma identity_identifier_ok: "opt_all identifier_ok (identity_identifier check v)"
  by (auto simp: identity_identifier_def adapter_value_def typed_field split: sum.splits)

lemma identity_counter_ok: "opt_all counter_ok (identity_counter check v)"
  by (auto simp: identity_counter_def adapter_value_def typed_field split: sum.splits)

lemma identity_of_required:
  "is_ok (required f (\<lambda>x. as_str (check Identifier x)) d) \<Longrightarrow>
   identity_identifier check (dict_get d f) \<noteq> None"
  by (auto simp: is_ok_iff required_Inr_iff identity_identifier_def adapter_value_def dict_get_def
           split: sum.splits)

lemma identity_of_required_counter:
  "is_ok (required f (\<lambda>x. as_int (check Counter x)) d) \<Longrightarrow>
   identity_counter check (dict_get d f) \<noteq> None"
  by (auto simp: is_ok_iff required_Inr_iff identity_counter_def adapter_value_def dict_get_def
           split: sum.splits)

text \<open>The response item of a rejected payload: its reason, and the identity that could be read.\<close>

lemma validate_item_rejected:
  assumes err: "validate_event check payload = Inl es"
  defines "raw \<equiv> dict_or_empty payload"
  defines "r \<equiv> \<lparr>ri_device_id = identity_identifier check (dict_get raw ''device_id''),
                 ri_boot_id = identity_identifier check (dict_get raw ''boot_id''),
                 ri_sequence_number = identity_counter check (dict_get raw ''sequence_number''),
                 ri_outcome = Rejected, ri_reason = Some (rejection_reason es)\<rparr>"
  shows "validate_telemetry_item check payload = Inr (Rejected_item r)" and "response_item_ok r"
proof -
  have "complete_identity r" if reason: "rejection_reason es \<noteq> Malformed_value"
  proof -
    obtain d where d: "payload = PDict d"
      using err reason validate_event_not_dict [of payload check] rejection_reason_verr by fastforce
    have "rest_valid check d"
      using rejection_reason_eq [OF err [unfolded d]] reason by presburger
    then have "is_ok (required ''device_id'' (\<lambda>x. as_str (check Identifier x)) d)"
      "is_ok (required ''boot_id'' (\<lambda>x. as_str (check Identifier x)) d)"
      "is_ok (required ''sequence_number'' (\<lambda>x. as_int (check Counter x)) d)"
      unfolding rest_valid_def by blast+
    then show ?thesis
      unfolding complete_identity_def r_def raw_def d
      by (simp add: identity_of_required identity_of_required_counter del: not_None_eq)
  qed
  then show ok: "response_item_ok r"
    unfolding response_item_ok_iff by (auto simp: r_def)
  then have "validate_outcome r = Inr r"
    by (simp only: response_item_ok_def)
  then show "validate_telemetry_item check payload = Inr (Rejected_item r)"
    unfolding validate_telemetry_item_def err TelemetryResponseItem_def Let_def r_def raw_def
    by (simp add: identity_identifier_ok identity_counter_ok)
qed

lemma validate_item_cases:
  obtains (valid) e where "validate_telemetry_item check payload = Inr (Valid_item e)" "event_wf e"
  | (rejected) r where "validate_telemetry_item check payload = Inr (Rejected_item r)"
      "response_item_ok r" "ri_outcome r = Rejected"
proof (cases "validate_event check payload")
  case (Inr e)
  then show ?thesis
    by (intro valid [of e]) (auto simp: validate_telemetry_item_def dest: validate_event_wf)
next
  case (Inl es)
  then show ?thesis
    using validate_item_rejected [OF Inl] by (intro rejected) auto
qed

lemma validate_item_total: "\<exists>item. validate_telemetry_item check payload = Inr item"
  by (rule validate_item_cases) auto

text \<open>The envelope, by the shape of the decoded object.\<close>

lemma version_field:
  "require_integer_version check v = Inr n \<longleftrightarrow> v = PInt 1 \<and> n = 1"
  by (cases v) (auto simp: require_integer_version_def lit_int)

lemma version_error:
  "require_integer_version check v = Inl es \<longleftrightarrow>
     (if \<exists>n. v = PInt n then v \<noteq> PInt 1 \<and> es = verr ''literal_error''
      else es = verr ''value_error'')"
  by (cases v) (auto simp: require_integer_version_def lit_int)

lemma events_field:
  "check_events check v = Inr xs \<longleftrightarrow> v = PList xs \<and> 1 \<le> length xs \<and> length xs \<le> MAX_BATCH_SIZE"
proof -
  have "as_list r = Inr xs \<longleftrightarrow> r = Inr (PList xs)" for r
    by (cases r rule: as_list.cases) auto
  then show ?thesis by (auto simp: check_events_def list_leaf)
qed

lemma events_error:
  assumes "check_events check v = Inl es"
  shows "es \<noteq> []" and "\<forall>e \<in> set es. ve_loc e = []"
    and "(\<forall>e \<in> set es. ve_code e = ''too_long'') \<longleftrightarrow>
      (\<exists>xs. v = PList xs \<and> MAX_BATCH_SIZE < length xs)"
proof -
  let ?l = "List_leaf 1 MAX_BATCH_SIZE"
  have inl: "check ?l v = Inl es"
  proof (cases "check ?l v")
    case (Inr w)
    then have "\<exists>xs. w = PList xs" by (auto simp: list_leaf)
    with Inr assms show ?thesis by (auto simp: check_events_def)
  qed (use assms in \<open>simp add: check_events_def\<close>)
  then show ne: "es \<noteq> []" and "\<forall>e \<in> set es. ve_loc e = []"
    using errors_at_root by blast+
  show "(\<forall>e \<in> set es. ve_code e = ''too_long'') \<longleftrightarrow>
      (\<exists>xs. v = PList xs \<and> MAX_BATCH_SIZE < length xs)"
  proof
    assume "\<forall>e \<in> set es. ve_code e = ''too_long''"
    then show "\<exists>xs. v = PList xs \<and> MAX_BATCH_SIZE < length xs"
      using list_code [OF inl] ne by (metis list.set_intros(1) neq_Nil_conv)
  next
    assume "\<exists>xs. v = PList xs \<and> MAX_BATCH_SIZE < length xs"
    then have "es = verr ''too_long''"
      using inl list_too_long [of 1 MAX_BATCH_SIZE] by (auto simp: MAX_BATCH_SIZE_def)
    then show "\<forall>e \<in> set es. ve_code e = ''too_long''" by (simp add: verr_def)
  qed
qed

lemma version_proper [proper]: "require_integer_version check v \<noteq> Inl []"
  by (auto simp: version_error verr_def)

lemma events_proper [proper]: "check_events check v \<noteq> Inl []"
  using events_error(1) by blast

lemma validate_envelope_Inr_iff:
  "validate_envelope check (PDict d) = Inr (n, xs) \<longleftrightarrow>
     n = 1 \<and> map_of d ''schema_version'' = Some (PInt 1) \<and> map_of d ''events'' = Some (PList xs)
     \<and> 1 \<le> length xs \<and> length xs \<le> MAX_BATCH_SIZE
     \<and> fst ` set d \<subseteq> {''schema_version'', ''events''}"
proof -
  have "validate_envelope check (PDict d) = Inr (n, xs) \<longleftrightarrow>
      required ''schema_version'' (require_integer_version check) d = Inr n
      \<and> required ''events'' (check_events check) d = Inr xs
      \<and> fst ` set d \<subseteq> {''schema_version'', ''events''}"
    unfolding validate_envelope_def Let_def
    by (auto simp: errs_of_Nil_projr required_not_Inl_Nil proper extra_errors_Nil_iff
             split: if_splits)
  then show ?thesis by (auto simp: required_Inr_iff version_field events_field)
qed

end

text \<open>An envelope with exactly the two members, an integer version and a nonempty array.\<close>

definition well_shaped :: "(string \<times> pyval) list \<Rightarrow> bool" where
  "well_shaped d \<longleftrightarrow>
     fst ` set d \<subseteq> {''schema_version'', ''events''}
     \<and> (\<exists>n. map_of d ''schema_version'' = Some (PInt n))
     \<and> (\<exists>x xs. map_of d ''events'' = Some (PList (x # xs)))"

context pydantic_core
begin

lemma benign_extra:
  "(\<forall>e \<in> set (extra_errors [''schema_version'', ''events''] d). benign_error e) \<longleftrightarrow>
   fst ` set d \<subseteq> {''schema_version'', ''events''}"
proof -
  have "set (extra_errors [''schema_version'', ''events''] d) =
      (\<lambda>k. \<lparr>ve_loc = [LField k], ve_code = ''extra_forbidden''\<rparr>)
        ` (fst ` set d - {''schema_version'', ''events''})"
    by (force simp: extra_errors_def under_def verr_def)
  then show ?thesis by (auto simp: benign_error_def)
qed

lemma benign_version:
  "(\<forall>e \<in> set (errs_of (required ''schema_version'' (require_integer_version check) d)).
      benign_error e) \<longleftrightarrow> (\<exists>n. map_of d ''schema_version'' = Some (PInt n))"
proof (cases "map_of d ''schema_version''")
  case None
  then show ?thesis by (simp add: required_def under_def verr_def benign_error_def)
next
  case (Some v)
  show ?thesis
  proof (cases "require_integer_version check v")
    case (Inl es)
    then have "if \<exists>n. v = PInt n then es = verr ''literal_error'' else es = verr ''value_error''"
      by (auto simp: version_error split: if_splits)
    with Some Inl show ?thesis
      by (cases "\<exists>n. v = PInt n") (auto simp: required_def under_def verr_def benign_error_def)
  next
    case (Inr n)
    then have "v = PInt 1" by (simp add: version_field)
    with Some Inr show ?thesis by (auto simp: required_def simp del: version_field)
  qed
qed

lemma benign_events:
  "(\<forall>e \<in> set (errs_of (required ''events'' (check_events check) d)). benign_error e) \<longleftrightarrow>
   (\<exists>x xs. map_of d ''events'' = Some (PList (x # xs)))"
proof (cases "map_of d ''events''")
  case None
  then show ?thesis by (simp add: required_def under_def verr_def benign_error_def)
next
  case (Some v)
  show ?thesis
  proof (cases "check_events check v")
    case (Inl es)
    have "(\<forall>e \<in> set (under ''events'' es). benign_error e) \<longleftrightarrow>
        (\<forall>e \<in> set es. ve_code e = ''too_long'')"
      using events_error(2) [OF Inl] by (auto simp: under_def benign_error_def)
    also have "\<dots> \<longleftrightarrow> (\<exists>x xs. v = PList (x # xs))"
    proof
      assume "\<forall>e \<in> set es. ve_code e = ''too_long''"
      then obtain xs where "v = PList xs" "MAX_BATCH_SIZE < length xs"
        using events_error(3) [OF Inl] by blast
      then show "\<exists>x xs. v = PList (x # xs)" by (cases xs) auto
    next
      assume "\<exists>x xs. v = PList (x # xs)"
      then obtain x xs where v: "v = PList (x # xs)" by blast
      have "check_events check v \<noteq> Inr (x # xs)" using Inl by simp
      then have "MAX_BATCH_SIZE < length (x # xs)"
        unfolding events_field v by auto
      then show "\<forall>e \<in> set es. ve_code e = ''too_long''"
        using events_error(3) [OF Inl] v by blast
    qed
    finally show ?thesis using Some Inl by (simp add: required_def)
  next
    case (Inr xs)
    then have "v = PList xs" "xs \<noteq> []" by (auto simp: events_field)
    with Inr Some show ?thesis by (cases xs) (simp_all add: required_def)
  qed
qed

lemma envelope_errors:
  assumes "validate_envelope check (PDict d) = Inl es"
  shows "es = errs_of (required ''schema_version'' (require_integer_version check) d)
     @ errs_of (required ''events'' (check_events check) d)
     @ extra_errors [''schema_version'', ''events''] d"
  using assms by (simp only: validate_envelope_def Let_def pyval.case split: if_splits) simp_all

lemma all_benign_iff:
  assumes "validate_envelope check (PDict d) = Inl es"
  shows "(\<forall>e \<in> set es. benign_error e) \<longleftrightarrow> well_shaped d"
  unfolding envelope_errors [OF assms] set_append ball_Un
  by (auto simp: benign_extra benign_version benign_events well_shaped_def)

lemma version_error_located:
  assumes "validate_envelope check (PDict d) = Inl es" and "well_shaped d"
  shows "(\<exists>e \<in> set es. ve_loc e = [LField ''schema_version'']) \<longleftrightarrow>
    map_of d ''schema_version'' \<noteq> Some (PInt 1)"
proof -
  obtain n where n: "map_of d ''schema_version'' = Some (PInt n)"
    and keys: "fst ` set d \<subseteq> {''schema_version'', ''events''}"
    using assms(2) by (auto simp: well_shaped_def)
  have "error_field ` set (errs_of (required ''events'' (check_events check) d))
      \<subseteq> {Some (LField ''events'')}"
    by (simp add: error_fields_required proper)
  then have "\<forall>e \<in> set (errs_of (required ''events'' (check_events check) d)).
      ve_loc e \<noteq> [LField ''schema_version'']"
    by (force simp: error_field_def)
  moreover have "extra_errors [''schema_version'', ''events''] d = []"
    using keys by (simp add: extra_errors_Nil_iff)
  moreover have "(\<exists>e \<in> set (errs_of (required ''schema_version'' (require_integer_version check) d)).
      ve_loc e = [LField ''schema_version'']) \<longleftrightarrow> n \<noteq> 1"
    by (cases "n = 1")
       (auto simp: required_def n require_integer_version_def lit_int under_def verr_def)
  ultimately show ?thesis
    unfolding envelope_errors [OF assms(1)] by (auto simp: n)
qed

lemma envelope_reason:
  assumes "validate_envelope check (PDict d) = Inl es"
  shows "be_reason (envelope_error es) =
    (if \<not> well_shaped d then Malformed_batch
     else if map_of d ''schema_version'' \<noteq> Some (PInt 1) then Unsupported_schema_version
     else Batch_too_large)"
proof -
  have "filter (\<lambda>i. \<not> benign_error i) es = [] \<longleftrightarrow> well_shaped d"
    using all_benign_iff [OF assms] by (simp add: filter_empty_conv)
  then show ?thesis
    using version_error_located [OF assms] by (simp add: envelope_error_def Let_def)
qed

lemma parsed_items:
  assumes "parse_telemetry_batch scan check body = Inr b"
  obtains tree d events where "scan body = Some tree" "load_value tree = Some (PDict d)"
    "validate_envelope check (PDict d) = Inr (vb_schema_version b, events)"
    "list_all2 (\<lambda>p i. validate_telemetry_item check p = Inr i) events (vb_items b)"
proof -
  obtain tree payload where t: "scan body = Some tree" "load_value tree = Some payload"
    using assms by (auto simp: parse_telemetry_batch_def split: option.splits)
  with assms obtain events where e: "validate_envelope check payload = Inr (vb_schema_version b, events)"
    "res_map (validate_telemetry_item check) events = Inr (vb_items b)"
    by (auto simp: parse_telemetry_batch_def split: sum.splits)
  then obtain d where "payload = PDict d"
    by (cases payload) (auto simp: validate_envelope_def)
  with t e that show ?thesis by (simp add: res_map_Inr_iff)
qed

end

fun item_ok :: "batch_item \<Rightarrow> bool" where
  "item_ok (Valid_item e) \<longleftrightarrow> event_wf e"
| "item_ok (Rejected_item r) \<longleftrightarrow> response_item_ok r \<and> ri_outcome r = Rejected"

context pydantic_core
begin

lemma validated_item_ok: "validate_telemetry_item check p = Inr item \<Longrightarrow> item_ok item"
  by (rule validate_item_cases [of p]) auto

lemma validated_items_ok:
  assumes "list_all2 (\<lambda>p i. validate_telemetry_item check p = Inr i) events items"
  shows "list_all item_ok items"
  using assms by (induction rule: list_all2_induct) (auto dest: validated_item_ok)

lemma parsed_batch_ok:
  assumes "parse_telemetry_batch scan check body = Inr b"
  shows "vb_schema_version b = 1" and "vb_items b \<noteq> []"
    and "length (vb_items b) \<le> MAX_BATCH_SIZE" and "list_all item_ok (vb_items b)"
proof -
  obtain tree d events where
    env: "validate_envelope check (PDict d) = Inr (vb_schema_version b, events)"
    and items: "list_all2 (\<lambda>p i. validate_telemetry_item check p = Inr i) events (vb_items b)"
    by (rule parsed_items [OF assms])
  from env show "vb_schema_version b = 1" by (simp add: validate_envelope_Inr_iff)
  from env list_all2_lengthD [OF items] show "vb_items b \<noteq> []"
    and "length (vb_items b) \<le> MAX_BATCH_SIZE"
    by (auto simp: validate_envelope_Inr_iff)
  show "list_all item_ok (vb_items b)" by (rule validated_items_ok [OF items])
qed

lemma parse_of_object:
  assumes "scan body = Some tree" and "load_value tree = Some (PDict d)"
  shows "(case validate_envelope check (PDict d) of
      Inl es \<Rightarrow> parse_telemetry_batch scan check body = Inl (Batch_error (envelope_error es))
    | Inr (version, events) \<Rightarrow>
        \<exists>items. parse_telemetry_batch scan check body =
            Inr \<lparr>vb_schema_version = version, vb_items = items\<rparr>
          \<and> list_all2 (\<lambda>p i. validate_telemetry_item check p = Inr i) events items)"
proof (cases "validate_envelope check (PDict d)")
  case (Inl es)
  then show ?thesis using assms by (simp add: parse_telemetry_batch_def)
next
  case (Inr ve)
  obtain version events where ve: "ve = (version, events)" by (cases ve)
  obtain items where "res_map (validate_telemetry_item check) events = Inr items"
    using res_map_total validate_item_total by metis
  with Inr ve assms show ?thesis
    by (simp add: parse_telemetry_batch_def res_map_Inr_iff [symmetric])
qed

lemma parse_not_uncaught: "parse_telemetry_batch scan check body \<noteq> Inl (Uncaught m)"
proof -
  have "res_map (validate_telemetry_item check) events \<noteq> Inl m'" for events m'
    using res_map_total [of events "validate_telemetry_item check"] validate_item_total by force
  then show ?thesis
    by (auto simp: parse_telemetry_batch_def split: option.splits sum.splits)
qed

lemma parse_by_shape:
  assumes "scan body = Some tree" and "load_value tree = Some (PDict d)"
  shows "parse_telemetry_batch scan check body = Inl (Batch_error e) \<Longrightarrow> be_reason e =
      (if \<not> well_shaped d then Malformed_batch
       else if map_of d ''schema_version'' \<noteq> Some (PInt 1) then Unsupported_schema_version
       else Batch_too_large)"
    and "is_ok (parse_telemetry_batch scan check body) \<longleftrightarrow>
      well_shaped d \<and> map_of d ''schema_version'' = Some (PInt 1)
      \<and> (\<exists>xs. map_of d ''events'' = Some (PList xs) \<and> length xs \<le> MAX_BATCH_SIZE)"
proof -
  note p = parse_of_object [where scan = scan and body = body, OF assms]
  show "be_reason e = (if \<not> well_shaped d then Malformed_batch
       else if map_of d ''schema_version'' \<noteq> Some (PInt 1) then Unsupported_schema_version
       else Batch_too_large)"
    if "parse_telemetry_batch scan check body = Inl (Batch_error e)"
    using p that envelope_reason by (auto split: sum.splits)
  have "is_ok (parse_telemetry_batch scan check body) \<longleftrightarrow> is_ok (validate_envelope check (PDict d))"
    using p by (auto split: sum.splits)
  also have "\<dots> \<longleftrightarrow> well_shaped d \<and> map_of d ''schema_version'' = Some (PInt 1)
      \<and> (\<exists>xs. map_of d ''events'' = Some (PList xs) \<and> length xs \<le> MAX_BATCH_SIZE)"
    by (auto simp: is_ok_iff validate_envelope_Inr_iff well_shaped_def Suc_le_length_iff)
  finally show "is_ok (parse_telemetry_batch scan check body) \<longleftrightarrow>
      well_shaped d \<and> map_of d ''schema_version'' = Some (PInt 1)
      \<and> (\<exists>xs. map_of d ''events'' = Some (PList xs) \<and> length xs \<le> MAX_BATCH_SIZE)" .
qed

lemma rejected_by_shape:
  assumes "validate_telemetry_item check (PDict d) = Inr (Rejected_item r)"
  shows "response_item_ok r" and "ri_reason r = Some
    (if rest_valid check d \<and> map_of d ''metric'' \<noteq> None \<and> map_of d ''unit'' \<noteq> None
     then (if map_of d ''metric'' = Some (PStr ''temperature'') then Invalid_unit
           else Invalid_metric)
     else Malformed_value)"
proof -
  obtain es where es: "validate_event check (PDict d) = Inl es"
    using assms by (cases "validate_event check (PDict d)") (auto simp: validate_telemetry_item_def)
  note r = validate_item_rejected [OF es]
  from r(1) assms have req: "r = \<lparr>ri_device_id = identity_identifier check (dict_get d ''device_id''),
      ri_boot_id = identity_identifier check (dict_get d ''boot_id''),
      ri_sequence_number = identity_counter check (dict_get d ''sequence_number''),
      ri_outcome = Rejected, ri_reason = Some (rejection_reason es)\<rparr>" by simp
  show "response_item_ok r" unfolding req using r(2) by simp
  show "ri_reason r = Some
    (if rest_valid check d \<and> map_of d ''metric'' \<noteq> None \<and> map_of d ''unit'' \<noteq> None
     then (if map_of d ''metric'' = Some (PStr ''temperature'') then Invalid_unit
           else Invalid_metric)
     else Malformed_value)"
    unfolding req response_item.select_convs rejection_reason_eq [OF es] by (rule refl)
qed

end

section \<open>The examples of the published contract\<close>

text \<open>\<open>backend/app/telemetry/openapi.py\<close>: the documented requests, as decoded syntax trees.\<close>

definition VALID_EVENT :: "(string \<times> raw_json) list" where
  "VALID_EVENT = [
     (''device_id'', RStr ''motor-001''),
     (''boot_id'', RStr ''boot-a''),
     (''sequence_number'', RInt 100),
     (''measured_at'', RStr ''2026-09-19T00:30:00Z''),
     (''device_uptime_ms'', RInt 534000),
     (''gateway_received_at'', RStr ''2026-09-19T00:30:01Z''),
     (''metric'', RStr ''temperature''),
     (''value'', RFloat (Some (314 / 10))),
     (''unit'', RStr ''celsius''),
     (''quality'', RObj [(''reading'', RStr ''valid''), (''clock'', RStr ''synchronised'')])]"

text \<open>\<open>{**d, key: v}\<close> for a member that is already there.\<close>

definition with_member :: "string \<Rightarrow> raw_json \<Rightarrow> (string \<times> raw_json) list \<Rightarrow> (string \<times> raw_json) list"
  where "with_member k v d = map (\<lambda>(j, w). if j = k then (j, v) else (j, w)) d"

definition request_of :: "(string \<times> raw_json) list list \<Rightarrow> raw_json" where
  "request_of events = RObj [(''schema_version'', RInt 1), (''events'', RArr (map RObj events))]"

definition example_valid :: raw_json where
  "example_valid = request_of [VALID_EVENT]"

definition example_unknown_clock :: raw_json where
  "example_unknown_clock = request_of
     [with_member ''measured_at'' RNull
       (with_member ''quality''
          (RObj [(''reading'', RStr ''valid''), (''clock'', RStr ''unknown'')]) VALID_EVENT)]"

definition example_mixed :: raw_json where
  "example_mixed = request_of
     [with_member ''sequence_number'' (RInt 101) VALID_EVENT,
      VALID_EVENT,
      with_member ''sequence_number'' (RInt 102)
        (with_member ''unit'' (RStr ''fahrenheit'') VALID_EVENT),
      with_member ''sequence_number'' (RInt 103) VALID_EVENT]"

lemmas example_defs = example_valid_def example_unknown_clock_def example_mixed_def
  request_of_def with_member_def VALID_EVENT_def

text \<open>The event the documented request denotes.\<close>

definition documented_event :: telemetry_event where
  "documented_event = \<lparr>ev_device_id = ''motor-001'', ev_boot_id = ''boot-a'',
     ev_sequence_number = 100, ev_measured_at = Some 63925374600000000,
     ev_device_uptime_ms = 534000, ev_gateway_received_at = 63925374601000000,
     ev_metric = ''temperature'', ev_value = 314 / 10, ev_unit = ''celsius'',
     ev_quality = \<lparr>q_reading = ''valid'', q_clock = ''synchronised''\<rparr>\<rparr>"

section \<open>Properties\<close>

text \<open>C18. A batch that parses has schema version 1 and between 1 and 500 items; each item is a
  well-formed event or a rejection that the response model accepts.\<close>

theorem parse_batch_sound:
  assumes "pydantic_core V" and "parse_telemetry_batch scan V body = Inr b"
  shows "vb_schema_version b = 1 \<and> vb_items b \<noteq> [] \<and> length (vb_items b) \<le> 500
    \<and> list_all item_ok (vb_items b)"
  using pydantic_core.parsed_batch_ok [OF assms] by (simp add: MAX_BATCH_SIZE_def)

lemma documented_request_parses:
  "parse_telemetry_batch Some core_check example_valid =
     Inr \<lparr>vb_schema_version = 1, vb_items = [Valid_item documented_event]\<rparr>"
  by code_simp

theorem parse_batch_sound_witness:
  "let b = \<lparr>vb_schema_version = 1, vb_items = [Valid_item documented_event]\<rparr>
   in parse_telemetry_batch Some core_check example_valid = Inr b
      \<and> vb_items b \<noteq> [] \<and> list_all item_ok (vb_items b)"
  using parse_batch_sound [OF core.pydantic_core_axioms documented_request_parses]
    documented_request_parses
  unfolding Let_def by blast


text \<open>A version 2 request of 501 items: the version is reported, not the size.\<close>

definition oversized_v2 :: raw_json where
  "oversized_v2 = RObj [(''schema_version'', RInt 2), (''events'', RArr (replicate 501 RNull))]"

lemma oversized_v2_loads:
  "load_value oversized_v2 =
     Some (PDict [(''schema_version'', PInt 2), (''events'', PList (replicate 501 PNone))])"
proof -
  have "load_values (replicate n RNull) = Some (replicate n PNone)" for n
    by (induction n) simp_all
  then show ?thesis
    by (simp add: oversized_v2_def unique_object_eq)
qed


text \<open>A rejected item is \<open>invalid_metric\<close> or \<open>invalid_unit\<close> exactly when all the rest of it
  is valid and both members are there, the metric being judged first; every other rejection is
  \<open>malformed_value\<close>. The response item always satisfies its model, so only a malformed one has
  null identity fields.\<close>

theorem item_rejection_reason:
  assumes "pydantic_core V" and "validate_telemetry_item V (PDict d) = Inr (Rejected_item r)"
  shows "response_item_ok r \<and> ri_reason r = Some
    (if rest_valid V d \<and> map_of d ''metric'' \<noteq> None \<and> map_of d ''unit'' \<noteq> None
     then (if map_of d ''metric'' = Some (PStr ''temperature'') then Invalid_unit
           else Invalid_metric)
     else Malformed_value)"
  using pydantic_core.rejected_by_shape [OF assms] by blast

text \<open>An event with a wrong metric and a wrong unit: the metric decides.\<close>

definition wrong_metric_and_unit :: "(string \<times> pyval) list" where
  "wrong_metric_and_unit = [
     (''device_id'', PStr ''motor-001''), (''boot_id'', PStr ''boot-a''),
     (''sequence_number'', PInt 102), (''measured_at'', PNone), (''device_uptime_ms'', PInt 5),
     (''gateway_received_at'', PStr ''2026-09-19T00:30:01.250+02:00''),
     (''metric'', PStr ''pressure''), (''value'', PNum (Finite (31 / 10))), (''unit'', PStr ''bar''),
     (''quality'', PDict [(''reading'', PStr ''valid''), (''clock'', PStr ''unknown'')])]"

theorem item_rejection_reason_witness:
  "\<exists>r. validate_telemetry_item core_check (PDict wrong_metric_and_unit) = Inr (Rejected_item r)
     \<and> response_item_ok r \<and> ri_reason r = Some Invalid_metric"
proof -
  let ?r = "\<lparr>ri_device_id = Some ''motor-001'', ri_boot_id = Some ''boot-a'',
    ri_sequence_number = Some 102, ri_outcome = Rejected, ri_reason = Some Invalid_metric\<rparr>"
  have item: "validate_telemetry_item core_check (PDict wrong_metric_and_unit) = Inr (Rejected_item ?r)"
    by code_simp
  have "response_item_ok ?r"
    by (rule item_rejection_reason [OF core.pydantic_core_axioms item, THEN conjunct1])
  with item show ?thesis by (intro exI [of _ ?r] conjI) (assumption, assumption, simp only: response_item.select_convs)
qed

text \<open>Decoding accepts exactly the trees with distinct members in every object, no
  non-standard constant and no literal beyond \<open>Decimal\<close>.\<close>

theorem json_decoding_strict: "load_value tree \<noteq> None \<longleftrightarrow> strict_tree tree"
  by (rule load_value_defined(1))

text \<open>The examples of the published contract are classified as its documentation says: the
  single request and the one with an unknown clock are valid, and of the mixed request only the
  third event is rejected, with \<open>invalid_unit\<close> and its identity.\<close>

theorem documented_examples:
  "parse_telemetry_batch Some core_check example_valid =
     Inr \<lparr>vb_schema_version = 1, vb_items = [Valid_item documented_event]\<rparr>
   \<and> parse_telemetry_batch Some core_check example_unknown_clock =
     Inr \<lparr>vb_schema_version = 1, vb_items = [Valid_item (documented_event\<lparr>ev_measured_at := None,
        ev_quality := \<lparr>q_reading = ''valid'', q_clock = ''unknown''\<rparr>\<rparr>)]\<rparr>
   \<and> parse_telemetry_batch Some core_check example_mixed =
     Inr \<lparr>vb_schema_version = 1, vb_items = [
        Valid_item (documented_event\<lparr>ev_sequence_number := 101\<rparr>),
        Valid_item documented_event,
        Rejected_item \<lparr>ri_device_id = Some ''motor-001'', ri_boot_id = Some ''boot-a'',
          ri_sequence_number = Some 102, ri_outcome = Rejected, ri_reason = Some Invalid_unit\<rparr>,
        Valid_item (documented_event\<lparr>ev_sequence_number := 103\<rparr>)]\<rparr>"
  by (intro conjI) code_simp+

end
