(* ===== verification/Db_Models.thy ===== *)
theory Db_Models
  imports Telemetry_Schemas
begin

text \<open>
  \<open>backend/app/db/models.py\<close>, \<open>db/types.py\<close> and \<open>telemetry/time.py\<close>: the persisted rows, the
  constraints PostgreSQL enforces on them, and the event time of a reading. A table is the list of
  its rows in insertion order. Stored timestamps are UTC instants.
\<close>

section \<open>Timestamps at the database boundary\<close>

text \<open>\<open>UTCDateTime.process_bind_param\<close>; an \<open>Inl\<close> is a ValueError or OverflowError.\<close>

definition process_bind_param :: "py_datetime option \<Rightarrow> (string, py_datetime option) result" where
  "process_bind_param value =
     (case value of
        None \<Rightarrow> Inr None
      | Some d \<Rightarrow>
          if utcoffset d = None then Inl ''Absolute timestamps must include a timezone''
          else (case astimezone_utc d of
                  None \<Rightarrow> Inl ''date value out of range''
                | Some u \<Rightarrow> Inr (Some u)))"

definition process_result_value :: "py_datetime option \<Rightarrow> (string, py_datetime option) result" where
  "process_result_value value =
     (case value of
        None \<Rightarrow> Inr None
      | Some d \<Rightarrow> (case astimezone_utc d of None \<Rightarrow> Inl ''date value out of range''
                   | Some u \<Rightarrow> Inr (Some u)))"

section \<open>Rows\<close>

record site_row =
  s_site_id :: string
  s_name :: string
  s_enabled :: bool

record gateway_row =
  g_gateway_id :: string
  g_site_id :: string
  g_name :: string
  g_enabled :: bool

record device_row =
  d_device_id :: string
  d_gateway_id :: string
  d_name :: string
  d_enabled :: bool
  d_password_hash :: "string option"
  d_mqtt_managed :: bool
  d_last_seen_at :: "usec option"

record telemetry_row =
  t_id :: int
  t_schema_version :: int
  t_device_id :: string
  t_boot_id :: string
  t_sequence_number :: int
  t_measured_at :: "usec option"
  t_device_uptime_ms :: int
  t_gateway_received_at :: usec
  t_backend_received_at :: usec
  t_metric :: string
  t_value :: rat
  t_unit :: string
  t_quality :: telemetry_quality

record alert_episode =
  ep_id :: int
  ep_device_id :: string
  ep_opened_at :: usec
  ep_resolved_at :: "usec option"
  ep_opening_telemetry_id :: int
  ep_resolving_telemetry_id :: "int option"

record alert_state =
  st_device_id :: string
  st_last_event_at :: usec
  st_high_streak :: int
  st_recovery_streak :: int
  st_active_episode_id :: "int option"

text \<open>The database: its tables, and the next values of the two identity columns.\<close>

record database =
  sites :: "site_row list"
  gateways :: "gateway_row list"
  devices :: "device_row list"
  telemetry :: "telemetry_row list"
  alert_episodes :: "alert_episode list"
  alert_states :: "alert_state list"
  next_telemetry_id :: int
  next_episode_id :: int

section \<open>Event time\<close>

text \<open>The SQL CASE of \<open>event_time\<close>: device time only when it is present and synchronised.\<close>

definition event_time :: "telemetry_row \<Rightarrow> usec" where
  "event_time r =
     (case t_measured_at r of
        Some m \<Rightarrow> if q_clock (t_quality r) = ''synchronised'' then m else t_gateway_received_at r
      | None \<Rightarrow> t_gateway_received_at r)"

section \<open>Constraints\<close>

type_synonym identity = "string \<times> string \<times> int"

definition t_identity :: "telemetry_row \<Rightarrow> identity" where
  "t_identity r = (t_device_id r, t_boot_id r, t_sequence_number r)"

definition telemetry_checks :: "telemetry_row \<Rightarrow> bool" where
  "telemetry_checks r \<longleftrightarrow>
     t_schema_version r = 1 \<and> length (t_boot_id r) > 0 \<and> t_sequence_number r \<ge> 0
     \<and> t_device_uptime_ms r \<ge> 0 \<and> t_metric r = ''temperature'' \<and> t_unit r = ''celsius''
     \<and> q_reading (t_quality r) = ''valid'' \<and> q_clock (t_quality r) \<in> set ClockQuality"

definition episode_checks :: "alert_episode \<Rightarrow> bool" where
  "episode_checks e \<longleftrightarrow> opt_all (\<lambda>t. ep_opened_at e \<le> t) (ep_resolved_at e)"

definition state_checks :: "alert_state \<Rightarrow> bool" where
  "state_checks s \<longleftrightarrow>
     0 \<le> st_high_streak s \<and> st_high_streak s \<le> 2 \<and> 0 \<le> st_recovery_streak s \<and> st_recovery_streak s \<le> 2"

text \<open>Primary keys and non-empty identifiers of the registry, and its parent links.\<close>

definition registry_ok :: "database \<Rightarrow> bool" where
  "registry_ok db \<longleftrightarrow>
     distinct (map s_site_id (sites db)) \<and> (\<forall>s \<in> set (sites db). length (s_site_id s) > 0)
     \<and> distinct (map g_gateway_id (gateways db)) \<and> (\<forall>g \<in> set (gateways db). length (g_gateway_id g) > 0)
     \<and> distinct (map d_device_id (devices db)) \<and> (\<forall>d \<in> set (devices db). length (d_device_id d) > 0)
     \<and> g_site_id ` set (gateways db) \<subseteq> s_site_id ` set (sites db)
     \<and> d_gateway_id ` set (devices db) \<subseteq> g_gateway_id ` set (gateways db)"

definition telemetry_ok :: "database \<Rightarrow> bool" where
  "telemetry_ok db \<longleftrightarrow>
     distinct (map t_id (telemetry db)) \<and> distinct (map t_identity (telemetry db))
     \<and> (\<forall>r \<in> set (telemetry db). telemetry_checks r)
     \<and> t_device_id ` set (telemetry db) \<subseteq> d_device_id ` set (devices db)
     \<and> (\<forall>r \<in> set (telemetry db). t_id r < next_telemetry_id db)"

definition is_open :: "alert_episode \<Rightarrow> bool" where
  "is_open e \<longleftrightarrow> ep_resolved_at e = None"

text \<open>The non-null values of a nullable column.\<close>

definition nonnull :: "('r \<Rightarrow> 'v option) \<Rightarrow> 'r list \<Rightarrow> 'v list" where
  "nonnull col rows = concat (map (\<lambda>r. case col r of None \<Rightarrow> [] | Some v \<Rightarrow> [v]) rows)"

text \<open>Keys, checks, foreign keys and the partial unique index of the alert tables.\<close>

definition alerts_ok :: "database \<Rightarrow> bool" where
  "alerts_ok db \<longleftrightarrow>
     distinct (map ep_id (alert_episodes db)) \<and> (\<forall>e \<in> set (alert_episodes db). episode_checks e)
     \<and> (\<forall>e \<in> set (alert_episodes db). ep_id e < next_episode_id db)
     \<and> distinct (map ep_device_id (filter is_open (alert_episodes db)))
     \<and> distinct (map st_device_id (alert_states db)) \<and> (\<forall>s \<in> set (alert_states db). state_checks s)
     \<and> ep_device_id ` set (alert_episodes db) \<subseteq> d_device_id ` set (devices db)
     \<and> st_device_id ` set (alert_states db) \<subseteq> d_device_id ` set (devices db)
     \<and> ep_opening_telemetry_id ` set (alert_episodes db) \<subseteq> t_id ` set (telemetry db)
     \<and> distinct (map ep_opening_telemetry_id (alert_episodes db))
     \<and> set (nonnull ep_resolving_telemetry_id (alert_episodes db)) \<subseteq> t_id ` set (telemetry db)
     \<and> distinct (nonnull ep_resolving_telemetry_id (alert_episodes db))
     \<and> set (nonnull st_active_episode_id (alert_states db)) \<subseteq> ep_id ` set (alert_episodes db)
     \<and> distinct (nonnull st_active_episode_id (alert_states db))"

definition empty_database :: database where
  "empty_database = \<lparr>sites = [], gateways = [], devices = [], telemetry = [], alert_episodes = [],
     alert_states = [], next_telemetry_id = 1, next_episode_id = 1\<rparr>"

lemma empty_database_ok:
  "registry_ok empty_database" "telemetry_ok empty_database" "alerts_ok empty_database"
  by (simp_all add: registry_ok_def telemetry_ok_def alerts_ok_def empty_database_def nonnull_def)

lemma nonnull_Nil [simp]: "nonnull col [] = []"
  by (simp add: nonnull_def)

lemma nonnull_Cons [simp]:
  "nonnull col (r # rows) = (case col r of None \<Rightarrow> [] | Some v \<Rightarrow> [v]) @ nonnull col rows"
  by (simp add: nonnull_def)

lemma nonnull_append [simp]: "nonnull col (xs @ ys) = nonnull col xs @ nonnull col ys"
  by (simp add: nonnull_def)

lemma set_nonnull: "set (nonnull col rows) = {v. \<exists>r \<in> set rows. col r = Some v}"
  by (induction rows) (auto split: option.splits)

lemma process_bind_param_instant:
  "process_bind_param (Some d) = Inr (Some u) \<Longrightarrow> is_aware d \<and> utcoffset u = Some 0 \<and> instant u = instant d"
  by (auto simp: process_bind_param_def is_aware_def astimezone_utc_Some split: if_splits option.splits)

end
