(* ===== verification/Devices_Repository.thy ===== *)
theory Devices_Repository
  imports Db_Models
begin

text \<open>
  \<open>backend/app/devices/repository.py\<close>: the device queries run in a transaction of their caller. The
  collation by which the database orders names is the parameter \<open>coll\<close>; row locks do not change
  what one transaction reads.
\<close>

section \<open>Reads\<close>

text \<open>Rows of enabled gateways in enabled sites, ORDER BY name, gateway_id.\<close>

definition list_enabled_gateways :: "(string \<Rightarrow> 'c::linorder) \<Rightarrow> database \<Rightarrow> (string \<times> string) list" where
  "list_enabled_gateways coll db =
     map (\<lambda>g. (g_gateway_id g, g_name g))
       (order_asc (\<lambda>g. (coll (g_name g), coll (g_gateway_id g)))
         (filter (\<lambda>g. g_enabled g
             \<and> (case lookup_by s_site_id (g_site_id g) (sites db) of None \<Rightarrow> False | Some s \<Rightarrow> s_enabled s))
           (gateways db)))"

definition lock_registration_gateway :: "database \<Rightarrow> string \<Rightarrow> gateway_row option" where
  "lock_registration_gateway db gid = lookup_by g_gateway_id gid (gateways db)"

definition lock_device :: "database \<Rightarrow> string \<Rightarrow> device_row option" where
  "lock_device db dev = lookup_by d_device_id dev (devices db)"

definition device_exists :: "database \<Rightarrow> string \<Rightarrow> bool" where
  "device_exists db dev \<longleftrightarrow> lookup_by d_device_id dev (devices db) \<noteq> None"

text \<open>The gateway and the enabled flag of each of the given devices that exists.\<close>

type_synonym assignments = "string \<rightharpoonup> string \<times> bool"

definition lock_assignments :: "database \<Rightarrow> string set \<Rightarrow> assignments" where
  "lock_assignments db device_ids = (\<lambda>dev.
     if dev \<in> device_ids
     then map_option (\<lambda>d. (d_gateway_id d, d_enabled d)) (lookup_by d_device_id dev (devices db))
     else None)"

text \<open>Gateway, device flag, gateway flag and site flag, through the two inner joins.\<close>

definition read_ownership :: "database \<Rightarrow> string \<Rightarrow> (string \<times> bool \<times> bool \<times> bool) option" where
  "read_ownership db dev =
     (case lookup_by d_device_id dev (devices db) of
        None \<Rightarrow> None
      | Some d \<Rightarrow>
          (case lookup_by g_gateway_id (d_gateway_id d) (gateways db) of
             None \<Rightarrow> None
           | Some g \<Rightarrow>
               (case lookup_by s_site_id (g_site_id g) (sites db) of
                  None \<Rightarrow> None
                | Some s \<Rightarrow> Some (d_gateway_id d, d_enabled d, g_enabled g, s_enabled s))))"

record latest_reading =
  lr_value :: rat
  lr_unit :: string
  lr_measured_at :: "usec option"
  lr_gateway_received_at :: usec
  lr_event_at :: usec
  lr_clock_quality :: string

record status_row =
  sr_device_id :: string
  sr_name :: string
  sr_gateway_id :: string
  sr_enabled :: bool
  sr_last_seen_at :: "usec option"
  sr_gateway_enabled :: bool
  sr_site_enabled :: bool
  sr_latest :: "latest_reading option"

text \<open>The lateral subquery: ORDER BY event_at DESC, id DESC LIMIT 1.\<close>

definition newest_reading :: "database \<Rightarrow> string \<Rightarrow> telemetry_row option" where
  "newest_reading db dev =
     (case order_desc (\<lambda>r. (event_time r, t_id r)) (filter (\<lambda>r. t_device_id r = dev) (telemetry db)) of
        [] \<Rightarrow> None | r # _ \<Rightarrow> Some r)"

definition latest_of :: "telemetry_row \<Rightarrow> latest_reading" where
  "latest_of r = \<lparr>lr_value = t_value r, lr_unit = t_unit r, lr_measured_at = t_measured_at r,
     lr_gateway_received_at = t_gateway_received_at r, lr_event_at = event_time r,
     lr_clock_quality = q_clock (t_quality r)\<rparr>"

definition list_status_rows :: "(string \<Rightarrow> 'c::linorder) \<Rightarrow> database \<Rightarrow> status_row list" where
  "list_status_rows coll db = concat (map (\<lambda>d.
     (case read_ownership db (d_device_id d) of
        None \<Rightarrow> []
      | Some (_, _, gateway_enabled, site_enabled) \<Rightarrow>
          [\<lparr>sr_device_id = d_device_id d, sr_name = d_name d, sr_gateway_id = d_gateway_id d,
            sr_enabled = d_enabled d, sr_last_seen_at = d_last_seen_at d,
            sr_gateway_enabled = gateway_enabled, sr_site_enabled = site_enabled,
            sr_latest = map_option latest_of (newest_reading db (d_device_id d))\<rparr>]))
     (order_asc (\<lambda>d. (coll (d_name d), coll (d_device_id d))) (devices db)))"

section \<open>Writes\<close>

text \<open>A text parameter with a NUL character is a DataError of the driver.\<close>

definition sql_text :: "string \<Rightarrow> bool" where
  "sql_text s \<longleftrightarrow> CHR 0x00 \<notin> set s"

text \<open>
  INSERT of a device. The primary key, the identifier check, the column widths and the foreign key of
  the gateway are the constraints of \<open>Device\<close>.
\<close>

datatype insert_failure = Integrity_violation | Data_violation

definition create_device :: "string \<Rightarrow> string \<Rightarrow> string \<Rightarrow> string \<Rightarrow> database \<Rightarrow> (insert_failure, database) result" where
  "create_device device_id gateway_id name password_hash db =
     (if \<not> list_all sql_text [device_id, gateway_id, name, password_hash] \<or> length device_id > 128 \<or> length name > 200 \<or> length password_hash > 200 then Inl Data_violation
      else if device_id = '''' \<or> lookup_by d_device_id device_id (devices db) \<noteq> None
              \<or> lookup_by g_gateway_id gateway_id (gateways db) = None
      then Inl Integrity_violation
      else Inr (db\<lparr>devices := devices db @ [\<lparr>d_device_id = device_id, d_gateway_id = gateway_id,
             d_name = name, d_enabled = True, d_password_hash = Some password_hash,
             d_mqtt_managed = False, d_last_seen_at = None\<rparr>]\<rparr>))"

text \<open>DELETE: the foreign keys of telemetry and alerts to the device restrict it.\<close>

definition delete_device :: "string \<Rightarrow> database \<Rightarrow> (insert_failure, database) result" where
  "delete_device dev db =
     (if dev \<in> t_device_id ` set (telemetry db) \<or> dev \<in> ep_device_id ` set (alert_episodes db)
         \<or> dev \<in> st_device_id ` set (alert_states db)
      then Inl Integrity_violation
      else Inr (db\<lparr>devices := delete_by d_device_id dev (devices db)\<rparr>))"

text \<open>\<open>seen_at\<close> is the explicit heartbeat time or the value of \<open>clock_timestamp()\<close>.\<close>

definition record_presence :: "string \<Rightarrow> usec \<Rightarrow> database \<Rightarrow> database" where
  "record_presence dev seen_at db =
     db\<lparr>devices := update_by d_device_id dev (\<lambda>d. d\<lparr>d_last_seen_at := Some seen_at\<rparr>) (devices db)\<rparr>"

section \<open>Lemmas\<close>

lemma record_presence_simps [simp]:
  "sites (record_presence dev t db) = sites db" "gateways (record_presence dev t db) = gateways db"
  "telemetry (record_presence dev t db) = telemetry db"
  "alert_episodes (record_presence dev t db) = alert_episodes db"
  "alert_states (record_presence dev t db) = alert_states db"
  "next_telemetry_id (record_presence dev t db) = next_telemetry_id db"
  "next_episode_id (record_presence dev t db) = next_episode_id db"
  by (simp_all add: record_presence_def)

lemma record_presence_column:
  "(\<And>d. h (d\<lparr>d_last_seen_at := Some t\<rparr>) = h d) \<Longrightarrow>
   map h (devices (record_presence dev t db)) = map h (devices db)"
  by (simp add: record_presence_def map_key_update_by)

lemma record_presence_keys [simp]:
  "map d_device_id (devices (record_presence dev t db)) = map d_device_id (devices db)"
  "map d_gateway_id (devices (record_presence dev t db)) = map d_gateway_id (devices db)"
  by (rule record_presence_column; simp)+

lemma record_presence_ids [simp]:
  "d_device_id ` set (devices (record_presence dev t db)) = d_device_id ` set (devices db)"
  "d_gateway_id ` set (devices (record_presence dev t db)) = d_gateway_id ` set (devices db)"
  by (simp_all only: list.set_map [symmetric] record_presence_keys)

lemma lookup_record_presence:
  "lookup_by d_device_id k (devices (record_presence dev t db)) =
     (if k = dev then map_option (\<lambda>d. d\<lparr>d_last_seen_at := Some t\<rparr>) (lookup_by d_device_id k (devices db))
      else lookup_by d_device_id k (devices db))"
  by (simp add: record_presence_def lookup_by_update_by)

lemma lock_assignments_record_presence [simp]:
  "lock_assignments (record_presence dev t db) ids = lock_assignments db ids"
  by (rule ext) (simp add: lock_assignments_def lookup_record_presence option.map_comp comp_def)

end
