(* ===== verification/Telemetry_Repository.thy ===== *)
theory Telemetry_Repository
  imports Db_Models
begin

text \<open>
  \<open>backend/app/telemetry/repository.py\<close>: the queries ingestion and history run inside a
  transaction of their caller. Row locks have no effect on the value a single transaction reads
  and are not part of the results.
\<close>

datatype sql_error = DataError | IntegrityError | OtherSqlError

text \<open>SELECT gateway.enabled, site.enabled ... JOIN site; the row, when there is one.\<close>

definition lock_gateway_eligibility :: "database \<Rightarrow> string \<Rightarrow> (bool \<times> bool) option" where
  "lock_gateway_eligibility db gid =
     (case lookup_by g_gateway_id gid (gateways db) of
        None \<Rightarrow> None
      | Some g \<Rightarrow>
          (case lookup_by s_site_id (g_site_id g) (sites db) of
             None \<Rightarrow> None
           | Some s \<Rightarrow> Some (g_enabled g, s_enabled s)))"

text \<open>The row INSERT builds from \<open>item.model_dump() | {"schema_version": v}\<close>.\<close>

definition event_row :: "int \<Rightarrow> usec \<Rightarrow> int \<Rightarrow> telemetry_event \<Rightarrow> telemetry_row" where
  "event_row rid now v e =
     \<lparr>t_id = rid, t_schema_version = v, t_device_id = ev_device_id e, t_boot_id = ev_boot_id e,
      t_sequence_number = ev_sequence_number e, t_measured_at = ev_measured_at e,
      t_device_uptime_ms = ev_device_uptime_ms e, t_gateway_received_at = ev_gateway_received_at e,
      t_backend_received_at = now, t_metric = ev_metric e, t_value = ev_value e,
      t_unit = ev_unit e, t_quality = ev_quality e\<rparr>"

definition ev_identity :: "telemetry_event \<Rightarrow> identity" where
  "ev_identity e = (ev_device_id e, ev_boot_id e, ev_sequence_number e)"

text \<open>
  What the column types can hold: VARCHAR(128), BIGINT, and NUMERIC, whose range is the
  parameter \<open>numeric_ok\<close>. Anything else is a DataError.
\<close>

definition representable :: "(rat \<Rightarrow> bool) \<Rightarrow> telemetry_event \<Rightarrow> bool" where
  "representable numeric_ok e \<longleftrightarrow>
     length (ev_device_id e) \<le> 128 \<and> length (ev_boot_id e) \<le> 128
     \<and> ev_sequence_number e < 2 ^ 63 \<and> ev_device_uptime_ms e < 2 ^ 63 \<and> numeric_ok (ev_value e)"

text \<open>
  INSERT ... ON CONFLICT ON CONSTRAINT uq_telemetry_identity DO NOTHING RETURNING id,
  backend_received_at, in a savepoint: \<open>now\<close> is \<open>clock_timestamp()\<close>. The identity column takes
  its next value for every row that is built, stored or not.
\<close>

definition insert_event :: "(rat \<Rightarrow> bool) \<Rightarrow> usec \<Rightarrow> int \<Rightarrow> telemetry_event \<Rightarrow> database
    \<Rightarrow> (sql_error, (int \<times> usec) option \<times> database) result" where
  "insert_event numeric_ok now v e db =
     (let rid = next_telemetry_id db;
          row = event_row rid now v e;
          db' = db\<lparr>next_telemetry_id := rid + 1\<rparr>
      in if \<not> representable numeric_ok e then Inl DataError
         else if \<not> telemetry_checks row then Inl IntegrityError
         else if lookup_by t_identity (ev_identity e) (telemetry db) \<noteq> None then Inr (None, db')
         else if lookup_by d_device_id (ev_device_id e) (devices db) = None then Inl IntegrityError
         else Inr (Some (rid, now), db'\<lparr>telemetry := telemetry db @ [row]\<rparr>))"

text \<open>\<open>scalar_one()\<close>: \<open>None\<close> is NoResultFound.\<close>

definition read_existing_event :: "database \<Rightarrow> identity \<Rightarrow> telemetry_row option" where
  "read_existing_event db i = lookup_by t_identity i (telemetry db)"

text \<open>
  The newest \<open>limit\<close> readings of a device in \<open>[range_start, range_end)\<close>, newest first.
\<close>

definition read_history_rows :: "database \<Rightarrow> string \<Rightarrow> usec \<Rightarrow> usec \<Rightarrow> nat \<Rightarrow> telemetry_row list" where
  "read_history_rows db device_id range_start range_end limit =
     take limit (order_desc (\<lambda>r. (event_time r, t_id r))
       (filter (\<lambda>r. t_device_id r = device_id \<and> event_time r \<ge> range_start \<and> event_time r < range_end)
         (telemetry db)))"

section \<open>Lemmas\<close>

lemma t_identity_event_row [simp]: "t_identity (event_row rid now v e) = ev_identity e"
  by (simp add: t_identity_def event_row_def ev_identity_def)

lemma t_id_event_row [simp]: "t_id (event_row rid now v e) = rid"
  and t_device_id_event_row [simp]: "t_device_id (event_row rid now v e) = ev_device_id e"
  by (simp_all add: event_row_def)

text \<open>A validated event meets every CHECK constraint and every column type but NUMERIC's range.\<close>

lemma event_wf_checks: "event_wf e \<Longrightarrow> telemetry_checks (event_row rid now 1 e)"
  by (auto simp: event_wf_def telemetry_checks_def event_row_def identifier_ok_def counter_ok_def
           quality_ok_def)

lemma event_wf_representable: "event_wf e \<Longrightarrow> representable numeric_ok e \<longleftrightarrow> numeric_ok (ev_value e)"
  by (auto simp: event_wf_def representable_def identifier_ok_def counter_ok_def
           MAX_IDENTIFIER_LENGTH_def MAX_COUNTER_def)

text \<open>The insert on a validated event of a registered device: no IntegrityError is possible.\<close>

lemma insert_event_wf:
  assumes "event_wf e" and "lookup_by d_device_id (ev_device_id e) (devices db) \<noteq> None"
  shows "insert_event numeric_ok now 1 e db =
    (if \<not> numeric_ok (ev_value e) then Inl DataError
     else if lookup_by t_identity (ev_identity e) (telemetry db) \<noteq> None
     then Inr (None, db\<lparr>next_telemetry_id := next_telemetry_id db + 1\<rparr>)
     else Inr (Some (next_telemetry_id db, now),
       db\<lparr>next_telemetry_id := next_telemetry_id db + 1,
          telemetry := telemetry db @ [event_row (next_telemetry_id db) now 1 e]\<rparr>))"
  using assms by (auto simp: insert_event_def Let_def event_wf_representable event_wf_checks)

lemma insert_event_result:
  assumes "insert_event numeric_ok now v e db = Inr (res, db')"
  obtains (conflict) "res = None" "db' = db\<lparr>next_telemetry_id := next_telemetry_id db + 1\<rparr>"
      "ev_identity e \<in> t_identity ` set (telemetry db)"
  | (inserted) "res = Some (next_telemetry_id db, now)"
      "db' = db\<lparr>next_telemetry_id := next_telemetry_id db + 1,
          telemetry := telemetry db @ [event_row (next_telemetry_id db) now v e]\<rparr>"
      "ev_identity e \<notin> t_identity ` set (telemetry db)"
      "ev_device_id e \<in> d_device_id ` set (devices db)"
      "telemetry_checks (event_row (next_telemetry_id db) now v e)"
proof (cases "ev_identity e \<in> t_identity ` set (telemetry db)")
  case True
  then have "lookup_by t_identity (ev_identity e) (telemetry db) \<noteq> None"
    by (simp only: lookup_by_None_iff) simp
  with True assms show ?thesis
    by (intro conflict) (simp_all add: insert_event_def Let_def split: if_splits)
next
  case False
  then have "lookup_by t_identity (ev_identity e) (telemetry db) = None"
    by (simp only: lookup_by_None_iff) simp
  with False assms show ?thesis
    by (intro inserted)
       (simp_all add: insert_event_def Let_def lookup_by_None_iff del: not_None_eq split: if_splits)
qed

lemma insert_event_telemetry_ok:
  assumes ok: "telemetry_ok db" and ins: "insert_event numeric_ok now v e db = Inr (res, db')"
  shows "telemetry_ok db'"
  using ins
proof (cases rule: insert_event_result)
  case conflict
  with ok show ?thesis by (auto simp: telemetry_ok_def intro: less_trans)
next
  case inserted
  have "next_telemetry_id db \<notin> t_id ` set (telemetry db)"
    using ok by (auto simp: telemetry_ok_def)
  with inserted ok show ?thesis by (auto simp: telemetry_ok_def intro: less_trans)
qed

lemma distinct_history:
  "telemetry_ok db \<Longrightarrow> distinct (map t_id (read_history_rows db dev a b n))"
  unfolding read_history_rows_def take_map [symmetric]
  by (intro distinct_take distinct_order_desc distinct_map_filter_key) (simp add: telemetry_ok_def)

end
