(* ===== verification/Alerts.thy ===== *)
theory Alerts
  imports Telemetry_Repository
begin

text \<open>
  \<open>backend/app/alerts/service.py\<close>: evaluation of a newly accepted reading against the alert state
  of its device, and the list of episodes. The abstract specification is a debounced two-mode
  alarm; the stored state refines it.
\<close>

section \<open>Evaluation\<close>

definition HIGH_THRESHOLD :: rat where "HIGH_THRESHOLD = 30"
definition RECOVERY_THRESHOLD :: rat where "RECOVERY_THRESHOLD = 28"
definition CONSECUTIVE_READINGS :: int where "CONSECUTIVE_READINGS = 3"
definition MAX_READING_AGE :: usec where "MAX_READING_AGE = minutes 5"
definition MAX_FUTURE_SKEW :: usec where "MAX_FUTURE_SKEW = minutes 1"

lemmas threshold_defs = HIGH_THRESHOLD_def RECOVERY_THRESHOLD_def CONSECUTIVE_READINGS_def

definition reading_time :: "telemetry_event \<Rightarrow> usec" where
  "reading_time item =
     (case ev_measured_at item of
        Some m \<Rightarrow> if q_clock (ev_quality item) = ''synchronised'' then m
                  else ev_gateway_received_at item
      | None \<Rightarrow> ev_gateway_received_at item)"

definition fresh_reading :: "usec \<Rightarrow> usec \<Rightarrow> bool" where
  "fresh_reading backend_received_at event_at \<longleftrightarrow>
     backend_received_at - MAX_READING_AGE \<le> event_at \<and> event_at \<le> backend_received_at + MAX_FUTURE_SKEW"

text \<open>Writing the attributes of a state object back to its row.\<close>

definition store_state :: "alert_state \<Rightarrow> database \<Rightarrow> database" where
  "store_state s db =
     db\<lparr>alert_states := update_by st_device_id (st_device_id s) (\<lambda>_. s) (alert_states db)\<rparr>"

text \<open>
  The second half of \<open>evaluate_accepted_reading\<close>, from \<open>state.last_event_at = event_at\<close> on.
  An \<open>Inl\<close> is the AttributeError of a missing episode row.
\<close>

definition advance_state :: "usec \<Rightarrow> rat \<Rightarrow> int \<Rightarrow> alert_state \<Rightarrow> database \<Rightarrow> (string, database) result" where
  "advance_state event_at reading telemetry_id state0 db =
     (let state = state0\<lparr>st_last_event_at := event_at\<rparr>
      in case st_active_episode_id state of
           None \<Rightarrow>
             (let high = (if reading > HIGH_THRESHOLD then st_high_streak state + 1 else 0)
              in if high = CONSECUTIVE_READINGS
                 then (let eid = next_episode_id db;
                           episode = \<lparr>ep_id = eid, ep_device_id = st_device_id state,
                             ep_opened_at = event_at, ep_resolved_at = None,
                             ep_opening_telemetry_id = telemetry_id,
                             ep_resolving_telemetry_id = None\<rparr>
                       in Inr (store_state (state\<lparr>st_high_streak := 0, st_active_episode_id := Some eid\<rparr>)
                            (db\<lparr>alert_episodes := alert_episodes db @ [episode],
                                next_episode_id := eid + 1\<rparr>)))
                 else Inr (store_state (state\<lparr>st_high_streak := high\<rparr>) db))
         | Some eid \<Rightarrow>
             (let recovery = (if reading < RECOVERY_THRESHOLD then st_recovery_streak state + 1 else 0)
              in if recovery = CONSECUTIVE_READINGS
                 then (if lookup_by ep_id eid (alert_episodes db) = None
                       then Inl ''AttributeError''
                       else Inr (store_state (state\<lparr>st_recovery_streak := 0, st_active_episode_id := None\<rparr>)
                              (db\<lparr>alert_episodes := update_by ep_id eid
                                 (\<lambda>e. e\<lparr>ep_resolved_at := Some event_at,
                                        ep_resolving_telemetry_id := Some telemetry_id\<rparr>)
                                 (alert_episodes db)\<rparr>)))
                 else Inr (store_state (state\<lparr>st_recovery_streak := recovery\<rparr>) db)))"

text \<open>
  \<open>states\<close> maps a device to the state object the session holds for it, that is, to the key of
  its row: an attribute written through the cache is written to the row.
\<close>

type_synonym state_cache = "string \<rightharpoonup> string"

definition cached_state :: "state_cache \<Rightarrow> string \<Rightarrow> database \<Rightarrow> alert_state option" where
  "cached_state states dev db =
     (case states dev of None \<Rightarrow> None | Some ref \<Rightarrow> lookup_by st_device_id ref (alert_states db))"

definition evaluate_accepted_reading ::
    "telemetry_event \<Rightarrow> int \<Rightarrow> usec \<Rightarrow> state_cache \<Rightarrow> database
     \<Rightarrow> (string, state_cache \<times> database) result" where
  "evaluate_accepted_reading item telemetry_id backend_received_at states db =
     (let event_at = reading_time item; dev = ev_device_id item
      in if \<not> fresh_reading backend_received_at event_at then Inr (states, db)
         else case cached_state states dev db of
           Some state \<Rightarrow>
             if event_at \<le> st_last_event_at state then Inr (states, db)
             else (case advance_state event_at (ev_value item) telemetry_id state db of
                     Inl x \<Rightarrow> Inl x | Inr db' \<Rightarrow> Inr (states, db'))
         | None \<Rightarrow>
             (case lookup_by st_device_id dev (alert_states db) of
                None \<Rightarrow>
                  (let state = \<lparr>st_device_id = dev, st_last_event_at = event_at, st_high_streak = 0,
                                st_recovery_streak = 0, st_active_episode_id = None\<rparr>
                   in case advance_state event_at (ev_value item) telemetry_id state
                             (db\<lparr>alert_states := alert_states db @ [state]\<rparr>) of
                        Inl x \<Rightarrow> Inl x | Inr db' \<Rightarrow> Inr (states(dev \<mapsto> dev), db'))
              | Some state \<Rightarrow>
                  if event_at \<le> st_last_event_at state then Inr (states, db)
                  else (case advance_state event_at (ev_value item) telemetry_id state db of
                          Inl x \<Rightarrow> Inl x | Inr db' \<Rightarrow> Inr (states(dev \<mapsto> dev), db'))))"

section \<open>Episodes\<close>

record episode_status =
  es_id :: int
  es_device_id :: string
  es_device_name :: string
  es_active :: bool
  es_opened_at :: usec
  es_opening_value :: rat
  es_resolved_at :: "usec option"
  es_resolving_value :: "rat option"

record alert_rule =
  ar_high_threshold :: rat
  ar_recovery_threshold :: rat
  ar_consecutive_readings :: int
  ar_unit :: string

record alert_episode_list =
  al_rule :: alert_rule
  al_active_count :: nat
  al_episodes :: "episode_status list"

text \<open>The two inner joins drop an episode without its device or opening reading.\<close>

definition episode_statuses :: "database \<Rightarrow> episode_status list" where
  "episode_statuses db = concat (map (\<lambda>e.
     (case (lookup_by d_device_id (ep_device_id e) (devices db),
            lookup_by t_id (ep_opening_telemetry_id e) (telemetry db)) of
        (Some d, Some opening) \<Rightarrow>
          [\<lparr>es_id = ep_id e, es_device_id = ep_device_id e, es_device_name = d_name d,
            es_active = is_open e, es_opened_at = ep_opened_at e,
            es_opening_value = t_value opening, es_resolved_at = ep_resolved_at e,
            es_resolving_value =
              (case ep_resolving_telemetry_id e of None \<Rightarrow> None
               | Some i \<Rightarrow> map_option t_value (lookup_by t_id i (telemetry db)))\<rparr>]
      | _ \<Rightarrow> [])) (alert_episodes db))"

text \<open>ORDER BY resolved_at IS NULL DESC, opened_at DESC, id DESC LIMIT \<open>limit\<close>.\<close>

definition list_alert_episodes :: "database \<Rightarrow> nat \<Rightarrow> alert_episode_list" where
  "list_alert_episodes db limit =
     \<lparr>al_rule = \<lparr>ar_high_threshold = HIGH_THRESHOLD, ar_recovery_threshold = RECOVERY_THRESHOLD,
        ar_consecutive_readings = CONSECUTIVE_READINGS, ar_unit = ''celsius''\<rparr>,
      al_active_count = length (filter is_open (alert_episodes db)),
      al_episodes = take limit (order_desc (\<lambda>r. (es_active r, es_opened_at r, es_id r))
        (episode_statuses db))\<rparr>"

section \<open>The abstract alarm\<close>

text \<open>A streak of high readings while normal, a streak of recovered readings while in alarm.\<close>

datatype alarm = Normal nat | Alarm nat

fun alarm_step :: "alarm \<Rightarrow> rat \<Rightarrow> alarm" where
  "alarm_step (Normal n) v = (if v > 30 then (if n = 2 then Alarm 0 else Normal (Suc n)) else Normal 0)"
| "alarm_step (Alarm n) v = (if v < 28 then (if n = 2 then Normal 0 else Alarm (Suc n)) else Alarm 0)"

definition alarm_of_state :: "alert_state \<Rightarrow> alarm" where
  "alarm_of_state s =
     (case st_active_episode_id s of None \<Rightarrow> Normal (nat (st_high_streak s))
      | Some _ \<Rightarrow> Alarm (nat (st_recovery_streak s)))"

definition alarm_of :: "database \<Rightarrow> string \<Rightarrow> alarm" where
  "alarm_of db dev =
     (case lookup_by st_device_id dev (alert_states db) of None \<Rightarrow> Normal 0 | Some s \<Rightarrow> alarm_of_state s)"

text \<open>Whether a reading is evaluated: fresh, and later than the cursor of its device.\<close>

definition evaluated :: "database \<Rightarrow> telemetry_event \<Rightarrow> usec \<Rightarrow> bool" where
  "evaluated db item backend_received_at \<longleftrightarrow>
     fresh_reading backend_received_at (reading_time item)
     \<and> (case lookup_by st_device_id (ev_device_id item) (alert_states db) of
          None \<Rightarrow> True | Some s \<Rightarrow> st_last_event_at s < reading_time item)"

section \<open>Invariant of the alert tables\<close>

text \<open>
  A state is consistent with the episodes: in alarm it points to an open episode of its device
  that began no later than the cursor; the streak of the other mode is zero. An open episode is
  the one the state of its device points to, and it has no resolving reading.
\<close>

definition state_linked :: "database \<Rightarrow> alert_state \<Rightarrow> bool" where
  "state_linked db s \<longleftrightarrow>
     (case st_active_episode_id s of
        None \<Rightarrow> st_recovery_streak s = 0
      | Some i \<Rightarrow> st_high_streak s = 0
          \<and> (\<exists>e \<in> set (alert_episodes db). ep_id e = i \<and> ep_device_id e = st_device_id s
               \<and> is_open e \<and> ep_opened_at e \<le> st_last_event_at s))"

definition episode_linked :: "database \<Rightarrow> alert_episode \<Rightarrow> bool" where
  "episode_linked db e \<longleftrightarrow>
     (is_open e \<longleftrightarrow> ep_resolving_telemetry_id e = None)
     \<and> (is_open e \<longrightarrow> (\<exists>s \<in> set (alert_states db). st_device_id s = ep_device_id e
          \<and> st_active_episode_id s = Some (ep_id e)))"

definition episode_ok :: "database \<Rightarrow> alert_episode \<Rightarrow> bool" where
  "episode_ok db e \<longleftrightarrow>
     episode_checks e \<and> ep_id e < next_episode_id db
     \<and> ep_device_id e \<in> d_device_id ` set (devices db)
     \<and> ep_opening_telemetry_id e \<in> t_id ` set (telemetry db)
     \<and> opt_all (\<lambda>i. i \<in> t_id ` set (telemetry db)) (ep_resolving_telemetry_id e)"

definition state_ok :: "database \<Rightarrow> alert_state \<Rightarrow> bool" where
  "state_ok db s \<longleftrightarrow> state_checks s \<and> st_device_id s \<in> d_device_id ` set (devices db)"

definition alerts_inv :: "database \<Rightarrow> bool" where
  "alerts_inv db \<longleftrightarrow>
     distinct (map ep_id (alert_episodes db)) \<and> distinct (map st_device_id (alert_states db))
     \<and> distinct (map ep_opening_telemetry_id (alert_episodes db))
     \<and> distinct (nonnull ep_resolving_telemetry_id (alert_episodes db))
     \<and> (\<forall>e \<in> set (alert_episodes db). episode_ok db e \<and> episode_linked db e)
     \<and> (\<forall>s \<in> set (alert_states db). state_ok db s \<and> state_linked db s)"

text \<open>The cache only holds references to rows that exist, under their own device.\<close>

definition cache_ok :: "state_cache \<Rightarrow> database \<Rightarrow> bool" where
  "cache_ok states db \<longleftrightarrow>
     (\<forall>dev ref. states dev = Some ref \<longrightarrow> ref = dev \<and> dev \<in> st_device_id ` set (alert_states db))"

section \<open>The invariant implies the constraints\<close>

lemma nonnull_filter: "nonnull col rows = map (\<lambda>r. the (col r)) (filter (\<lambda>r. col r \<noteq> None) rows)"
  by (induction rows) (auto split: option.splits)

lemma distinct_nonnull_iff:
  "distinct rows \<Longrightarrow> distinct (nonnull col rows) \<longleftrightarrow>
     (\<forall>r \<in> set rows. \<forall>r' \<in> set rows. \<forall>v. col r = Some v \<and> col r' = Some v \<longrightarrow> r = r')"
  by (simp add: nonnull_filter distinct_map inj_on_def) fastforce

lemma image_if_one: "a \<in> A \<Longrightarrow> (\<lambda>x. if x = a then b else x) ` A = insert b (A - {a})"
  by (force simp: image_iff)

lemma key_unique: "distinct (map key rows) \<Longrightarrow> r \<in> set rows \<Longrightarrow> s \<in> set rows \<Longrightarrow> key r = key s \<Longrightarrow> r = s"
  by (auto simp: distinct_map dest: inj_onD)

lemma set_update_one:
  assumes "distinct (map key rows)" and "r \<in> set rows" and "key r = k"
  shows "set (update_by key k f rows) = insert (f r) (set rows - {r})"
proof -
  have "(if key r' = k then f r' else r') = (if r' = r then f r else r')" if "r' \<in> set rows" for r'
    using key_unique [OF assms(1) that assms(2)] assms(3) by (cases "key r' = k") auto
  then have "set (update_by key k f rows) = (\<lambda>r'. if r' = r then f r else r') ` set rows"
    unfolding set_update_by by (rule image_cong [OF refl])
  also have "\<dots> = insert (f r) (set rows - {r})" by (rule image_if_one [OF assms(2)])
  finally show ?thesis .
qed

text \<open>At most one open episode per device, and no two states share an active episode.\<close>

lemma open_episode_unique:
  assumes inv: "alerts_inv db" and e: "e \<in> set (alert_episodes db)" "is_open e"
    and e': "e' \<in> set (alert_episodes db)" "is_open e'" and dev: "ep_device_id e = ep_device_id e'"
  shows "e = e'"
proof -
  obtain s where s: "s \<in> set (alert_states db)" "st_device_id s = ep_device_id e"
      "st_active_episode_id s = Some (ep_id e)"
    using inv e unfolding alerts_inv_def episode_linked_def by blast
  obtain s' where s': "s' \<in> set (alert_states db)" "st_device_id s' = ep_device_id e'"
      "st_active_episode_id s' = Some (ep_id e')"
    using inv e' unfolding alerts_inv_def episode_linked_def by blast
  have "s = s'" using s(1) s'(1) by (rule key_unique [of st_device_id, rotated])
    (use inv s s' dev in \<open>simp_all add: alerts_inv_def\<close>)
  then have "ep_id e = ep_id e'" using s(3) s'(3) by simp
  with inv e(1) e'(1) show ?thesis
    by (intro key_unique [of ep_id "alert_episodes db"]) (simp_all add: alerts_inv_def)
qed

lemma active_state_unique:
  assumes inv: "alerts_inv db" and s: "s \<in> set (alert_states db)" "st_active_episode_id s = Some i"
    and s': "s' \<in> set (alert_states db)" "st_active_episode_id s' = Some i"
  shows "s = s'"
proof -
  have "state_linked db s" "state_linked db s'" using inv s(1) s'(1) by (simp_all add: alerts_inv_def)
  then obtain e e' where e: "e \<in> set (alert_episodes db)" "ep_id e = i" "ep_device_id e = st_device_id s"
      and e': "e' \<in> set (alert_episodes db)" "ep_id e' = i" "ep_device_id e' = st_device_id s'"
    using s(2) s'(2) unfolding state_linked_def by auto
  have "e = e'"
    using inv e(1,2) e'(1,2) by (intro key_unique [of ep_id "alert_episodes db"]) (simp_all add: alerts_inv_def)
  with inv s(1) s'(1) e e' show ?thesis
    by (intro key_unique [of st_device_id "alert_states db"]) (simp_all add: alerts_inv_def)
qed

lemma alerts_inv_ok:
  assumes inv: "alerts_inv db"
  shows "alerts_ok db"
proof -
  have rows: "distinct (alert_episodes db)" "distinct (alert_states db)"
    using inv by (simp_all add: alerts_inv_def distinct_map)
  have E: "\<And>e. e \<in> set (alert_episodes db) \<Longrightarrow> episode_ok db e \<and> episode_linked db e"
    and S: "\<And>s. s \<in> set (alert_states db) \<Longrightarrow> state_ok db s \<and> state_linked db s"
    using inv by (simp_all add: alerts_inv_def)
  have "inj_on ep_device_id (set (filter is_open (alert_episodes db)))"
    by (rule inj_onI) (use open_episode_unique [OF inv] in simp)
  then have 1: "distinct (map ep_device_id (filter is_open (alert_episodes db)))"
    using rows by (simp add: distinct_map)
  have 2: "distinct (nonnull st_active_episode_id (alert_states db))"
    unfolding distinct_nonnull_iff [OF rows(2)] using active_state_unique [OF inv] by blast
  have 3: "set (nonnull st_active_episode_id (alert_states db)) \<subseteq> ep_id ` set (alert_episodes db)"
  proof
    fix i assume "i \<in> set (nonnull st_active_episode_id (alert_states db))"
    then obtain s where "s \<in> set (alert_states db)" "st_active_episode_id s = Some i"
      by (auto simp: set_nonnull)
    with S [of s] show "i \<in> ep_id ` set (alert_episodes db)" by (auto simp: state_linked_def)
  qed
  have 4: "set (nonnull ep_resolving_telemetry_id (alert_episodes db)) \<subseteq> t_id ` set (telemetry db)"
  proof
    fix i assume "i \<in> set (nonnull ep_resolving_telemetry_id (alert_episodes db))"
    then obtain e where "e \<in> set (alert_episodes db)" "ep_resolving_telemetry_id e = Some i"
      by (auto simp: set_nonnull)
    with E [of e] show "i \<in> t_id ` set (telemetry db)" by (simp add: episode_ok_def)
  qed
  have 5: "\<forall>e \<in> set (alert_episodes db). episode_checks e \<and> ep_id e < next_episode_id db"
    "ep_device_id ` set (alert_episodes db) \<subseteq> d_device_id ` set (devices db)"
    "ep_opening_telemetry_id ` set (alert_episodes db) \<subseteq> t_id ` set (telemetry db)"
    using E by (auto simp: episode_ok_def)
  have 6: "\<forall>s \<in> set (alert_states db). state_checks s"
    "st_device_id ` set (alert_states db) \<subseteq> d_device_id ` set (devices db)"
    using S by (auto simp: state_ok_def)
  show ?thesis unfolding alerts_ok_def using inv 1 2 3 4 5 6 by (simp add: alerts_inv_def)
qed

section \<open>Preservation\<close>

lemma alerts_invD:
  assumes "alerts_inv db"
  shows "distinct (map ep_id (alert_episodes db))" "distinct (map st_device_id (alert_states db))"
    "distinct (map ep_opening_telemetry_id (alert_episodes db))"
    "distinct (nonnull ep_resolving_telemetry_id (alert_episodes db))"
    "\<And>e. e \<in> set (alert_episodes db) \<Longrightarrow> episode_ok db e"
    "\<And>e. e \<in> set (alert_episodes db) \<Longrightarrow> episode_linked db e"
    "\<And>s. s \<in> set (alert_states db) \<Longrightarrow> state_ok db s"
    "\<And>s. s \<in> set (alert_states db) \<Longrightarrow> state_linked db s"
  using assms by (simp_all add: alerts_inv_def)

lemma set_store_state:
  assumes "alerts_inv db" and "s \<in> set (alert_states db)" and "st_device_id s' = st_device_id s"
  shows "set (alert_states (store_state s' db)) = insert s' (set (alert_states db) - {s})"
  using set_update_one [OF alerts_invD(2) [OF assms(1)] assms(2) refl, of "\<lambda>_. s'"] assms(3)
  by (simp add: store_state_def)

lemma distinct_store_state:
  assumes "alerts_inv db"
  shows "distinct (map st_device_id (alert_states (store_state s' db)))"
proof -
  have "map st_device_id (alert_states (store_state s' db)) = map st_device_id (alert_states db)"
    by (simp add: store_state_def update_by_def)
  then show ?thesis using alerts_invD(2) [OF assms] by simp
qed

lemma store_state_simps [simp]:
  "alert_episodes (store_state s db) = alert_episodes db" "devices (store_state s db) = devices db"
  "telemetry (store_state s db) = telemetry db" "next_episode_id (store_state s db) = next_episode_id db"
  "next_telemetry_id (store_state s db) = next_telemetry_id db"
  "sites (store_state s db) = sites db" "gateways (store_state s db) = gateways db"
  by (simp_all add: store_state_def)

lemma linked_store_state [simp]:
  "state_linked (store_state s db) t \<longleftrightarrow> state_linked db t"
  "state_ok (store_state s db) t \<longleftrightarrow> state_ok db t"
  "episode_ok (store_state s db) e \<longleftrightarrow> episode_ok db e"
  by (simp_all add: state_linked_def state_ok_def episode_ok_def split: option.splits)

text \<open>A reading that only moves the cursor and a streak.\<close>

lemma store_state_inv:
  assumes inv: "alerts_inv db" and s: "s \<in> set (alert_states db)"
    and s': "st_device_id s' = st_device_id s" "st_active_episode_id s' = st_active_episode_id s"
    and ok: "state_checks s'" "state_linked db s'"
  shows "alerts_inv (store_state s' db)"
proof -
  note S = set_store_state [OF inv s s'(1)]
  have E: "episode_ok (store_state s' db) e \<and> episode_linked (store_state s' db) e"
    if e: "e \<in> set (alert_episodes db)" for e
  proof -
    have "episode_linked (store_state s' db) e"
      using alerts_invD(6) [OF inv e] s' unfolding episode_linked_def S by force
    then show ?thesis using alerts_invD(5) [OF inv e] by simp
  qed
  have "state_ok (store_state s' db) t \<and> state_linked (store_state s' db) t"
    if "t \<in> set (alert_states (store_state s' db))" for t
  proof (cases "t = s'")
    case True
    then show ?thesis using ok alerts_invD(7) [OF inv s] s'(1) by (simp add: state_ok_def)
  next
    case False
    then have "t \<in> set (alert_states db)" using that S by auto
    then show ?thesis using alerts_invD(7,8) [OF inv] by simp
  qed
  with E show ?thesis
    using distinct_store_state [OF inv] alerts_invD(1,3,4) [OF inv] unfolding alerts_inv_def by simp
qed

definition open_episode :: "alert_state \<Rightarrow> usec \<Rightarrow> int \<Rightarrow> database \<Rightarrow> database" where
  "open_episode s at_time tid db =
     store_state (s\<lparr>st_last_event_at := at_time, st_high_streak := 0, st_active_episode_id := Some (next_episode_id db)\<rparr>)
       (db\<lparr>alert_episodes := alert_episodes db @ [\<lparr>ep_id = next_episode_id db, ep_device_id = st_device_id s,
             ep_opened_at = at_time, ep_resolved_at = None, ep_opening_telemetry_id = tid,
             ep_resolving_telemetry_id = None\<rparr>], next_episode_id := next_episode_id db + 1\<rparr>)"

definition resolve_episode :: "alert_state \<Rightarrow> usec \<Rightarrow> int \<Rightarrow> int \<Rightarrow> database \<Rightarrow> database" where
  "resolve_episode s at_time tid eid db =
     store_state (s\<lparr>st_last_event_at := at_time, st_recovery_streak := 0, st_active_episode_id := None\<rparr>)
       (db\<lparr>alert_episodes := update_by ep_id eid
          (\<lambda>e. e\<lparr>ep_resolved_at := Some at_time, ep_resolving_telemetry_id := Some tid\<rparr>) (alert_episodes db)\<rparr>)"

text \<open>The four outcomes of a reading that is evaluated.\<close>

lemma advance_state_eq:
  "advance_state at_time v tid s db =
     (case st_active_episode_id s of
        None \<Rightarrow> if v > 30 \<and> st_high_streak s = 2 then Inr (open_episode s at_time tid db)
          else Inr (store_state (s\<lparr>st_last_event_at := at_time,
                 st_high_streak := (if v > 30 then st_high_streak s + 1 else 0)\<rparr>) db)
      | Some eid \<Rightarrow> if v < 28 \<and> st_recovery_streak s = 2
          then (if lookup_by ep_id eid (alert_episodes db) = None then Inl ''AttributeError''
                else Inr (resolve_episode s at_time tid eid db))
          else Inr (store_state (s\<lparr>st_last_event_at := at_time,
                 st_recovery_streak := (if v < 28 then st_recovery_streak s + 1 else 0)\<rparr>) db))"
  by (auto simp: advance_state_def Let_def threshold_defs open_episode_def resolve_episode_def
           split: option.splits)

text \<open>Opening an episode: the device had none, and the reading was not used before.\<close>

lemma open_episode_inv:
  assumes inv: "alerts_inv db" and s: "s \<in> set (alert_states db)"
    and act: "st_active_episode_id s = None"
    and tid: "tid \<in> t_id ` set (telemetry db)" "tid \<notin> ep_opening_telemetry_id ` set (alert_episodes db)"
  shows "alerts_inv (open_episode s at_time tid db)"
proof -
  let ?e = "\<lparr>ep_id = next_episode_id db, ep_device_id = st_device_id s, ep_opened_at = at_time,
    ep_resolved_at = None, ep_opening_telemetry_id = tid, ep_resolving_telemetry_id = None\<rparr>"
  let ?s = "s\<lparr>st_last_event_at := at_time, st_high_streak := 0,
    st_active_episode_id := Some (next_episode_id db)\<rparr>"
  let ?db = "open_episode s at_time tid db"
  have eps: "alert_episodes ?db = alert_episodes db @ [?e]"
    and same: "devices ?db = devices db" "telemetry ?db = telemetry db"
      "next_episode_id ?db = next_episode_id db + 1"
    by (simp_all add: open_episode_def)
  have sts: "alert_states ?db = alert_states (store_state ?s db)"
    by (simp add: open_episode_def store_state_def)
  have S: "set (alert_states ?db) = insert ?s (set (alert_states db) - {s})"
    unfolding sts by (rule set_store_state [OF inv s]) simp
  have rec0: "st_recovery_streak s = 0" and chk: "state_ok db s"
    using alerts_invD(7,8) [OF inv s] act by (simp_all add: state_linked_def)
  have old: "episode_ok ?db e" "episode_linked ?db e" if e: "e \<in> set (alert_episodes db)" for e
  proof -
    show "episode_ok ?db e" using alerts_invD(5) [OF inv e] by (simp add: episode_ok_def same)
    have "t \<noteq> s" if "st_active_episode_id t = Some (ep_id e)" for t using that act by auto
    then show "episode_linked ?db e"
      using alerts_invD(6) [OF inv e] unfolding episode_linked_def S by blast
  qed
  have new: "episode_ok ?db ?e" "episode_linked ?db ?e"
    using chk tid(1) by (simp_all add: episode_ok_def episode_linked_def same S state_ok_def is_open_def
        episode_checks_def)
  have other: "state_linked ?db t" if "t \<in> set (alert_states db)" for t
    using alerts_invD(8) [OF inv that] by (auto simp: state_linked_def eps split: option.splits)
  have mine: "state_linked ?db ?s" "state_ok ?db ?s"
    using chk rec0 by (simp_all add: state_linked_def eps is_open_def state_ok_def same state_checks_def)
  have "next_episode_id db \<notin> ep_id ` set (alert_episodes db)"
    using alerts_invD(5) [OF inv] by (fastforce simp: episode_ok_def)
  then have keys: "distinct (map ep_id (alert_episodes ?db))"
      "distinct (map ep_opening_telemetry_id (alert_episodes ?db))"
      "distinct (nonnull ep_resolving_telemetry_id (alert_episodes ?db))"
    using alerts_invD(1,3,4) [OF inv] tid(2) by (simp_all add: eps)
  have "distinct (map st_device_id (alert_states ?db))"
    unfolding sts by (rule distinct_store_state [OF inv])
  moreover have "state_ok ?db t" if "t \<in> set (alert_states db)" for t
    using alerts_invD(7) [OF inv that] by (simp add: state_ok_def same)
  ultimately show ?thesis
    unfolding alerts_inv_def using keys old new other mine by (simp add: S eps)
qed

text \<open>Resolving the episode of a state: the event time is past the cursor, the reading unused.\<close>

lemma resolve_episode_inv:
  assumes inv: "alerts_inv db" and s: "s \<in> set (alert_states db)"
    and act: "st_active_episode_id s = Some eid" and later: "st_last_event_at s \<le> at_time"
    and tid: "tid \<in> t_id ` set (telemetry db)"
      "tid \<notin> set (nonnull ep_resolving_telemetry_id (alert_episodes db))"
  shows "alerts_inv (resolve_episode s at_time tid eid db)"
proof -
  let ?f = "\<lambda>e. e\<lparr>ep_resolved_at := Some at_time, ep_resolving_telemetry_id := Some tid\<rparr>"
  let ?s = "s\<lparr>st_last_event_at := at_time, st_recovery_streak := 0, st_active_episode_id := None\<rparr>"
  let ?db = "resolve_episode s at_time tid eid db"
  obtain e where e: "e \<in> set (alert_episodes db)" "ep_id e = eid" "ep_device_id e = st_device_id s"
      "is_open e" "ep_opened_at e \<le> st_last_event_at s" and high0: "st_high_streak s = 0"
    using alerts_invD(8) [OF inv s] act by (auto simp: state_linked_def)
  have eps: "alert_episodes ?db = update_by ep_id eid ?f (alert_episodes db)"
    and same: "devices ?db = devices db" "telemetry ?db = telemetry db"
      "next_episode_id ?db = next_episode_id db"
    by (simp_all add: resolve_episode_def)
  have sts: "alert_states ?db = alert_states (store_state ?s db)"
    by (simp add: resolve_episode_def store_state_def)
  have S: "set (alert_states ?db) = insert ?s (set (alert_states db) - {s})"
    unfolding sts by (rule set_store_state [OF inv s]) simp
  have E: "set (alert_episodes ?db) = insert (?f e) (set (alert_episodes db) - {e})"
    unfolding eps by (rule set_update_one [OF alerts_invD(1) [OF inv] e(1,2)])
  have chk: "state_ok db s" using alerts_invD(7) [OF inv s] .
  have old: "episode_linked ?db x" if x: "x \<in> set (alert_episodes db) - {e}" for x
  proof -
    have "ep_id x \<noteq> eid" using key_unique [OF alerts_invD(1) [OF inv], of x e] x e(1,2) by auto
    then have "t \<noteq> s" if "st_active_episode_id t = Some (ep_id x)" for t using that act by auto
    then show ?thesis using alerts_invD(6) [OF inv, of x] x unfolding episode_linked_def S by blast
  qed
  have new: "episode_ok ?db (?f e)" "episode_linked ?db (?f e)"
    using alerts_invD(5) [OF inv e(1)] e(5) later tid(1)
    by (simp_all add: episode_ok_def same episode_linked_def is_open_def episode_checks_def)
  have other: "state_linked ?db t" if t: "t \<in> set (alert_states db) - {s}" for t
  proof (cases "st_active_episode_id t")
    case None
    then show ?thesis using alerts_invD(8) [OF inv, of t] t by (simp add: state_linked_def)
  next
    case (Some i)
    then obtain x where x: "x \<in> set (alert_episodes db)" "ep_id x = i" "ep_device_id x = st_device_id t"
        "is_open x" "ep_opened_at x \<le> st_last_event_at t" and h0: "st_high_streak t = 0"
      using alerts_invD(8) [OF inv, of t] t by (auto simp: state_linked_def)
    have "st_device_id t \<noteq> st_device_id s"
      using key_unique [OF alerts_invD(2) [OF inv], of t s] t s by auto
    then have "x \<noteq> e" using x(3) e(3) by auto
    then have "x \<in> set (alert_episodes ?db)" using x(1) E by blast
    with x h0 Some show ?thesis unfolding state_linked_def by auto
  qed
  have mine: "state_linked ?db ?s" "state_ok ?db ?s"
    using chk high0 by (simp_all add: state_linked_def state_ok_def same state_checks_def)
  have keys: "distinct (map ep_id (alert_episodes ?db))"
      "distinct (map ep_opening_telemetry_id (alert_episodes ?db))"
    using alerts_invD(1,3) [OF inv] by (simp_all add: eps table_simps)
  have rows: "distinct (alert_episodes db)" "distinct (alert_episodes ?db)"
    using alerts_invD(1) [OF inv] keys(1) by (simp_all add: distinct_map)
  have "\<forall>r \<in> set (alert_episodes db). \<forall>r' \<in> set (alert_episodes db). \<forall>v.
      ep_resolving_telemetry_id r = Some v \<and> ep_resolving_telemetry_id r' = Some v \<longrightarrow> r = r'"
    using alerts_invD(4) [OF inv] unfolding distinct_nonnull_iff [OF rows(1)] .
  moreover have "\<forall>r \<in> set (alert_episodes db). ep_resolving_telemetry_id r \<noteq> Some tid"
    using tid(2) by (auto simp: set_nonnull)
  ultimately have res: "distinct (nonnull ep_resolving_telemetry_id (alert_episodes ?db))"
    unfolding distinct_nonnull_iff [OF rows(2)] E by auto
  have "distinct (map st_device_id (alert_states ?db))"
    unfolding sts by (rule distinct_store_state [OF inv])
  moreover have "state_ok ?db t" if "t \<in> set (alert_states db)" for t
    using alerts_invD(7) [OF inv that] by (simp add: state_ok_def same)
  moreover have "episode_ok ?db x" if "x \<in> set (alert_episodes db)" for x
    using alerts_invD(5) [OF inv that] by (simp add: episode_ok_def same)
  ultimately show ?thesis
    unfolding alerts_inv_def using keys res old new other mine by (simp add: S E)
qed

section \<open>Evaluation of one reading\<close>

definition new_state :: "string \<Rightarrow> usec \<Rightarrow> alert_state" where
  "new_state dev at_time = \<lparr>st_device_id = dev, st_last_event_at = at_time, st_high_streak = 0,
     st_recovery_streak = 0, st_active_episode_id = None\<rparr>"

text \<open>The state row of a device, and the database in which it exists.\<close>

definition state_row :: "database \<Rightarrow> string \<Rightarrow> usec \<Rightarrow> alert_state" where
  "state_row db dev at_time =
     (case lookup_by st_device_id dev (alert_states db) of None \<Rightarrow> new_state dev at_time | Some s \<Rightarrow> s)"

definition with_state :: "database \<Rightarrow> string \<Rightarrow> usec \<Rightarrow> database" where
  "with_state db dev at_time =
     (case lookup_by st_device_id dev (alert_states db) of
        None \<Rightarrow> db\<lparr>alert_states := alert_states db @ [new_state dev at_time]\<rparr> | Some s \<Rightarrow> db)"

text \<open>With a consistent cache the result is a function of the database alone.\<close>

lemma evaluate_eq:
  assumes "cache_ok states db"
  shows "evaluate_accepted_reading item tid now states db =
    (if evaluated db item now
     then (case advance_state (reading_time item) (ev_value item) tid
                  (state_row db (ev_device_id item) (reading_time item))
                  (with_state db (ev_device_id item) (reading_time item)) of
             Inl x \<Rightarrow> Inl x | Inr db' \<Rightarrow> Inr (states(ev_device_id item \<mapsto> ev_device_id item), db'))
     else Inr (states, db))"
proof -
  let ?dev = "ev_device_id item"
  show ?thesis
  proof (cases "states ?dev")
    case None
    then show ?thesis
      by (auto simp: evaluate_accepted_reading_def cached_state_def evaluated_def state_row_def with_state_def
          new_state_def Let_def split: option.splits)
  next
    case (Some ref)
    with assms have ref: "ref = ?dev" "?dev \<in> st_device_id ` set (alert_states db)"
      by (auto simp: cache_ok_def)
    then obtain s where s: "lookup_by st_device_id ?dev (alert_states db) = Some s"
      by (metis lookup_by_None_iff option.exhaust)
    have "states(?dev \<mapsto> ?dev) = states" using Some ref(1) by auto
    then show ?thesis using Some ref(1) s
      by (simp add: evaluate_accepted_reading_def cached_state_def evaluated_def state_row_def with_state_def
          Let_def not_le [symmetric] split: sum.splits)
  qed
qed

lemma with_state_inv:
  assumes inv: "alerts_inv db" and dev: "dev \<in> d_device_id ` set (devices db)"
  shows "alerts_inv (with_state db dev at_time)"
    and "state_row db dev at_time \<in> set (alert_states (with_state db dev at_time))"
    and "st_device_id (state_row db dev at_time) = dev"
proof -
  let ?db = "with_state db dev at_time"
  show "state_row db dev at_time \<in> set (alert_states ?db)" "st_device_id (state_row db dev at_time) = dev"
    by (auto simp: state_row_def with_state_def new_state_def split: option.splits dest: lookup_by_SomeD)
  show "alerts_inv ?db"
  proof (cases "lookup_by st_device_id dev (alert_states db)")
    case None
    then have key: "dev \<notin> st_device_id ` set (alert_states db)" by (simp add: lookup_by_None_iff)
    have eq: "?db = db\<lparr>alert_states := alert_states db @ [new_state dev at_time]\<rparr>"
      using None by (simp add: with_state_def)
    have "episode_ok ?db e \<and> episode_linked ?db e" if "e \<in> set (alert_episodes db)" for e
      using alerts_invD(5,6) [OF inv that] by (auto simp: eq episode_ok_def episode_linked_def)
    moreover have "state_ok ?db t \<and> state_linked ?db t" if "t \<in> set (alert_states db)" for t
      using alerts_invD(7,8) [OF inv that] by (auto simp: eq state_ok_def state_linked_def split: option.splits)
    moreover have "state_ok ?db (new_state dev at_time)" "state_linked ?db (new_state dev at_time)"
      using dev by (simp_all add: eq state_ok_def state_linked_def new_state_def state_checks_def)
    ultimately show ?thesis
      using alerts_invD(1-4) [OF inv] key unfolding alerts_inv_def
      by (simp add: eq distinct_map_append_one) (simp add: new_state_def)
  next
    case (Some s)
    with inv show ?thesis by (simp add: with_state_def)
  qed
qed

lemma with_state_simps [simp]:
  "alert_episodes (with_state db dev a) = alert_episodes db" "telemetry (with_state db dev a) = telemetry db"
  "devices (with_state db dev a) = devices db" "sites (with_state db dev a) = sites db"
  "gateways (with_state db dev a) = gateways db" "next_telemetry_id (with_state db dev a) = next_telemetry_id db"
  "next_episode_id (with_state db dev a) = next_episode_id db"
  by (simp_all add: with_state_def split: option.splits)

text \<open>Advancing a state of a consistent database: no error, and the invariant is kept.\<close>

lemma advance_state_inv:
  assumes inv: "alerts_inv db" and s: "s \<in> set (alert_states db)" and later: "st_last_event_at s \<le> at_time"
    and tid: "tid \<in> t_id ` set (telemetry db)" "tid \<notin> ep_opening_telemetry_id ` set (alert_episodes db)"
      "tid \<notin> set (nonnull ep_resolving_telemetry_id (alert_episodes db))"
  shows "\<exists>db'. advance_state at_time v tid s db = Inr db' \<and> alerts_inv db'"
proof (cases "st_active_episode_id s")
  case None
  have chk: "state_checks s" "st_recovery_streak s = 0"
    using alerts_invD(7,8) [OF inv s] None by (simp_all add: state_ok_def state_linked_def)
  let ?s = "s\<lparr>st_last_event_at := at_time, st_high_streak := (if v > 30 then st_high_streak s + 1 else 0)\<rparr>"
  show ?thesis
  proof (cases "v > 30 \<and> st_high_streak s = 2")
    case True
    then show ?thesis using open_episode_inv [OF inv s None tid(1,2)] None by (simp add: advance_state_eq)
  next
    case False
    have "state_checks ?s" "state_linked db ?s"
      using chk None False by (auto simp: state_checks_def state_linked_def)
    from store_state_inv [OF inv s _ _ this] None False show ?thesis by (auto simp: advance_state_eq)
  qed
next
  case (Some eid)
  then obtain e where e: "e \<in> set (alert_episodes db)" "ep_id e = eid" "ep_device_id e = st_device_id s"
      "is_open e" "ep_opened_at e \<le> st_last_event_at s" and high0: "st_high_streak s = 0"
    using alerts_invD(8) [OF inv s] by (auto simp: state_linked_def)
  have chk: "state_checks s" using alerts_invD(7) [OF inv s] by (simp add: state_ok_def)
  let ?s = "s\<lparr>st_last_event_at := at_time, st_recovery_streak := (if v < 28 then st_recovery_streak s + 1 else 0)\<rparr>"
  show ?thesis
  proof (cases "v < 28 \<and> st_recovery_streak s = 2")
    case True
    have "lookup_by ep_id eid (alert_episodes db) \<noteq> None"
      unfolding lookup_by_None_iff using e(1,2) by blast
    then show ?thesis using resolve_episode_inv [OF inv s Some later tid(1,3)] Some True
      by (simp add: advance_state_eq)
  next
    case False
    have "ep_opened_at e \<le> at_time" using e(5) later by simp
    then have "state_checks ?s" "state_linked db ?s"
      using chk high0 Some False e(1-4) by (auto simp: state_checks_def state_linked_def)
    from store_state_inv [OF inv s _ _ this] Some False show ?thesis by (auto simp: advance_state_eq)
  qed
qed

section \<open>What evaluation changes\<close>

lemma lookup_by_put [table_simps]:
  "lookup_by key k (update_by key (key r) (\<lambda>_. r) rows) =
     (if k = key r then map_option (\<lambda>_. r) (lookup_by key k rows) else lookup_by key k rows)"
  by (induction rows) (auto simp: update_by_def)

lemma lookup_store_state:
  "lookup_by st_device_id d (alert_states (store_state s db)) =
     (if d = st_device_id s then map_option (\<lambda>_. s) (lookup_by st_device_id d (alert_states db))
      else lookup_by st_device_id d (alert_states db))"
  by (simp add: store_state_def table_simps)

text \<open>Everything but the two alert tables and the episode identity stays as it is.\<close>

definition same_but_alerts :: "database \<Rightarrow> database \<Rightarrow> bool" where
  "same_but_alerts db db' \<longleftrightarrow>
     sites db' = sites db \<and> gateways db' = gateways db \<and> devices db' = devices db
     \<and> telemetry db' = telemetry db \<and> next_telemetry_id db' = next_telemetry_id db"

lemma advance_state_frame:
  assumes "advance_state at_time v tid s db = Inr db'"
  shows "same_but_alerts db db'"
    and "d \<noteq> st_device_id s \<Longrightarrow>
      lookup_by st_device_id d (alert_states db') = lookup_by st_device_id d (alert_states db)"
    and "map st_device_id (alert_states db') = map st_device_id (alert_states db)"
  using assms
  by (auto simp: advance_state_eq open_episode_def resolve_episode_def same_but_alerts_def lookup_store_state
      split: option.splits if_splits)
     (auto simp: store_state_def update_by_def)

lemma advance_state_alarm:
  assumes adv: "advance_state at_time v tid s db = Inr db'" and ok: "state_checks s"
    and row: "lookup_by st_device_id (st_device_id s) (alert_states db) \<noteq> None"
    and link: "state_linked db s"
  shows "\<exists>s'. lookup_by st_device_id (st_device_id s) (alert_states db') = Some s'
    \<and> st_last_event_at s' = at_time \<and> alarm_of_state s' = alarm_step (alarm_of_state s) v"
proof -
  have nat2: "nat k = 2 \<longleftrightarrow> k = 2" for k :: int by auto
  have streaks: "nat (k + 1) = Suc (nat k)" if "0 \<le> k" for k :: int using that by simp
  show ?thesis
  proof (cases "st_active_episode_id s")
    case None
    with adv ok row link show ?thesis
      by (auto simp: advance_state_eq open_episode_def lookup_store_state alarm_of_state_def state_checks_def
          nat2 streaks state_linked_def split: if_splits)
  next
    case (Some eid)
    with adv ok row link show ?thesis
      by (auto simp: advance_state_eq resolve_episode_def lookup_store_state alarm_of_state_def state_checks_def
          nat2 streaks state_linked_def split: if_splits)
  qed
qed

section \<open>Properties of evaluation\<close>

definition unused_reading :: "int \<Rightarrow> database \<Rightarrow> bool" where
  "unused_reading tid db \<longleftrightarrow>
     tid \<in> t_id ` set (telemetry db) \<and> tid \<notin> ep_opening_telemetry_id ` set (alert_episodes db)
     \<and> tid \<notin> set (nonnull ep_resolving_telemetry_id (alert_episodes db))"

lemma cache_ok_Some: "cache_ok states db \<Longrightarrow> states dev = Some ref \<Longrightarrow> ref = dev"
  by (simp add: cache_ok_def)

lemma evaluate_result:
  assumes inv: "alerts_inv db" and cache: "cache_ok states db"
    and dev: "ev_device_id item \<in> d_device_id ` set (devices db)" and tid: "unused_reading tid db"
  obtains (skipped) "\<not> evaluated db item now"
      "evaluate_accepted_reading item tid now states db = Inr (states, db)"
  | (advanced) db' s where "evaluated db item now"
      "evaluate_accepted_reading item tid now states db = Inr (states(ev_device_id item \<mapsto> ev_device_id item), db')"
      "s = state_row db (ev_device_id item) (reading_time item)"
      "advance_state (reading_time item) (ev_value item) tid s
         (with_state db (ev_device_id item) (reading_time item)) = Inr db'"
      "alerts_inv db'" "state_checks s" "state_linked (with_state db (ev_device_id item) (reading_time item)) s"
proof (cases "evaluated db item now")
  case False
  then show ?thesis using skipped evaluate_eq [OF cache] by simp
next
  case True
  let ?dev = "ev_device_id item" and ?t = "reading_time item"
  let ?db = "with_state db ?dev ?t" and ?s = "state_row db ?dev ?t"
  note w = with_state_inv [OF inv dev, of ?t]
  have "st_last_event_at ?s \<le> ?t"
    using True by (auto simp: evaluated_def state_row_def new_state_def split: option.splits)
  then obtain db' where "advance_state ?t (ev_value item) tid ?s ?db = Inr db'" "alerts_inv db'"
    using advance_state_inv [OF w(1,2), of ?t tid] tid by (auto simp: unused_reading_def)
  then show ?thesis
    using advanced [of db' ?s] evaluate_eq [OF cache] True alerts_invD(7,8) [OF w(1) w(2)]
    by (auto simp: state_ok_def)
qed

lemma cache_ok_advance:
  assumes cache: "cache_ok states db"
    and adv: "advance_state t v tid s (with_state db dev t') = Inr db'"
    and s: "s = state_row db dev t'"
  shows "cache_ok (states(dev \<mapsto> dev)) db'"
proof -
  have "st_device_id ` set (alert_states db') = st_device_id ` set (alert_states (with_state db dev t'))"
    using advance_state_frame(3) [OF adv] by (metis list.set_map)
  also have "\<dots> = insert dev (st_device_id ` set (alert_states db))"
    by (auto simp: with_state_def new_state_def split: option.splits dest: lookup_by_SomeD)
  finally show ?thesis using cache by (auto simp: cache_ok_def)
qed

section \<open>Correctness of one evaluation\<close>

definition cursor_of :: "database \<Rightarrow> string \<Rightarrow> usec option" where
  "cursor_of db dev = map_option st_last_event_at (lookup_by st_device_id dev (alert_states db))"

lemma evaluate_ok:
  assumes "alerts_inv db" and "cache_ok states db" and "unused_reading telemetry_id db"
    and "ev_device_id item \<in> d_device_id ` set (devices db)"
  shows "\<exists>states' db'. evaluate_accepted_reading item telemetry_id now states db = Inr (states', db')
    \<and> alerts_inv db' \<and> cache_ok states' db' \<and> same_but_alerts db db'"
  using assms(1,2,4,3)
proof (cases rule: evaluate_result [where now = now])
  case skipped
  with assms show ?thesis by (auto simp: same_but_alerts_def)
next
  case (advanced db' s)
  have "same_but_alerts db db'"
    using advance_state_frame(1) [OF advanced(4)] by (simp add: same_but_alerts_def)
  then show ?thesis using advanced cache_ok_advance [OF assms(2) advanced(4,3)]
    by auto
qed

lemma evaluate_alarm:
  assumes "alerts_inv db" and "cache_ok states db" and "unused_reading telemetry_id db"
    and "ev_device_id item \<in> d_device_id ` set (devices db)"
    and "evaluate_accepted_reading item telemetry_id now states db = Inr (states', db')"
  shows "alarm_of db' dev =
      (if dev = ev_device_id item \<and> evaluated db item now
       then alarm_step (alarm_of db dev) (ev_value item) else alarm_of db dev)
    \<and> cursor_of db' dev =
      (if dev = ev_device_id item \<and> evaluated db item now then Some (reading_time item)
       else cursor_of db dev)"
  using assms(1,2,4,3)
proof (cases rule: evaluate_result [where now = now])
  case skipped
  with assms(5) show ?thesis by simp
next
  case (advanced db'' s)
  have same: "db'' = db'" using advanced(2) assms(5) by simp
  have s_dev: "st_device_id s = ev_device_id item"
    using with_state_inv(3) [OF assms(1,4)] advanced(3) by simp
  show ?thesis
  proof (cases "dev = ev_device_id item")
    case True
    have "lookup_by st_device_id (ev_device_id item) (alert_states (with_state db (ev_device_id item) (reading_time item))) \<noteq> None"
      by (auto simp: with_state_def new_state_def table_simps split: option.splits)
    then obtain s' where "lookup_by st_device_id (ev_device_id item) (alert_states db') = Some s'"
        "st_last_event_at s' = reading_time item" "alarm_of_state s' = alarm_step (alarm_of_state s) (ev_value item)"
      using advance_state_alarm [OF advanced(4,6) _ advanced(7)] s_dev same by auto
    moreover have "alarm_of db (ev_device_id item) = alarm_of_state s"
      by (simp add: alarm_of_def advanced(3) state_row_def new_state_def alarm_of_state_def split: option.splits)
    ultimately show ?thesis using True advanced(1) by (simp add: alarm_of_def cursor_of_def)
  next
    case False
    have "lookup_by st_device_id dev (alert_states db') = lookup_by st_device_id dev (alert_states db)"
      using advance_state_frame(2) [OF advanced(4), of dev] False s_dev same
      by (auto simp: with_state_def new_state_def table_simps split: option.splits)
    with False show ?thesis by (simp add: alarm_of_def cursor_of_def)
  qed
qed

section \<open>The alarm over a whole history\<close>

abbreviation run_alarm :: "rat list \<Rightarrow> alarm" where
  "run_alarm \<equiv> foldl alarm_step (Normal 0)"

fun in_alarm :: "alarm \<Rightarrow> bool" where
  "in_alarm (Normal n) = False"
| "in_alarm (Alarm n) = True"

definition three_in_a_row :: "(rat \<Rightarrow> bool) \<Rightarrow> rat list \<Rightarrow> bool" where
  "three_in_a_row P vs \<longleftrightarrow> (\<exists>ys a b c zs. vs = ys @ [a, b, c] @ zs \<and> P a \<and> P b \<and> P c)"

text \<open>Three consecutive high readings after which no three consecutive readings recovered.\<close>

definition alarmed :: "rat list \<Rightarrow> bool" where
  "alarmed vs \<longleftrightarrow>
     (\<exists>ys a b c zs. vs = ys @ [a, b, c] @ zs \<and> a > 30 \<and> b > 30 \<and> c > 30
        \<and> \<not> three_in_a_row (\<lambda>v. v < 28) zs)"

definition trail :: "(rat \<Rightarrow> bool) \<Rightarrow> rat list \<Rightarrow> nat" where
  "trail P vs = length (takeWhile P (rev vs))"

lemma trail_simps [simp]: "trail P [] = 0" "trail P (vs @ [v]) = (if P v then Suc (trail P vs) else 0)"
  by (simp_all add: trail_def)

lemma trail_two: "2 \<le> trail P vs \<Longrightarrow> \<exists>ys a b. vs = ys @ [a, b] \<and> P a \<and> P b"
proof (cases vs rule: rev_cases)
  case (snoc us b)
  assume "2 \<le> trail P vs"
  with snoc show ?thesis by (cases us rule: rev_cases) (auto simp: trail_def split: if_splits)
qed simp

lemma three_prefix: "three_in_a_row P vs \<Longrightarrow> three_in_a_row P (vs @ ws)"
  unfolding three_in_a_row_def by (metis append_assoc)

lemma three_snoc:
  "three_in_a_row P (vs @ [v]) \<longleftrightarrow> three_in_a_row P vs \<or> P v \<and> 2 \<le> trail P vs"
proof
  assume "three_in_a_row P (vs @ [v])"
  then obtain ys a b c zs where eq: "vs @ [v] = ys @ [a, b, c] @ zs" and P: "P a" "P b" "P c"
    by (auto simp: three_in_a_row_def)
  show "three_in_a_row P vs \<or> P v \<and> 2 \<le> trail P vs"
  proof (cases zs rule: rev_cases)
    case Nil
    then have "vs = (ys @ [a]) @ [b]" "v = c" using eq by simp_all
    then show ?thesis using P by (simp only: trail_simps) simp
  next
    case (snoc us u)
    then have "vs = ys @ [a, b, c] @ us" using eq by simp
    then show ?thesis using P unfolding three_in_a_row_def by blast
  qed
next
  assume "three_in_a_row P vs \<or> P v \<and> 2 \<le> trail P vs"
  then show "three_in_a_row P (vs @ [v])"
  proof
    assume "P v \<and> 2 \<le> trail P vs"
    then obtain ys a b where "vs = ys @ [a, b]" "P a" "P b" "P v" using trail_two by blast
    then have "vs @ [v] = ys @ [a, b, v] @ []" by simp
    then show ?thesis using \<open>P a\<close> \<open>P b\<close> \<open>P v\<close> unfolding three_in_a_row_def by blast
  qed (rule three_prefix)
qed

lemma alarm_stays:
  "\<not> three_in_a_row (\<lambda>v. v < 28) zs \<Longrightarrow> foldl alarm_step (Alarm 0) zs = Alarm (trail (\<lambda>v. v < 28) zs)"
  by (induction zs rule: rev_induct) (auto simp: three_snoc)

lemma run_alarm_bound: "run_alarm vs = Normal n \<Longrightarrow> n \<le> 2 \<and> n \<le> trail (\<lambda>v. v > 30) vs"
  "run_alarm vs = Alarm n \<Longrightarrow> n \<le> 2"
proof (induction vs arbitrary: n rule: rev_induct)
  case (snoc v vs)
  { case 1 then show ?case using snoc by (cases "run_alarm vs") (auto split: if_splits) }
  { case 2 then show ?case using snoc by (cases "run_alarm vs") (force split: if_splits)+ }
qed auto

lemma run_after_three:
  assumes "a > 30" "b > 30" "c > 30" shows "run_alarm (ys @ [a, b, c]) = Alarm 0"
proof (cases "run_alarm ys")
  case (Normal n)
  then have "n = 0 \<or> n = 1 \<or> n = 2" using run_alarm_bound(1) by force
  with Normal assms show ?thesis by auto
next
  case (Alarm n)
  with assms show ?thesis by simp
qed

lemma alarmed_run: "alarmed vs \<Longrightarrow> in_alarm (run_alarm vs)"
proof -
  assume "alarmed vs"
  then obtain ys a b c zs where vs: "vs = ys @ [a, b, c] @ zs" and high: "a > 30" "b > 30" "c > 30"
    and low: "\<not> three_in_a_row (\<lambda>v. v < 28) zs"
    by (auto simp: alarmed_def)
  have "run_alarm vs = foldl alarm_step (run_alarm (ys @ [a, b, c])) zs" using vs by simp
  also have "\<dots> = Alarm (trail (\<lambda>v. v < 28) zs)"
    unfolding run_after_three [OF high] by (rule alarm_stays [OF low])
  finally show ?thesis by simp
qed

lemma run_alarmed: "in_alarm (run_alarm vs) \<Longrightarrow> alarmed vs"
proof (induction vs rule: rev_induct)
  case (snoc v vs)
  show ?case
  proof (cases "run_alarm vs")
    case (Normal n)
    with snoc.prems have "v > 30" "n = 2" by (auto split: if_splits)
    moreover obtain ys a b where "vs = ys @ [a, b]" "a > 30" "b > 30"
      using run_alarm_bound(1) [OF Normal] \<open>n = 2\<close> trail_two [of "\<lambda>v. v > 30" vs] by auto
    ultimately have "vs @ [v] = ys @ [a, b, v] @ []" "a > 30 \<and> b > 30 \<and> v > 30"
        "\<not> three_in_a_row (\<lambda>v. v < 28) []"
      by (simp_all add: three_in_a_row_def)
    then show ?thesis unfolding alarmed_def by blast
  next
    case (Alarm n)
    then obtain ys a b c zs where vs: "vs = ys @ [a, b, c] @ zs" and high: "a > 30" "b > 30" "c > 30"
      and low: "\<not> three_in_a_row (\<lambda>v. v < 28) zs"
      using snoc.IH by (auto simp: alarmed_def)
    have "run_alarm vs = foldl alarm_step (run_alarm (ys @ [a, b, c])) zs" using vs by simp
    then have "run_alarm vs = Alarm (trail (\<lambda>v. v < 28) zs)"
      unfolding run_after_three [OF high] alarm_stays [OF low] .
    with Alarm have n: "n = trail (\<lambda>v. v < 28) zs" by simp
    have "\<not> (v < 28 \<and> 2 \<le> n)"
      using snoc.prems Alarm run_alarm_bound(2) [OF Alarm] by (auto split: if_splits)
    then have "\<not> three_in_a_row (\<lambda>v. v < 28) (zs @ [v])" using low n by (simp add: three_snoc)
    moreover have "vs @ [v] = ys @ [a, b, c] @ (zs @ [v])" using vs by simp
    ultimately show ?thesis using high unfolding alarmed_def by blast
  qed
qed simp

lemma in_alarm_iff: "in_alarm (run_alarm vs) \<longleftrightarrow> alarmed vs"
  using alarmed_run run_alarmed by blast

text \<open>Evaluating a sequence of stored readings, each with its telemetry id and arrival time.\<close>

type_synonym arrival = "telemetry_event \<times> int \<times> usec"

fun evaluate_all :: "arrival list \<Rightarrow> state_cache \<Rightarrow> database \<Rightarrow> (string, state_cache \<times> database) result" where
  "evaluate_all [] states db = Inr (states, db)"
| "evaluate_all ((item, tid, now) # rest) states db =
     (case evaluate_accepted_reading item tid now states db of
        Inl x \<Rightarrow> Inl x
      | Inr (states', db') \<Rightarrow> evaluate_all rest states' db')"

text \<open>The values that count for a device: fresh, each strictly later than the last one counted.\<close>

fun counted :: "string \<Rightarrow> usec option \<Rightarrow> (telemetry_event \<times> usec) list \<Rightarrow> rat list" where
  "counted dev cursor [] = []"
| "counted dev cursor ((item, now) # rest) =
     (if ev_device_id item = dev \<and> fresh_reading now (reading_time item)
         \<and> opt_all (\<lambda>c. c < reading_time item) cursor
      then ev_value item # counted dev (Some (reading_time item)) rest
      else counted dev cursor rest)"

text \<open>An arrival without its telemetry id, which evaluation only records.\<close>

abbreviation timed :: "arrival list \<Rightarrow> (telemetry_event \<times> usec) list" where
  "timed rs \<equiv> map (\<lambda>(item, tid, now). (item, now)) rs"

definition arrival_ok :: "database \<Rightarrow> arrival \<Rightarrow> bool" where
  "arrival_ok db a \<longleftrightarrow> (case a of (item, tid, now) \<Rightarrow>
     unused_reading tid db \<and> ev_device_id item \<in> d_device_id ` set (devices db))"

lemma advance_state_uses:
  assumes "advance_state at_time v tid s db = Inr db'" and "unused_reading i db" and "i \<noteq> tid"
  shows "unused_reading i db'"
proof -
  have "telemetry db' = telemetry db"
    using advance_state_frame(1) [OF assms(1)] by (simp add: same_but_alerts_def)
  moreover have "ep_opening_telemetry_id ` set (alert_episodes db')
      \<subseteq> insert tid (ep_opening_telemetry_id ` set (alert_episodes db))"
    using assms(1)
    by (auto simp: advance_state_eq open_episode_def resolve_episode_def set_update_by
        split: option.splits if_splits)
  moreover have "set (nonnull ep_resolving_telemetry_id (alert_episodes db'))
      \<subseteq> insert tid (set (nonnull ep_resolving_telemetry_id (alert_episodes db)))"
    using assms(1)
    by (auto simp: advance_state_eq open_episode_def resolve_episode_def set_nonnull set_update_by
        split: option.splits if_splits)
  ultimately show ?thesis using assms(2,3) unfolding unused_reading_def by auto
qed

lemma unused_with_state [simp]: "unused_reading i (with_state db dev t) \<longleftrightarrow> unused_reading i db"
  by (simp add: unused_reading_def)

lemma evaluate_uses:
  assumes "cache_ok states db" and "evaluate_accepted_reading item tid now states db = Inr (states', db')"
    and "unused_reading i db" and "i \<noteq> tid"
  shows "unused_reading i db'"
  using assms(2,3) advance_state_uses [OF _ _ assms(4)]
  by (auto simp: evaluate_eq [OF assms(1)] split: if_splits sum.splits)

lemma evaluated_cursor:
  "evaluated db item now \<longleftrightarrow> fresh_reading now (reading_time item)
     \<and> opt_all (\<lambda>c. c < reading_time item) (cursor_of db (ev_device_id item))"
  by (auto simp: evaluated_def cursor_of_def split: option.splits)

lemma evaluate_step:
  assumes "alerts_inv db" and "cache_ok states db" and "unused_reading tid db"
    and "ev_device_id item \<in> d_device_id ` set (devices db)"
  shows "\<exists>states' db'. evaluate_accepted_reading item tid now states db = Inr (states', db')
    \<and> alerts_inv db' \<and> cache_ok states' db' \<and> same_but_alerts db db'
    \<and> (\<forall>dev. alarm_of db' dev = (if dev = ev_device_id item \<and> evaluated db item now
         then alarm_step (alarm_of db dev) (ev_value item) else alarm_of db dev)
       \<and> cursor_of db' dev = (if dev = ev_device_id item \<and> evaluated db item now
         then Some (reading_time item) else cursor_of db dev))"
proof -
  obtain states' db' where r: "evaluate_accepted_reading item tid now states db = Inr (states', db')"
      "alerts_inv db'" "cache_ok states' db'" "same_but_alerts db db'"
    using evaluate_ok [OF assms, of now] by blast
  with evaluate_alarm [OF assms r(1)] show ?thesis by blast
qed

lemma evaluate_all_refines:
  assumes "alerts_inv db" and "cache_ok states db" and "\<And>a. a \<in> set rs \<Longrightarrow> arrival_ok db a"
    and "distinct (map (\<lambda>(item, tid, now). tid) rs)"
  shows "\<exists>states' db'. evaluate_all rs states db = Inr (states', db') \<and> alerts_inv db'
    \<and> alarm_of db' dev = foldl alarm_step (alarm_of db dev) (counted dev (cursor_of db dev) (timed rs))"
  using assms
proof (induction rs arbitrary: states db)
  case (Cons r rs)
  obtain item tid now where r: "r = (item, tid, now)" by (cases r)
  have u: "unused_reading tid db" and d: "ev_device_id item \<in> d_device_id ` set (devices db)"
    using Cons.prems(3) [of r] r by (simp_all add: arrival_ok_def)
  obtain states' db' where step: "evaluate_accepted_reading item tid now states db = Inr (states', db')"
      "alerts_inv db'" "cache_ok states' db'" "same_but_alerts db db'"
      "\<And>dev. alarm_of db' dev = (if dev = ev_device_id item \<and> evaluated db item now
         then alarm_step (alarm_of db dev) (ev_value item) else alarm_of db dev)"
      "\<And>dev. cursor_of db' dev = (if dev = ev_device_id item \<and> evaluated db item now
         then Some (reading_time item) else cursor_of db dev)"
    using evaluate_step [OF Cons.prems(1,2) u d, where now = now] by blast
  have "arrival_ok db' a" if a: "a \<in> set rs" for a
  proof -
    obtain i t n where a': "a = (i, t, n)" by (cases a)
    then have "t \<noteq> tid" using Cons.prems(4) a r by force
    then show ?thesis using evaluate_uses [OF Cons.prems(2) step(1)] Cons.prems(3) [of a] a a' step(4)
      by (simp add: arrival_ok_def same_but_alerts_def)
  qed
  then obtain st db'' where rest: "evaluate_all rs states' db' = Inr (st, db'')" "alerts_inv db''"
      "alarm_of db'' dev = foldl alarm_step (alarm_of db' dev) (counted dev (cursor_of db' dev) (timed rs))"
    using Cons.IH [OF step(2,3)] Cons.prems(4) by auto
  have "foldl alarm_step (alarm_of db' dev) (counted dev (cursor_of db' dev) (timed rs))
      = foldl alarm_step (alarm_of db dev) (counted dev (cursor_of db dev) (timed (r # rs)))"
    using step(5,6) [of dev] by (auto simp: r evaluated_cursor)
  with rest step(1) r show ?case by simp
qed simp

lemma alarm_open:
  assumes inv: "alerts_inv db"
  shows "in_alarm (alarm_of db dev) \<longleftrightarrow> (\<exists>e \<in> set (alert_episodes db). ep_device_id e = dev \<and> is_open e)"
proof
  assume "in_alarm (alarm_of db dev)"
  then obtain s i where s: "lookup_by st_device_id dev (alert_states db) = Some s" "st_active_episode_id s = Some i"
    by (auto simp: alarm_of_def alarm_of_state_def split: option.splits)
  then have "state_linked db s" "st_device_id s = dev"
    using alerts_invD(8) [OF inv] lookup_by_SomeD [OF s(1)] by auto
  with s(2) show "\<exists>e \<in> set (alert_episodes db). ep_device_id e = dev \<and> is_open e"
    by (auto simp: state_linked_def)
next
  assume "\<exists>e \<in> set (alert_episodes db). ep_device_id e = dev \<and> is_open e"
  then obtain e where e: "e \<in> set (alert_episodes db)" "ep_device_id e = dev" "is_open e" by blast
  then obtain s where s: "s \<in> set (alert_states db)" "st_device_id s = dev" "st_active_episode_id s = Some (ep_id e)"
    using alerts_invD(6) [OF inv e(1)] by (auto simp: episode_linked_def)
  then have "lookup_by st_device_id dev (alert_states db) = Some s"
    using alerts_invD(2) [OF inv] by (simp add: lookup_by_Some_iff)
  with s(3) show "in_alarm (alarm_of db dev)" by (simp add: alarm_of_def alarm_of_state_def)
qed

section \<open>Properties\<close>

text \<open>A small database: one device with four readings, used by the examples below.\<close>

definition demo_quality :: telemetry_quality where
  "demo_quality = \<lparr>q_reading = ''valid'', q_clock = ''unsynchronised''\<rparr>"

definition demo_reading :: "int \<Rightarrow> rat \<Rightarrow> usec \<Rightarrow> telemetry_event" where
  "demo_reading n v at_time = \<lparr>ev_device_id = ''d1'', ev_boot_id = ''b'', ev_sequence_number = n,
     ev_measured_at = None, ev_device_uptime_ms = 0, ev_gateway_received_at = at_time,
     ev_metric = ''temperature'', ev_value = v, ev_unit = ''celsius'', ev_quality = demo_quality\<rparr>"

definition demo_db :: database where
  "demo_db = empty_database\<lparr>
     sites := [\<lparr>s_site_id = ''s1'', s_name = ''Site'', s_enabled = True\<rparr>],
     gateways := [\<lparr>g_gateway_id = ''g1'', g_site_id = ''s1'', g_name = ''Gateway'', g_enabled = True\<rparr>],
     devices := [\<lparr>d_device_id = ''d1'', d_gateway_id = ''g1'', d_name = ''Device'', d_enabled = True,
       d_password_hash = None, d_mqtt_managed = False, d_last_seen_at = None\<rparr>],
     telemetry := [event_row 1 100 1 (demo_reading 1 31 100), event_row 2 200 1 (demo_reading 2 31 200),
       event_row 3 300 1 (demo_reading 3 31 300), event_row 4 400 1 (demo_reading 4 25 400)],
     next_telemetry_id := 5\<rparr>"

text \<open>The same database after two high readings.\<close>

definition demo_streak :: database where
  "demo_streak = demo_db\<lparr>alert_states := [\<lparr>st_device_id = ''d1'', st_last_event_at = 200,
     st_high_streak = 2, st_recovery_streak = 0, st_active_episode_id = None\<rparr>]\<rparr>"

lemmas demo_defs = demo_db_def demo_streak_def demo_reading_def demo_quality_def empty_database_def
  event_row_def

lemma demo_streak_inv: "alerts_inv demo_streak" "cache_ok Map.empty demo_streak"
    "unused_reading 3 demo_streak" "''d1'' \<in> d_device_id ` set (devices demo_streak)"
  by (simp_all add: alerts_inv_def cache_ok_def unused_reading_def state_ok_def state_linked_def
      state_checks_def demo_defs nonnull_def)

text \<open>
  C6. Evaluating an accepted reading of a registered device never fails, and keeps the invariant
  of the alert tables, hence every key, CHECK, foreign key and the one-open-episode-per-device
  index: no constraint can fail at the flush. Nothing outside the alert tables changes, and the
  session's state cache stays consistent. The reading must be stored and not yet be the opening or
  resolving reading of an episode, which ingestion guarantees for a row it just inserted.
\<close>

theorem evaluate_preserves_alerts:
  assumes "alerts_inv db" and "cache_ok states db" and "unused_reading telemetry_id db"
    and "ev_device_id item \<in> d_device_id ` set (devices db)"
  shows "\<exists>states' db'. evaluate_accepted_reading item telemetry_id now states db = Inr (states', db')
    \<and> alerts_inv db' \<and> alerts_ok db' \<and> cache_ok states' db' \<and> same_but_alerts db db'"
  using evaluate_ok [OF assms, of now] alerts_inv_ok by blast

theorem evaluate_preserves_alerts_witness:
  "\<exists>states' db'. evaluate_accepted_reading (demo_reading 3 31 300) 3 400 Map.empty demo_streak = Inr (states', db')
    \<and> alerts_inv db' \<and> alerts_ok db' \<and> cache_ok states' db' \<and> same_but_alerts demo_streak db'"
  by (rule evaluate_preserves_alerts [OF demo_streak_inv(1-3)]) (simp add: demo_defs)

text \<open>
  C7. Refinement: the stored state implements the debounced two-mode alarm. An evaluated reading
  (fresh, later than the cursor of its device) advances the alarm of its own device by one step of
  the abstract machine and moves the cursor to its event time; any other reading, and every other
  device, leaves alarm and cursor unchanged.
\<close>

theorem evaluate_refines_alarm:
  assumes "alerts_inv db" and "cache_ok states db" and "unused_reading telemetry_id db"
    and "ev_device_id item \<in> d_device_id ` set (devices db)"
    and "evaluate_accepted_reading item telemetry_id now states db = Inr (states', db')"
  shows "alarm_of db' dev =
      (if dev = ev_device_id item \<and> evaluated db item now
       then alarm_step (alarm_of db dev) (ev_value item) else alarm_of db dev)
    \<and> cursor_of db' dev =
      (if dev = ev_device_id item \<and> evaluated db item now then Some (reading_time item)
       else cursor_of db dev)"
  using evaluate_alarm [OF assms] .

text \<open>The third high reading in a row opens an episode.\<close>

theorem evaluate_refines_alarm_witness:
  "\<exists>states' db'. evaluate_accepted_reading (demo_reading 3 31 300) 3 400 Map.empty demo_streak = Inr (states', db')
    \<and> alarm_of demo_streak ''d1'' = Normal 2 \<and> alarm_of db' ''d1'' = Alarm 0"
proof -
  obtain states' db' where r: "evaluate_accepted_reading (demo_reading 3 31 300) 3 400 Map.empty demo_streak
      = Inr (states', db')"
    by (simp add: evaluate_accepted_reading_def cached_state_def advance_state_def Let_def fresh_reading_def
        reading_time_def MAX_READING_AGE_def MAX_FUTURE_SKEW_def minutes_def seconds_def threshold_defs demo_defs)
  have "alarm_of demo_streak ''d1'' = Normal 2" by (simp add: alarm_of_def alarm_of_state_def demo_defs)
  moreover have "evaluated demo_streak (demo_reading 3 31 300) 400"
    by (simp add: evaluated_def fresh_reading_def reading_time_def MAX_READING_AGE_def MAX_FUTURE_SKEW_def
        minutes_def seconds_def demo_defs)
  ultimately show ?thesis
    using evaluate_refines_alarm [OF demo_streak_inv(1-3) _ r, of "''d1''"] r
    by (simp add: demo_reading_def demo_streak_def demo_db_def)
qed


text \<open>
  C5. Over a whole history: from a database in which the device has no alert state, evaluating any
  stored readings with distinct ids (of any registered devices) succeeds, and the device has an open
  episode at the end exactly when, among the readings that count for it, three consecutive ones
  were above 30 and no three consecutive ones after them were below 28.
\<close>

theorem episode_open_iff_alarmed:
  assumes "alerts_inv db" and "lookup_by st_device_id dev (alert_states db) = None"
    and "\<forall>a \<in> set rs. arrival_ok db a" and "distinct (map (\<lambda>(item, tid, now). tid) rs)"
  shows "\<exists>states db'. evaluate_all rs Map.empty db = Inr (states, db')
    \<and> ((\<exists>e \<in> set (alert_episodes db'). ep_device_id e = dev \<and> is_open e)
         \<longleftrightarrow> alarmed (counted dev None (timed rs)))"
proof -
  have "cache_ok Map.empty db" by (simp add: cache_ok_def)
  then obtain states db' where r: "evaluate_all rs Map.empty db = Inr (states, db')" "alerts_inv db'"
      "alarm_of db' dev = foldl alarm_step (alarm_of db dev) (counted dev (cursor_of db dev) (timed rs))"
    using evaluate_all_refines [OF assms(1) _ _ assms(4), of Map.empty dev] assms(3) by blast
  have "alarm_of db dev = Normal 0" "cursor_of db dev = None"
    using assms(2) by (simp_all add: alarm_of_def cursor_of_def)
  with r alarm_open [OF r(2), of dev] in_alarm_iff show ?thesis by auto
qed

definition demo_arrivals :: "arrival list" where
  "demo_arrivals = [(demo_reading 1 31 100, 1, 150), (demo_reading 2 31 200, 2, 250), (demo_reading 3 31 300, 3, 350),
     (demo_reading 4 25 400, 4, 450)]"

theorem episode_open_iff_alarmed_witness:
  "\<exists>states db'. evaluate_all demo_arrivals Map.empty demo_db = Inr (states, db')
    \<and> (\<exists>e \<in> set (alert_episodes db'). ep_device_id e = ''d1'' \<and> is_open e)"
proof -
  have inv: "alerts_inv demo_db" by (simp add: alerts_inv_def demo_defs)
  have "lookup_by st_device_id ''d1'' (alert_states demo_db) = None" by (simp add: demo_defs)
  moreover have "\<forall>a \<in> set demo_arrivals. arrival_ok demo_db a"
    by (simp add: demo_arrivals_def arrival_ok_def unused_reading_def demo_defs)
  moreover have "distinct (map (\<lambda>(item, tid, now). tid) demo_arrivals)" by (simp add: demo_arrivals_def)
  moreover have "counted ''d1'' None (timed demo_arrivals) = [] @ [31, 31, 31] @ [25]"
    by (simp add: demo_arrivals_def fresh_reading_def reading_time_def MAX_READING_AGE_def
        MAX_FUTURE_SKEW_def minutes_def seconds_def demo_defs)
  moreover have "alarmed ([] @ [31, 31, 31] @ [25])"
  proof -
    have "\<not> three_in_a_row (\<lambda>v. v < 28) ([] @ [25])" by (simp only: three_snoc) (simp add: three_in_a_row_def)
    then show ?thesis unfolding alarmed_def by fastforce
  qed
  ultimately show ?thesis using episode_open_iff_alarmed [OF inv] by metis
qed

section \<open>The episode list\<close>

lemma episode_status_row:
  assumes inv: "alerts_inv db" and e: "e \<in> set (alert_episodes db)"
  shows "\<exists>d r. lookup_by d_device_id (ep_device_id e) (devices db) = Some d
    \<and> lookup_by t_id (ep_opening_telemetry_id e) (telemetry db) = Some r"
proof -
  have "lookup_by d_device_id (ep_device_id e) (devices db) \<noteq> None"
    "lookup_by t_id (ep_opening_telemetry_id e) (telemetry db) \<noteq> None"
    using alerts_invD(5) [OF inv e] by (simp_all only: lookup_by_None_iff episode_ok_def not_not)
  then show ?thesis by blast
qed

lemma map_concat_single:
  assumes "\<And>x. x \<in> set xs \<Longrightarrow> \<exists>y. f x = [y] \<and> h y = g x"
  shows "map h (concat (map f xs)) = map g xs"
  using assms by (induction xs) force+

lemma episode_statuses_rows:
  assumes "alerts_inv db"
  shows "map (\<lambda>r. (es_id r, es_device_id r, es_opened_at r, es_resolved_at r, es_active r)) (episode_statuses db)
    = map (\<lambda>e. (ep_id e, ep_device_id e, ep_opened_at e, ep_resolved_at e, is_open e)) (alert_episodes db)"
  unfolding episode_statuses_def
proof (rule map_concat_single)
  fix e assume "e \<in> set (alert_episodes db)"
  from episode_status_row [OF assms this]
  show "\<exists>y. (case (lookup_by d_device_id (ep_device_id e) (devices db),
        lookup_by t_id (ep_opening_telemetry_id e) (telemetry db)) of
        (Some d, Some opening) \<Rightarrow>
          [\<lparr>es_id = ep_id e, es_device_id = ep_device_id e, es_device_name = d_name d,
            es_active = is_open e, es_opened_at = ep_opened_at e,
            es_opening_value = t_value opening, es_resolved_at = ep_resolved_at e,
            es_resolving_value =
              (case ep_resolving_telemetry_id e of None \<Rightarrow> None
               | Some i \<Rightarrow> map_option t_value (lookup_by t_id i (telemetry db)))\<rparr>]
      | _ \<Rightarrow> []) = [y]
      \<and> (es_id y, es_device_id y, es_opened_at y, es_resolved_at y, es_active y)
        = (ep_id e, ep_device_id e, ep_opened_at e, ep_resolved_at e, is_open e)"
    by auto
qed

definition newer_episode :: "episode_status \<Rightarrow> episode_status \<Rightarrow> bool" where
  "newer_episode r q \<longleftrightarrow> (es_active q, es_opened_at q, es_id q) < (es_active r, es_opened_at r, es_id r)"

lemma active_count_alarms:
  assumes inv: "alerts_inv db"
  shows "length (filter is_open (alert_episodes db)) = card {dev. in_alarm (alarm_of db dev)}"
proof -
  have "{dev. in_alarm (alarm_of db dev)} = ep_device_id ` set (filter is_open (alert_episodes db))"
    using alarm_open [OF inv] by auto
  moreover have "distinct (map ep_device_id (filter is_open (alert_episodes db)))"
    using alerts_inv_ok [OF inv] by (simp add: alerts_ok_def)
  ultimately show ?thesis by (metis distinct_card length_map list.set_map)
qed

text \<open>
  C22. The episode list of a consistent database: no join drops an episode, so it has
  \<open>min limit n\<close> of the \<open>n\<close> stored ones; active episodes come first, each group from the most
  recently opened; an episode that is left out is not newer than any that is shown; and the active
  count, which the limit does not cut, is the number of devices in alarm.
\<close>

theorem list_alert_episodes_correct:
  assumes "alerts_inv db"
  shows "length (al_episodes (list_alert_episodes db limit)) = min limit (length (alert_episodes db))
    \<and> sorted_wrt newer_episode (al_episodes (list_alert_episodes db limit))
    \<and> (\<forall>r \<in> set (al_episodes (list_alert_episodes db limit)). \<exists>e \<in> set (alert_episodes db).
         es_id r = ep_id e \<and> es_device_id r = ep_device_id e \<and> es_opened_at r = ep_opened_at e
         \<and> es_resolved_at r = ep_resolved_at e \<and> es_active r = is_open e)
    \<and> (\<forall>e \<in> set (alert_episodes db). ep_id e \<notin> es_id ` set (al_episodes (list_alert_episodes db limit)) \<longrightarrow>
         (\<forall>r \<in> set (al_episodes (list_alert_episodes db limit)).
            (is_open e, ep_opened_at e, ep_id e) \<le> (es_active r, es_opened_at r, es_id r)))
    \<and> al_active_count (list_alert_episodes db limit) = card {dev. in_alarm (alarm_of db dev)}"
proof -
  let ?rows = "episode_statuses db" and ?key = "\<lambda>r. (es_active r, es_opened_at r, es_id r)"
  let ?all = "order_desc ?key ?rows" and ?es = "al_episodes (list_alert_episodes db limit)"
  let ?f = "\<lambda>r. (es_id r, es_device_id r, es_opened_at r, es_resolved_at r, es_active r)"
    and ?g = "\<lambda>e. (ep_id e, ep_device_id e, ep_opened_at e, ep_resolved_at e, is_open e)"
  note rows = episode_statuses_rows [OF assms]
  have es: "?es = take limit ?all" by (simp add: list_alert_episodes_def)
  have "map (fst \<circ> ?f) ?rows = map (fst \<circ> ?g) (alert_episodes db)"
    using arg_cong [OF rows, of "map fst"] by (simp only: map_map)
  then have ids: "map es_id ?rows = map ep_id (alert_episodes db)" by (simp add: comp_def)
  have image: "?f ` set ?rows = ?g ` set (alert_episodes db)"
    using arg_cong [OF rows, of set] by (simp only: list.set_map)
  have "distinct (map ((snd \<circ> snd) \<circ> ?key) ?rows)"
    using ids alerts_invD(1) [OF assms] by (simp add: comp_def)
  then have "distinct (map ?key ?rows)" by (simp only: map_map [symmetric] distinct_map)
  then have "sorted_wrt (\<lambda>r q. ?key q < ?key r) ?all" by (rule sorted_wrt_order_desc)
  moreover have "newer_episode = (\<lambda>r q. ?key q < ?key r)" by (intro ext) (simp only: newer_episode_def)
  ultimately have newest: "sorted_wrt newer_episode ?es" by (simp only: es sorted_wrt_take)
  have len: "length ?es = min limit (length (alert_episodes db))"
    using arg_cong [OF ids, of length] by (simp add: es min.commute)
  have shown: "\<exists>e \<in> set (alert_episodes db). es_id r = ep_id e \<and> es_device_id r = ep_device_id e
      \<and> es_opened_at r = ep_opened_at e \<and> es_resolved_at r = ep_resolved_at e \<and> es_active r = is_open e"
    if "r \<in> set ?es" for r
  proof -
    have "r \<in> set ?rows" using that set_take_subset [of limit ?all] by (auto simp: es)
    then have "?f r \<in> ?g ` set (alert_episodes db)" using image by blast
    then show ?thesis by blast
  qed
  have dropped: "(is_open e, ep_opened_at e, ep_id e) \<le> ?key r"
    if e: "e \<in> set (alert_episodes db)" "ep_id e \<notin> es_id ` set ?es" and r: "r \<in> set ?es" for e r
  proof -
    have "?g e \<in> ?f ` set ?rows" using e(1) image by blast
    then obtain q where q: "q \<in> set ?rows" "?g e = ?f q" by blast
    then have "es_id q = ep_id e" by simp
    then have "q \<notin> set ?es" using e(2) by (metis imageI)
    moreover have "set ?rows = set ?es \<union> set (drop limit ?all)"
      unfolding es set_append [symmetric] append_take_drop_id by simp
    ultimately have "q \<in> set (drop limit ?all)" using q(1) by blast
    moreover have "r \<in> set (take limit ?all)" using r es by simp
    ultimately have "?key q \<le> ?key r"
      using take_order_desc_ge [where key = ?key and s = q and r = r] by (simp only:)
    moreover have "(is_open e, ep_opened_at e, ep_id e) = ?key q" using q(2) by (simp only: prod.inject)
    ultimately show ?thesis by (simp only:)
  qed
  have "al_active_count (list_alert_episodes db limit) = card {dev. in_alarm (alarm_of db dev)}"
    using active_count_alarms [OF assms] by (simp add: list_alert_episodes_def)
  with len newest shown dropped show ?thesis by blast
qed

text \<open>An open episode after the fourth reading, which resolved nothing.\<close>

definition demo_alarm :: database where
  "demo_alarm = demo_db\<lparr>
     alert_episodes := [\<lparr>ep_id = 1, ep_device_id = ''d1'', ep_opened_at = 300, ep_resolved_at = None,
       ep_opening_telemetry_id = 3, ep_resolving_telemetry_id = None\<rparr>],
     alert_states := [\<lparr>st_device_id = ''d1'', st_last_event_at = 400, st_high_streak = 0,
       st_recovery_streak = 1, st_active_episode_id = Some 1\<rparr>],
     next_episode_id := 2\<rparr>"

theorem list_alert_episodes_correct_witness:
  "alerts_inv demo_alarm \<and> length (al_episodes (list_alert_episodes demo_alarm 20)) = 1
    \<and> al_active_count (list_alert_episodes demo_alarm 20) = card {dev. in_alarm (alarm_of demo_alarm dev)}"
proof -
  have inv: "alerts_inv demo_alarm"
    by (simp add: alerts_inv_def demo_alarm_def episode_ok_def episode_linked_def state_ok_def state_linked_def
        state_checks_def episode_checks_def is_open_def nonnull_def demo_defs)
  have "length (alert_episodes demo_alarm) = 1" by (simp add: demo_alarm_def)
  with inv list_alert_episodes_correct [OF inv, of 20] show ?thesis by simp
qed

end
