(* ===== verification/Scan.thy ===== *)
theory Scan
  imports Prelude
begin

text \<open>
  Sequential loops that collect one result per item and may be ended by an error: the shape of the
  ingestion loop, the simulator's batches and the registry seed. The loops of the program are
  instances of \<open>res_scan\<close>; what their bodies promise is stated as locales.
\<close>

fun res_scan :: "(nat \<Rightarrow> 'i \<Rightarrow> 's \<Rightarrow> ('e, 'r \<times> 's) result) \<Rightarrow> nat \<Rightarrow> 'i list \<Rightarrow> 's
    \<Rightarrow> ('e, 'r list \<times> 's) result" where
  "res_scan step index [] s = Inr ([], s)"
| "res_scan step index (x # xs) s =
     (case step index x s of
        Inl e \<Rightarrow> Inl e
      | Inr (r, s') \<Rightarrow>
          (case res_scan step (Suc index) xs s' of
             Inl e \<Rightarrow> Inl e
           | Inr (rs, s'') \<Rightarrow> Inr (r # rs, s'')))"

lemma res_scan_ConsE:
  assumes "res_scan step index (x # xs) s = Inr (rs, s'')"
  obtains r s' rs' where "step index x s = Inr (r, s')" "res_scan step (Suc index) xs s' = Inr (rs', s'')"
    "rs = r # rs'"
  using assms by (auto split: sum.splits prod.splits)

lemma res_scan_length: "res_scan step index xs s = Inr (rs, s') \<Longrightarrow> length rs = length xs"
  by (induction xs arbitrary: index s rs) (auto split: sum.splits prod.splits)

lemma res_scan_append:
  "res_scan step index (xs @ ys) s = Inr (rs, s') \<longleftrightarrow>
     (\<exists>rs1 rs2 t. res_scan step index xs s = Inr (rs1, t)
        \<and> res_scan step (index + length xs) ys t = Inr (rs2, s') \<and> rs = rs1 @ rs2)"
proof (induction xs arbitrary: index s rs)
  case (Cons x xs)
  have "res_scan step index ((x # xs) @ ys) s = Inr (rs, s') \<longleftrightarrow>
      (\<exists>r t rs'. step index x s = Inr (r, t) \<and> res_scan step (Suc index) (xs @ ys) t = Inr (rs', s') \<and> rs = r # rs')"
    by (auto split: sum.splits prod.splits)
  also have "\<dots> \<longleftrightarrow> (\<exists>rs1 rs2 t. res_scan step index (x # xs) s = Inr (rs1, t)
        \<and> res_scan step (index + length (x # xs)) ys t = Inr (rs2, s') \<and> rs = rs1 @ rs2)"
    unfolding Cons.IH by (fastforce split: sum.splits prod.splits)
  finally show ?case .
qed auto

text \<open>A body that, from a state with the invariant, returns on every admissible item and keeps it.\<close>

locale guarded_scan =
  fixes step :: "nat \<Rightarrow> 'i \<Rightarrow> 's \<Rightarrow> ('e, 'r \<times> 's) result"
    and inv :: "'s \<Rightarrow> bool" and admissible :: "'i \<Rightarrow> bool" and promise :: "'i \<Rightarrow> 'r \<Rightarrow> bool"
  assumes step_ok: "inv s \<Longrightarrow> admissible x \<Longrightarrow>
    \<exists>r s'. step index x s = Inr (r, s') \<and> inv s' \<and> promise x r"
begin

lemma step_inv:
  assumes "inv s" "admissible x" "step index x s = Inr (r, s')"
  shows "inv s'" "promise x r"
  using step_ok [OF assms(1,2), of index] assms(3) by auto

lemma scan_ok:
  assumes "inv s" and "list_all admissible xs"
  shows "\<exists>rs s'. res_scan step index xs s = Inr (rs, s') \<and> inv s' \<and> list_all2 promise xs rs"
  using assms
proof (induction xs arbitrary: index s)
  case (Cons x xs)
  have "admissible x" using Cons.prems(2) by simp
  with step_ok [OF Cons.prems(1), of x index] obtain r s' where
      st: "step index x s = Inr (r, s')" "inv s'" "promise x r" by blast
  from Cons.IH [OF st(2), of "Suc index"] Cons.prems(2) obtain rs s'' where
      "res_scan step (Suc index) xs s' = Inr (rs, s'')" "inv s''" "list_all2 promise xs rs" by auto
  with st show ?case by simp
qed simp

text \<open>A relation between states that every step extends.\<close>

lemma scan_relates:
  assumes refl: "\<And>s. rel s s" and trans: "\<And>a b c. rel a b \<Longrightarrow> rel b c \<Longrightarrow> rel a c"
    and step: "\<And>index x s r s'. inv s \<Longrightarrow> admissible x \<Longrightarrow> step index x s = Inr (r, s') \<Longrightarrow> rel s s'"
    and "inv s" and "list_all admissible xs" and "res_scan step index xs s = Inr (rs, s')"
  shows "rel s s'"
  using assms(4-6)
proof (induction xs arbitrary: index s rs)
  case Nil
  then show ?case using refl by simp
next
  case (Cons x xs)
  from Cons.prems(3) obtain r t rs' where t: "step index x s = Inr (r, t)"
      "res_scan step (Suc index) xs t = Inr (rs', s')" by (rule res_scan_ConsE)
  have "rel s t" "inv t" using step [OF _ _ t(1)] step_inv(1) [OF _ _ t(1)] Cons.prems by simp_all
  with Cons.IH [OF _ _ t(2)] Cons.prems(2) trans show ?case by simp
qed

end

text \<open>
  A body whose effect is settled once: repeating an item (by \<open>step2\<close>, the same body under another
  clock) gives the result \<open>again r\<close> and does not change the state beyond \<open>same\<close>.
\<close>

locale retry_scan = guarded_scan step inv admissible promise
  for step :: "nat \<Rightarrow> 'i \<Rightarrow> 's \<Rightarrow> ('e, 'r \<times> 's) result" and inv admissible promise +
  fixes step2 :: "nat \<Rightarrow> 'i \<Rightarrow> 't \<Rightarrow> ('e, 'r \<times> 't) result"
    and settled :: "'i \<Rightarrow> 'r \<Rightarrow> 's \<Rightarrow> bool" and settled2 :: "'i \<Rightarrow> 'r \<Rightarrow> 't \<Rightarrow> bool"
    and same :: "'t \<Rightarrow> 't \<Rightarrow> bool" and again :: "'r \<Rightarrow> 'r"
  assumes settles: "inv s \<Longrightarrow> admissible x \<Longrightarrow> step index x s = Inr (r, s') \<Longrightarrow> settled x r s'"
    and settled_kept: "settled x r s \<Longrightarrow> inv s \<Longrightarrow> admissible y \<Longrightarrow> step index y s = Inr (q, s')
      \<Longrightarrow> settled x r s'"
    and repeats: "settled2 x r t \<Longrightarrow> \<exists>t'. step2 index x t = Inr (again r, t') \<and> same t t'"
    and same_settled: "settled2 x r t \<Longrightarrow> same t t' \<Longrightarrow> settled2 x r t'"
    and same_refl: "same t t"
    and same_trans: "same t t' \<Longrightarrow> same t' t'' \<Longrightarrow> same t t''"
begin

lemma settled_scan:
  assumes "settled x r s" and "inv s" and "list_all admissible ys"
    and "res_scan step index ys s = Inr (rs, s')"
  shows "settled x r s'"
  using assms
proof (induction ys arbitrary: index s rs)
  case (Cons y ys)
  from Cons.prems(4) obtain q t rs' where t: "step index y s = Inr (q, t)"
      "res_scan step (Suc index) ys t = Inr (rs', s')" by (rule res_scan_ConsE)
  have "settled x r t" "inv t"
    using settled_kept [OF Cons.prems(1,2) _ t(1)] step_inv(1) [OF Cons.prems(2) _ t(1)] Cons.prems(3) by simp_all
  with Cons.IH [OF _ _ _ t(2)] Cons.prems(3) show ?case by simp
qed simp

lemma scan_settles:
  assumes "inv s" and "list_all admissible xs" and "res_scan step index xs s = Inr (rs, s')"
  shows "list_all2 (\<lambda>x r. settled x r s') xs rs"
  using assms
proof (induction xs arbitrary: index s rs)
  case (Cons x xs)
  from Cons.prems(3) obtain r t rs' where t: "step index x s = Inr (r, t)"
      "res_scan step (Suc index) xs t = Inr (rs', s')" and rs: "rs = r # rs'" by (rule res_scan_ConsE)
  have adm: "admissible x" "list_all admissible xs" using Cons.prems(2) by simp_all
  note inv_t = step_inv(1) [OF Cons.prems(1) adm(1) t(1)]
  have "settled x r s'"
    by (rule settled_scan [OF settles [OF Cons.prems(1) adm(1) t(1)] inv_t adm(2) t(2)])
  with Cons.IH [OF inv_t adm(2) t(2)] show ?case by (simp add: rs)
qed simp

lemma rescan:
  assumes "list_all2 (\<lambda>x r. settled2 x r t) xs rs"
  shows "\<exists>t'. res_scan step2 index xs t = Inr (map again rs, t') \<and> same t t'"
  using assms
proof (induction xs arbitrary: index t rs)
  case Nil
  then show ?case using same_refl by simp
next
  case (Cons x xs)
  then obtain r rs' where rs: "rs = r # rs'" "settled2 x r t" "list_all2 (\<lambda>x r. settled2 x r t) xs rs'"
    by (auto simp: list_all2_Cons1)
  obtain t1 where t1: "step2 index x t = Inr (again r, t1)" "same t t1" using repeats [OF rs(2)] by blast
  have "list_all2 (\<lambda>x r. settled2 x r t1) xs rs'"
    using rs(3) by (rule list_all2_mono) (use same_settled t1(2) in blast)
  from Cons.IH [OF this] obtain t2 where "res_scan step2 (Suc index) xs t1 = Inr (map again rs', t2)" "same t1 t2"
    by blast
  with t1 same_trans rs(1) show ?case by auto
qed

end

end
