(* ===== verification/Ingestion.thy ===== *)
theory Ingestion
  imports Telemetry_Validation Devices_Repository Alerts Scan
begin

text \<open>
  \<open>ingest_batch\<close> of \<open>backend/app/telemetry/service.py\<close>: one transaction that classifies every item
  of a validated batch, stores the accepted readings, evaluates them against the alert state and
  records presence. The environment gives what the database decides: the range of NUMERIC, the
  values of \<open>clock_timestamp()\<close>, and whether the commit succeeds. A failed transaction leaves the
  database as it was; the gaps its identity columns keep are not modelled.
\<close>

section \<open>Classification\<close>

record ingest_env =
  ie_numeric_ok :: "rat \<Rightarrow> bool"
  ie_insert_clock :: "nat \<Rightarrow> usec"
  ie_presence_clock :: "nat \<Rightarrow> usec"
  ie_commits :: bool

datatype ingest_error = Gateway_forbidden | Database_failure | Unhandled string

text \<open>\<open>IMMUTABLE_CONTENT_FIELDS\<close>, compared between the stored row and the submitted values.\<close>

definition content_matches :: "telemetry_row \<Rightarrow> int \<Rightarrow> telemetry_event \<Rightarrow> bool" where
  "content_matches existing v e \<longleftrightarrow>
     t_schema_version existing = v \<and> t_measured_at existing = ev_measured_at e
     \<and> t_device_uptime_ms existing = ev_device_uptime_ms e \<and> t_metric existing = ev_metric e
     \<and> t_value existing = ev_value e \<and> t_unit existing = ev_unit e \<and> t_quality existing = ev_quality e"

definition assignment_reason :: "string \<Rightarrow> (string \<times> bool) option \<Rightarrow> item_reason option" where
  "assignment_reason gateway_id assignment =
     (case assignment of
        None \<Rightarrow> Some Unknown_device
      | Some (gw, enabled) \<Rightarrow> if gw \<noteq> gateway_id \<or> \<not> enabled then Some Wrong_gateway else None)"

text \<open>A response item under the identity of an event.\<close>

definition respond :: "telemetry_event \<Rightarrow> outcome \<Rightarrow> item_reason option \<Rightarrow> (ingest_error, response_item) result" where
  "respond e out reason =
     (case TelemetryResponseItem (Some (ev_device_id e)) (Some (ev_boot_id e))
             (Some (ev_sequence_number e)) out reason of
        Inl message \<Rightarrow> Inl (Unhandled message) | Inr r \<Rightarrow> Inr r)"

definition recent_contact :: "usec \<Rightarrow> telemetry_event \<Rightarrow> bool" where
  "recent_contact backend_received_at e \<longleftrightarrow>
     0 \<le> backend_received_at - ev_gateway_received_at e
     \<and> backend_received_at - ev_gateway_received_at e \<le> seconds 90"

text \<open>The session of the transaction: its alert state cache and the database it sees.\<close>

type_synonym ingest_state = "state_cache \<times> database"

text \<open>An accepted row: alert evaluation, then presence.\<close>

definition accept_reading :: "ingest_env \<Rightarrow> nat \<Rightarrow> telemetry_event \<Rightarrow> int \<Rightarrow> usec \<Rightarrow> ingest_state
    \<Rightarrow> (ingest_error, ingest_state) result" where
  "accept_reading env index e telemetry_id received_at st =
     (case evaluate_accepted_reading e telemetry_id received_at (fst st) (snd st) of
        Inl x \<Rightarrow> Inl (Unhandled x)
      | Inr (states, db) \<Rightarrow>
          Inr (states, if recent_contact received_at e
                       then record_presence (ev_device_id e) (ie_presence_clock env index) db else db))"

definition ingest_event :: "ingest_env \<Rightarrow> string \<Rightarrow> int \<Rightarrow> nat \<Rightarrow> telemetry_event \<Rightarrow> ingest_state
    \<Rightarrow> (ingest_error, response_item \<times> ingest_state) result" where
  "ingest_event env gateway_id v index e st =
     (case insert_event (ie_numeric_ok env) (ie_insert_clock env index) v e (snd st) of
        Inl DataError \<Rightarrow> res_bind (respond e Rejected (Some Malformed_value)) (\<lambda>r. Inr (r, st))
      | Inl _ \<Rightarrow> Inl Database_failure
      | Inr (None, db) \<Rightarrow>
          (case read_existing_event db (ev_identity e) of
             None \<Rightarrow> Inl Database_failure
           | Some existing \<Rightarrow>
               res_bind (if content_matches existing v e then respond e Duplicate None
                         else respond e Rejected (Some Identity_conflict))
                 (\<lambda>r. Inr (r, fst st, db)))
      | Inr (Some (telemetry_id, received_at), db) \<Rightarrow>
          res_bind (accept_reading env index e telemetry_id received_at (fst st, db)) (\<lambda>st'.
            res_bind (respond e Accepted None) (\<lambda>r. Inr (r, st'))))"

fun ingest_item :: "ingest_env \<Rightarrow> string \<Rightarrow> int \<Rightarrow> assignments \<Rightarrow> nat \<Rightarrow> batch_item \<Rightarrow> ingest_state
    \<Rightarrow> (ingest_error, response_item \<times> ingest_state) result" where
  "ingest_item env gateway_id v asg index (Rejected_item r) st = Inr (r, st)"
| "ingest_item env gateway_id v asg index (Valid_item e) st =
     (case assignment_reason gateway_id (asg (ev_device_id e)) of
        Some reason \<Rightarrow> res_bind (respond e Rejected (Some reason)) (\<lambda>r. Inr (r, st))
      | None \<Rightarrow> ingest_event env gateway_id v index e st)"

definition batch_device_ids :: "batch_item list \<Rightarrow> string set" where
  "batch_device_ids items = set (concat (map (\<lambda>item.
     case item of Valid_item e \<Rightarrow> [ev_device_id e] | Rejected_item r \<Rightarrow> []) items))"

record batch_response =
  br_batch_id :: string
  br_results :: "response_item list"

text \<open>The constructor of the response model, run after the commit; the items are model instances already.\<close>

definition TelemetryBatchResponse :: "string \<Rightarrow> response_item list \<Rightarrow> (string, batch_response) result" where
  "TelemetryBatchResponse batch_id results =
     (if identifier_ok batch_id \<and> 1 \<le> length results \<and> length results \<le> MAX_BATCH_SIZE
      then Inr \<lparr>br_batch_id = batch_id, br_results = results\<rparr> else Inl ''invalid response'')"

definition ingest_batch :: "ingest_env \<Rightarrow> string \<Rightarrow> validated_batch \<Rightarrow> string \<Rightarrow> database
    \<Rightarrow> (ingest_error, batch_response) result \<times> database" where
  "ingest_batch env gateway_id batch batch_id db =
     (case lock_gateway_eligibility db gateway_id of
        None \<Rightarrow> (Inl Gateway_forbidden, db)
      | Some (gateway_enabled, site_enabled) \<Rightarrow>
          if \<not> (gateway_enabled \<and> site_enabled) then (Inl Gateway_forbidden, db)
          else (let asg = lock_assignments db (batch_device_ids (vb_items batch))
                in case res_scan (ingest_item env gateway_id (vb_schema_version batch) asg) 0
                          (vb_items batch) (Map.empty, db) of
                     Inl x \<Rightarrow> (Inl x, db)
                   | Inr (results, _, db') \<Rightarrow>
                       if \<not> ie_commits env then (Inl Database_failure, db)
                       else (case TelemetryBatchResponse batch_id results of
                               Inl message \<Rightarrow> (Inl (Unhandled message), db')
                             | Inr response \<Rightarrow> (Inr response, db'))))"

section \<open>Invariant\<close>

definition db_inv :: "database \<Rightarrow> bool" where
  "db_inv db \<longleftrightarrow> registry_ok db \<and> telemetry_ok db \<and> alerts_inv db"

text \<open>The registry as ingestion sees it: everything but \<open>last_seen_at\<close>.\<close>

definition same_registry :: "database \<Rightarrow> database \<Rightarrow> bool" where
  "same_registry db db' \<longleftrightarrow>
     sites db' = sites db \<and> gateways db' = gateways db
     \<and> map (\<lambda>d. d\<lparr>d_last_seen_at := None\<rparr>) (devices db') = map (\<lambda>d. d\<lparr>d_last_seen_at := None\<rparr>) (devices db)"

lemma same_registry_refl [simp]: "same_registry db db"
  by (simp add: same_registry_def)

lemma same_registry_trans: "same_registry a b \<Longrightarrow> same_registry b c \<Longrightarrow> same_registry a c"
  by (simp add: same_registry_def)

lemma same_registry_column:
  assumes "same_registry db db'" and "\<And>d. h (d\<lparr>d_last_seen_at := None\<rparr>) = h d"
  shows "map h (devices db') = map h (devices db)"
proof -
  have strip: "map h (devices x) = map h (map (\<lambda>d. d\<lparr>d_last_seen_at := None\<rparr>) (devices x))" for x
    by (simp add: comp_def assms(2))
  have "map (\<lambda>d. d\<lparr>d_last_seen_at := None\<rparr>) (devices db') = map (\<lambda>d. d\<lparr>d_last_seen_at := None\<rparr>) (devices db)"
    using assms(1) by (simp add: same_registry_def)
  then show ?thesis unfolding strip [of db] strip [of db'] by (rule arg_cong)
qed

lemma same_registry_ids:
  assumes "same_registry db db'"
  shows "map d_device_id (devices db') = map d_device_id (devices db)"
    and "d_device_id ` set (devices db') = d_device_id ` set (devices db)"
    and "d_gateway_id ` set (devices db') = d_gateway_id ` set (devices db)"
proof -
  show 1: "map d_device_id (devices db') = map d_device_id (devices db)"
    by (rule same_registry_column [OF assms]) simp
  have 2: "map d_gateway_id (devices db') = map d_gateway_id (devices db)"
    by (rule same_registry_column [OF assms]) simp
  show "d_device_id ` set (devices db') = d_device_id ` set (devices db)"
    "d_gateway_id ` set (devices db') = d_gateway_id ` set (devices db)"
    using arg_cong [OF 1, of set] arg_cong [OF 2, of set] by (simp_all only: list.set_map)
qed

lemma same_registry_ok:
  assumes same: "same_registry db db'" and ok: "registry_ok db"
  shows "registry_ok db'"
proof -
  note ids = same_registry_ids [OF same]
  have sg: "sites db' = sites db" "gateways db' = gateways db" using same by (simp_all add: same_registry_def)
  have "[] \<notin> d_device_id ` set (devices db')"
    using ok unfolding ids(2) by (auto simp: registry_ok_def)
  then have "\<forall>d \<in> set (devices db'). length (d_device_id d) > 0" by (auto simp: image_iff)
  then show ?thesis using ok by (simp add: registry_ok_def ids sg)
qed

lemma same_registry_presence: "same_registry db (record_presence dev t db)"
  using record_presence_column [of "\<lambda>d. d\<lparr>d_last_seen_at := None\<rparr>" t dev db] by (simp add: same_registry_def)

text \<open>The alert invariant only reads identifiers of the other tables, and keeps when they grow.\<close>

lemma alerts_inv_frame:
  assumes inv: "alerts_inv db"
    and same: "alert_episodes db' = alert_episodes db" "alert_states db' = alert_states db"
      "next_episode_id db' = next_episode_id db"
    and ids: "d_device_id ` set (devices db) \<subseteq> d_device_id ` set (devices db')"
      "t_id ` set (telemetry db) \<subseteq> t_id ` set (telemetry db')"
  shows "alerts_inv db'"
proof -
  have "episode_ok db' e \<and> episode_linked db' e" if "e \<in> set (alert_episodes db)" for e
    using alerts_invD(5,6) [OF inv that] ids same
    by (auto simp: episode_ok_def episode_linked_def opt_all_iff)
  moreover have "state_ok db' t \<and> state_linked db' t" if "t \<in> set (alert_states db)" for t
    using alerts_invD(7,8) [OF inv that] ids same
    by (auto simp: state_ok_def state_linked_def split: option.splits)
  ultimately show ?thesis using alerts_invD(1-4) [OF inv] same by (simp add: alerts_inv_def)
qed

lemma telemetry_ok_frame:
  "telemetry_ok db \<Longrightarrow> telemetry db' = telemetry db \<Longrightarrow>
   d_device_id ` set (devices db) \<subseteq> d_device_id ` set (devices db') \<Longrightarrow>
   next_telemetry_id db \<le> next_telemetry_id db' \<Longrightarrow> telemetry_ok db'"
  by (force simp: telemetry_ok_def)

lemma db_inv_frame:
  assumes "db_inv db" and "same_registry db db'" and "telemetry db' = telemetry db"
    and "next_telemetry_id db \<le> next_telemetry_id db'"
    and "alert_episodes db' = alert_episodes db" "alert_states db' = alert_states db"
      "next_episode_id db' = next_episode_id db"
  shows "db_inv db'"
  unfolding db_inv_def
  using assms same_registry_ids(2) [OF assms(2)]
    same_registry_ok [OF assms(2)] telemetry_ok_frame [of db db'] alerts_inv_frame [of db db']
  by (simp add: db_inv_def)

lemma db_inv_presence: "db_inv db \<Longrightarrow> db_inv (record_presence dev t db)"
  by (rule db_inv_frame [OF _ same_registry_presence]) simp_all

lemma unused_fresh_reading:
  assumes inv: "alerts_inv db" and fresh: "i \<notin> t_id ` set (telemetry db)"
    and same: "alert_episodes db' = alert_episodes db" and stored: "i \<in> t_id ` set (telemetry db')"
  shows "unused_reading i db'"
  using alerts_inv_ok [OF inv] fresh stored same unfolding unused_reading_def alerts_ok_def by auto

section \<open>One item\<close>

definition answer :: "telemetry_event \<Rightarrow> outcome \<Rightarrow> item_reason option \<Rightarrow> response_item" where
  "answer e out reason = \<lparr>ri_device_id = Some (ev_device_id e), ri_boot_id = Some (ev_boot_id e),
     ri_sequence_number = Some (ev_sequence_number e), ri_outcome = out, ri_reason = reason\<rparr>"

lemma respond_eq:
  "event_wf e \<Longrightarrow> (out = Rejected \<longleftrightarrow> reason \<noteq> None) \<Longrightarrow> respond e out reason = Inr (answer e out reason)"
  by (cases out; cases reason)
    (simp_all add: respond_def TelemetryResponseItem_def validate_outcome_def event_wf_def complete_identity_def
      answer_def)

lemma answer_ok: "(out = Rejected \<longleftrightarrow> reason \<noteq> None) \<Longrightarrow> response_item_ok (answer e out reason)"
  by (cases out; cases reason) (simp_all add: response_item_ok_iff answer_def complete_identity_def)

definition ingest_inv :: "assignments \<Rightarrow> ingest_state \<Rightarrow> bool" where
  "ingest_inv asg st \<longleftrightarrow> db_inv (snd st) \<and> cache_ok (fst st) (snd st)
     \<and> dom asg \<subseteq> d_device_id ` set (devices (snd st))"

text \<open>The database after a stored reading.\<close>

definition stored :: "ingest_env \<Rightarrow> nat \<Rightarrow> telemetry_event \<Rightarrow> database \<Rightarrow> database" where
  "stored env index e db = db\<lparr>next_telemetry_id := next_telemetry_id db + 1,
     telemetry := telemetry db @ [event_row (next_telemetry_id db) (ie_insert_clock env index) 1 e]\<rparr>"

lemma stored_inv:
  assumes inv: "db_inv db" and new: "lookup_by t_identity (ev_identity e) (telemetry db) = None"
    and dev: "ev_device_id e \<in> d_device_id ` set (devices db)" and wf: "event_wf e"
  shows "db_inv (stored env index e db)" and "unused_reading (next_telemetry_id db) (stored env index e db)"
proof -
  let ?db = "stored env index e db" and ?n = "next_telemetry_id db"
  have dbs: "registry_ok db" "telemetry_ok db" "alerts_inv db" using inv by (simp_all add: db_inv_def)
  have fresh: "?n \<notin> t_id ` set (telemetry db)" using dbs(2) by (auto simp: telemetry_ok_def)
  have ident: "ev_identity e \<notin> t_identity ` set (telemetry db)" using new by (simp add: lookup_by_None_iff)
  have "telemetry_ok ?db"
    using dbs(2) fresh ident dev event_wf_checks [OF wf]
    by (auto simp: telemetry_ok_def stored_def intro: less_trans)
  moreover have "registry_ok ?db" using dbs(1) by (simp add: registry_ok_def stored_def)
  moreover have "alerts_inv ?db" by (rule alerts_inv_frame [OF dbs(3)]) (auto simp: stored_def)
  ultimately show "db_inv ?db" by (simp add: db_inv_def)
  show "unused_reading ?n ?db"
    by (rule unused_fresh_reading [OF dbs(3) fresh]) (simp_all add: stored_def)
qed

definition used_id :: "database \<Rightarrow> database" where
  "used_id db = db\<lparr>next_telemetry_id := next_telemetry_id db + 1\<rparr>"

lemma used_id_simps [simp]:
  "telemetry (used_id db) = telemetry db" "devices (used_id db) = devices db"
  "alert_states (used_id db) = alert_states db" "alert_episodes (used_id db) = alert_episodes db"
  "sites (used_id db) = sites db" "gateways (used_id db) = gateways db"
  by (simp_all add: used_id_def)

lemma used_id_inv: "db_inv db \<Longrightarrow> db_inv (used_id db)"
  by (rule db_inv_frame [of db]) (simp_all add: used_id_def same_registry_def)

definition presence_after :: "ingest_env \<Rightarrow> nat \<Rightarrow> telemetry_event \<Rightarrow> database \<Rightarrow> database" where
  "presence_after env index e db =
     (if recent_contact (ie_insert_clock env index) e
      then record_presence (ev_device_id e) (ie_presence_clock env index) db else db)"

lemma presence_after_simps [simp]:
  "telemetry (presence_after env i e db) = telemetry db"
  "alert_states (presence_after env i e db) = alert_states db"
  "alert_episodes (presence_after env i e db) = alert_episodes db"
  "d_device_id ` set (devices (presence_after env i e db)) = d_device_id ` set (devices db)"
  "same_registry db (presence_after env i e db)"
  "db_inv db \<Longrightarrow> db_inv (presence_after env i e db)"
  by (simp_all add: presence_after_def same_registry_presence db_inv_presence)

lemma cache_ok_cong: "alert_states db' = alert_states db \<Longrightarrow> cache_ok c db' \<longleftrightarrow> cache_ok c db"
  by (simp add: cache_ok_def)

text \<open>The outcomes of an event the gateway may submit.\<close>

lemma ingest_event_cases:
  assumes inv: "db_inv db" "cache_ok states db" and wf: "event_wf e"
    and dev: "ev_device_id e \<in> d_device_id ` set (devices db)"
  obtains (unrepresentable) "\<not> ie_numeric_ok env (ev_value e)"
      "ingest_event env gid 1 index e (states, db) = Inr (answer e Rejected (Some Malformed_value), states, db)"
  | (known) row where "ie_numeric_ok env (ev_value e)"
      "lookup_by t_identity (ev_identity e) (telemetry db) = Some row"
      "ingest_event env gid 1 index e (states, db) =
         Inr (if content_matches row 1 e then answer e Duplicate None
              else answer e Rejected (Some Identity_conflict), states, used_id db)"
  | (accepted) states' db2 where "ie_numeric_ok env (ev_value e)"
      "lookup_by t_identity (ev_identity e) (telemetry db) = None"
      "evaluate_accepted_reading e (next_telemetry_id db) (ie_insert_clock env index) states (stored env index e db)
         = Inr (states', db2)"
      "db_inv db2" "cache_ok states' db2" "same_but_alerts (stored env index e db) db2"
      "ingest_event env gid 1 index e (states, db) =
         Inr (answer e Accepted None, states', presence_after env index e db2)"
proof -
  have "lookup_by d_device_id (ev_device_id e) (devices db) \<noteq> None"
    using dev by (simp only: lookup_by_None_iff) simp
  note ins = insert_event_wf [OF wf this, of "ie_numeric_ok env" "ie_insert_clock env index"]
  show ?thesis
  proof (cases "ie_numeric_ok env (ev_value e)")
    case False
    with ins show ?thesis by (intro unrepresentable) (simp_all add: ingest_event_def respond_eq [OF wf])
  next
    case num: True
    show ?thesis
    proof (cases "lookup_by t_identity (ev_identity e) (telemetry db)")
      case (Some row)
      with ins num show ?thesis
        by (intro known) (auto simp: ingest_event_def respond_eq [OF wf] read_existing_event_def used_id_def)
    next
      case None
      let ?db = "stored env index e db"
      have cache: "cache_ok states ?db" using inv(2) by (simp add: cache_ok_def stored_def)
      have "db_inv ?db" and unused: "unused_reading (next_telemetry_id db) ?db"
        using stored_inv [OF inv(1) None dev wf] by simp_all
      then have dbs: "registry_ok ?db" "telemetry_ok ?db" "alerts_inv ?db" by (simp_all add: db_inv_def)
      have dev': "ev_device_id e \<in> d_device_id ` set (devices ?db)" using dev by (simp add: stored_def)
      obtain states' db2 where ev: "evaluate_accepted_reading e (next_telemetry_id db)
            (ie_insert_clock env index) states ?db = Inr (states', db2)" "alerts_inv db2" "cache_ok states' db2"
          "same_but_alerts ?db db2"
        using evaluate_ok [OF dbs(3) cache unused dev'] by blast
      have "registry_ok db2" "telemetry_ok db2"
        using dbs(1,2) ev(4) by (simp_all add: same_but_alerts_def registry_ok_def telemetry_ok_def)
      with ev(2) have "db_inv db2" by (simp add: db_inv_def)
      moreover have "ingest_event env gid 1 index e (states, db) =
          Inr (answer e Accepted None, states', presence_after env index e db2)"
        using ins num None ev(1)
        by (simp add: ingest_event_def accept_reading_def respond_eq [OF wf] stored_def presence_after_def)
      ultimately show ?thesis using accepted [OF num None ev(1)] ev(3,4) by blast
    qed
  qed
qed

text \<open>The outcomes of an item, from a state with the invariant.\<close>

lemma ingest_item_cases:
  assumes inv: "ingest_inv asg (states, db)" and ok: "item_ok item"
  obtains (passed) r where "item = Rejected_item r"
      "ingest_item env gid 1 asg index item (states, db) = Inr (r, states, db)"
  | (refused) e reason where "item = Valid_item e" "assignment_reason gid (asg (ev_device_id e)) = Some reason"
      "ingest_item env gid 1 asg index item (states, db) = Inr (answer e Rejected (Some reason), states, db)"
  | (unrepresentable) e where "item = Valid_item e" "assignment_reason gid (asg (ev_device_id e)) = None"
      "\<not> ie_numeric_ok env (ev_value e)"
      "ingest_item env gid 1 asg index item (states, db) = Inr (answer e Rejected (Some Malformed_value), states, db)"
  | (known) e row where "item = Valid_item e" "assignment_reason gid (asg (ev_device_id e)) = None"
      "ie_numeric_ok env (ev_value e)" "lookup_by t_identity (ev_identity e) (telemetry db) = Some row"
      "ingest_item env gid 1 asg index item (states, db) =
         Inr (if content_matches row 1 e then answer e Duplicate None
              else answer e Rejected (Some Identity_conflict), states, used_id db)"
  | (accepted) e states' db2 where "item = Valid_item e" "assignment_reason gid (asg (ev_device_id e)) = None"
      "ie_numeric_ok env (ev_value e)" "lookup_by t_identity (ev_identity e) (telemetry db) = None"
      "ev_device_id e \<in> d_device_id ` set (devices db)"
      "evaluate_accepted_reading e (next_telemetry_id db) (ie_insert_clock env index) states (stored env index e db)
         = Inr (states', db2)"
      "db_inv db2" "cache_ok states' db2" "same_but_alerts (stored env index e db) db2"
      "ingest_item env gid 1 asg index item (states, db) =
         Inr (answer e Accepted None, states', presence_after env index e db2)"
proof (cases item)
  case (Rejected_item r)
  then show ?thesis using passed by simp
next
  case item: (Valid_item e)
  then have wf: "event_wf e" using ok by simp
  show ?thesis
  proof (cases "assignment_reason gid (asg (ev_device_id e))")
    case (Some reason)
    then show ?thesis using refused item by (simp add: respond_eq [OF wf])
  next
    case None
    then have "ev_device_id e \<in> dom asg" by (auto simp: assignment_reason_def split: option.splits)
    then have dev: "ev_device_id e \<in> d_device_id ` set (devices db)" using inv by (auto simp: ingest_inv_def)
    have "db_inv db" "cache_ok states db" using inv by (simp_all add: ingest_inv_def)
    then show ?thesis
      by (rule ingest_event_cases [OF _ _ wf dev, where env = env and gid = gid and index = index])
        (use item None dev in \<open>simp_all add: unrepresentable known accepted\<close>)
  qed
qed

text \<open>What a result promises about its item.\<close>

fun result_for :: "batch_item \<Rightarrow> response_item \<Rightarrow> bool" where
  "result_for (Rejected_item r0) r \<longleftrightarrow> r = r0"
| "result_for (Valid_item e) r \<longleftrightarrow>
     r = answer e (ri_outcome r) (ri_reason r) \<and> (ri_outcome r = Rejected \<longleftrightarrow> ri_reason r \<noteq> None)"

lemma answer_simps [simp]:
  "ri_outcome (answer e out reason) = out" "ri_reason (answer e out reason) = reason"
  by (simp_all add: answer_def)

lemma accepted_inv:
  assumes "ingest_inv asg (states, db)" and "db_inv db2" "cache_ok states' db2"
    and "same_but_alerts (stored env index e db) db2"
  shows "ingest_inv asg (states', presence_after env index e db2)"
proof -
  have "devices db2 = devices db" using assms(4) by (simp add: same_but_alerts_def stored_def)
  then show ?thesis using assms(1-3) by (simp add: ingest_inv_def cache_ok_cong [of "presence_after env index e db2" db2])
qed

lemma ingest_step_pair:
  assumes inv: "ingest_inv asg (states, db)" and ok: "item_ok item"
  shows "\<exists>r st'. ingest_item env gid 1 asg index item (states, db) = Inr (r, st')
    \<and> ingest_inv asg st' \<and> result_for item r"
proof -
  have used: "ingest_inv asg (states, used_id db)"
    using inv by (simp add: ingest_inv_def used_id_inv cache_ok_cong [of "used_id db" db])
  have goal: ?thesis if "ingest_item env gid 1 asg index item (states, db) = Inr (r, st')"
      "ingest_inv asg st'" "result_for item r" for r st'
    using that by blast
  from inv ok show ?thesis
  proof (rule ingest_item_cases [where env = env and gid = gid and index = index], goal_cases)
    case (1 r)
    show ?thesis by (rule goal [OF 1(2) inv]) (simp add: 1(1))
  next
    case (2 e reason)
    show ?thesis by (rule goal [OF 2(3) inv]) (simp add: 2(1))
  next
    case (3 e)
    show ?thesis by (rule goal [OF 3(4) inv]) (simp add: 3(1))
  next
    case (4 e row)
    show ?thesis by (rule goal [OF 4(5) used]) (simp add: 4(1))
  next
    case (5 e states' db2)
    show ?thesis by (rule goal [OF 5(10) accepted_inv [OF inv 5(7-9)]]) (simp add: 5(1))
  qed
qed

lemma ingest_step:
  "ingest_inv asg st \<Longrightarrow> item_ok item \<Longrightarrow>
   \<exists>r st'. ingest_item env gid 1 asg index item st = Inr (r, st') \<and> ingest_inv asg st' \<and> result_for item r"
  by (cases st) (simp only: ingest_step_pair)

interpretation ingest: guarded_scan "ingest_item env gid 1 asg" "ingest_inv asg" item_ok result_for
  for env gid asg
  by unfold_locales (rule ingest_step)

text \<open>The effect of an item on the tables.\<close>

definition extends :: "database \<Rightarrow> database \<Rightarrow> bool" where
  "extends db db' \<longleftrightarrow> same_registry db db' \<and> (\<exists>rows. telemetry db' = telemetry db @ rows)"

lemma extends_refl: "extends db db"
  by (simp add: extends_def)

lemma extends_trans: "extends a b \<Longrightarrow> extends b c \<Longrightarrow> extends a c"
  by (auto simp: extends_def intro: same_registry_trans)

lemma accepted_extends:
  assumes "same_but_alerts (stored env index e db) db2"
  shows "extends db (presence_after env index e db2)"
    and "telemetry (presence_after env index e db2) =
      telemetry db @ [event_row (next_telemetry_id db) (ie_insert_clock env index) 1 e]"
proof -
  have "same_registry db db2" using assms by (simp add: same_registry_def same_but_alerts_def stored_def)
  moreover have "same_registry db2 (presence_after env index e db2)" by simp
  ultimately have "same_registry db (presence_after env index e db2)" by (rule same_registry_trans)
  moreover show 1: "telemetry (presence_after env index e db2) =
      telemetry db @ [event_row (next_telemetry_id db) (ie_insert_clock env index) 1 e]"
    using assms by (simp add: same_but_alerts_def stored_def)
  ultimately show "extends db (presence_after env index e db2)" by (simp add: extends_def)
qed

lemma ingest_item_extends:
  assumes "ingest_inv asg st" "item_ok item" "ingest_item env gid 1 asg index item st = Inr (r, st')"
  shows "extends (snd st) (snd st')"
proof -
  obtain states db where st: "st = (states, db)" by (cases st)
  have used: "extends db (used_id db)" by (simp add: extends_def same_registry_def)
  show ?thesis
    using assms(1) unfolding st
    by (rule ingest_item_cases [OF _ assms(2), where env = env and gid = gid and index = index])
      (use assms(3) st used accepted_extends(1) extends_refl in auto)
qed

text \<open>A settled item: repeating it gives \<open>again r\<close> and stores nothing.\<close>

definition again :: "response_item \<Rightarrow> response_item" where
  "again r = (if ri_outcome r = Accepted then r\<lparr>ri_outcome := Duplicate\<rparr> else r)"

fun settled_item :: "(rat \<Rightarrow> bool) \<Rightarrow> string \<Rightarrow> assignments \<Rightarrow> batch_item \<Rightarrow> response_item \<Rightarrow> database \<Rightarrow> bool" where
  "settled_item num gid asg (Rejected_item r0) r db \<longleftrightarrow> r = r0 \<and> ri_outcome r = Rejected"
| "settled_item num gid asg (Valid_item e) r db \<longleftrightarrow> event_wf e \<and>
     (case assignment_reason gid (asg (ev_device_id e)) of
        Some reason \<Rightarrow> r = answer e Rejected (Some reason)
      | None \<Rightarrow>
          if \<not> num (ev_value e) then r = answer e Rejected (Some Malformed_value)
          else (case lookup_by t_identity (ev_identity e) (telemetry db) of
                  None \<Rightarrow> False
                | Some row \<Rightarrow> again r = (if content_matches row 1 e then answer e Duplicate None
                                        else answer e Rejected (Some Identity_conflict))))"

lemma again_answer [simp]:
  "again (answer e out reason) = answer e (if out = Accepted then Duplicate else out) reason"
  by (simp add: again_def answer_def)

lemma settled_item_extends:
  "settled_item num gid asg item r db \<Longrightarrow> telemetry db' = telemetry db @ rows \<Longrightarrow>
   settled_item num gid asg item r db'"
  by (cases item) (auto simp: lookup_by_append split: option.splits)

lemma content_matches_own: "content_matches (event_row i now 1 e) 1 e"
  by (simp add: content_matches_def event_row_def)

lemma ingest_item_settles:
  assumes "ingest_inv asg st" "item_ok item" "ingest_item env gid 1 asg index item st = Inr (r, st')"
  shows "settled_item (ie_numeric_ok env) gid asg item r (snd st')"
proof -
  obtain states db where st: "st = (states, db)" by (cases st)
  show ?thesis
    using assms(1) unfolding st
  proof (rule ingest_item_cases [OF _ assms(2), where env = env and gid = gid and index = index])
    fix e states' db2
    assume a: "item = Valid_item e" "assignment_reason gid (asg (ev_device_id e)) = None"
      "ie_numeric_ok env (ev_value e)" "lookup_by t_identity (ev_identity e) (telemetry db) = None"
      "same_but_alerts (stored env index e db) db2"
      "ingest_item env gid 1 asg index item (states, db) =
         Inr (answer e Accepted None, states', presence_after env index e db2)"
    with assms(2,3) st accepted_extends(2) [OF a(5)] show ?thesis
      by (simp add: lookup_by_append content_matches_own del: presence_after_simps)
  qed (use assms(2,3) st in auto)
qed

text \<open>Databases that differ in the next telemetry id only.\<close>

definition only_ids :: "database \<Rightarrow> database \<Rightarrow> bool" where
  "only_ids db db' \<longleftrightarrow> next_telemetry_id db \<le> next_telemetry_id db'
     \<and> db' = db\<lparr>next_telemetry_id := next_telemetry_id db'\<rparr>"

lemma only_ids_simps [simp]: "only_ids db db" "only_ids db (db\<lparr>next_telemetry_id := next_telemetry_id db + 1\<rparr>)"
  by (simp_all add: only_ids_def)

lemma only_ids_trans: "only_ids a b \<Longrightarrow> only_ids b c \<Longrightarrow> only_ids a c"
  by (cases a; cases b; cases c) (auto simp: only_ids_def)

lemma only_idsD:
  assumes "only_ids db db'"
  shows "telemetry db' = telemetry db" "devices db' = devices db" "gateways db' = gateways db" "sites db' = sites db"
    "alert_episodes db' = alert_episodes db" "alert_states db' = alert_states db"
  using assms by (cases db; cases db'; simp add: only_ids_def)+

lemma ingest_item_repeats:
  assumes "settled_item (ie_numeric_ok env) gid asg item r db"
    and "dom asg \<subseteq> d_device_id ` set (devices db)"
  shows "\<exists>db'. ingest_item env gid 1 asg index item (states, db) = Inr (again r, states, db') \<and> only_ids db db'"
proof (cases item)
  case (Rejected_item r0)
  with assms(1) show ?thesis by (auto simp: again_def)
next
  case (Valid_item e)
  then have wf: "event_wf e" using assms(1) by simp
  show ?thesis
  proof (cases "assignment_reason gid (asg (ev_device_id e))")
    case (Some reason)
    with assms(1) Valid_item show ?thesis by (auto simp: respond_eq [OF wf])
  next
    case None
    then have "ev_device_id e \<in> dom asg" by (auto simp: assignment_reason_def split: option.splits)
    then have "lookup_by d_device_id (ev_device_id e) (devices db) \<noteq> None"
      using assms(2) by (simp only: lookup_by_None_iff) blast
    note ins = insert_event_wf [OF wf this, of "ie_numeric_ok env" "ie_insert_clock env index"]
    with assms(1) Valid_item None show ?thesis
      by (auto simp: ingest_event_def respond_eq [OF wf] read_existing_event_def split: option.splits if_splits)
  qed
qed

section \<open>The whole transaction\<close>

text \<open>The accepted events of a batch, with their positions.\<close>

fun accepted_from :: "nat \<Rightarrow> batch_item list \<Rightarrow> response_item list \<Rightarrow> (nat \<times> telemetry_event) list" where
  "accepted_from index (Valid_item e # items) (r # rs) =
     (if ri_outcome r = Accepted then [(index, e)] else []) @ accepted_from (Suc index) items rs"
| "accepted_from index (Rejected_item r0 # items) (r # rs) = accepted_from (Suc index) items rs"
| "accepted_from index _ _ = []"

abbreviation accepted_events :: "batch_item list \<Rightarrow> response_item list \<Rightarrow> (nat \<times> telemetry_event) list" where
  "accepted_events \<equiv> accepted_from 0"

definition row_of :: "ingest_env \<Rightarrow> nat \<times> telemetry_event \<Rightarrow> telemetry_row \<Rightarrow> bool" where
  "row_of env p row \<longleftrightarrow> (\<exists>rid. row = event_row rid (ie_insert_clock env (fst p)) 1 (snd p))"

text \<open>The presence of a device after the accepted events: the last recent contact wins.\<close>

fun presence_of :: "ingest_env \<Rightarrow> string \<Rightarrow> usec option \<Rightarrow> (nat \<times> telemetry_event) list \<Rightarrow> usec option" where
  "presence_of env dev seen [] = seen"
| "presence_of env dev seen ((i, e) # rest) =
     presence_of env dev
       (if ev_device_id e = dev \<and> recent_contact (ie_insert_clock env i) e then Some (ie_presence_clock env i) else seen)
       rest"

definition last_seen :: "database \<Rightarrow> string \<Rightarrow> usec option" where
  "last_seen db dev = (case lookup_by d_device_id dev (devices db) of None \<Rightarrow> None | Some d \<Rightarrow> d_last_seen_at d)"

lemma alarm_cong:
  "alert_states db' = alert_states db \<Longrightarrow> alarm_of db' dev = alarm_of db dev"
  "alert_states db' = alert_states db \<Longrightarrow> cursor_of db' dev = cursor_of db dev"
  by (simp_all add: alarm_of_def cursor_of_def)

text \<open>What one item changes: a row, the alarm of its device and the presence of its device.\<close>

definition accepted_item :: "nat \<Rightarrow> batch_item \<Rightarrow> response_item \<Rightarrow> (nat \<times> telemetry_event) list" where
  "accepted_item index item r = accepted_from index [item] [r]"

lemma accepted_from_Cons:
  "accepted_from index (item # items) (r # rs) = accepted_item index item r @ accepted_from (Suc index) items rs"
  by (cases item) (simp_all add: accepted_item_def)

definition effect :: "ingest_env \<Rightarrow> database \<Rightarrow> database \<Rightarrow> (nat \<times> telemetry_event) list \<Rightarrow> bool" where
  "effect env db db' acc \<longleftrightarrow>
     (\<exists>rows. telemetry db' = telemetry db @ rows \<and> list_all2 (row_of env) acc rows)
     \<and> (\<forall>dev. last_seen db' dev = presence_of env dev (last_seen db dev) acc)
     \<and> (\<forall>dev vs. foldl alarm_step (alarm_of db dev)
            (counted dev (cursor_of db dev) (map (\<lambda>(i, e). (e, ie_insert_clock env i)) acc @ vs))
          = foldl alarm_step (alarm_of db' dev) (counted dev (cursor_of db' dev) vs))"

lemma presence_of_append:
  "presence_of env dev seen (xs @ ys) = presence_of env dev (presence_of env dev seen xs) ys"
  by (induction xs arbitrary: seen) auto

lemma effect_nothing:
  "telemetry db' = telemetry db \<Longrightarrow> devices db' = devices db \<Longrightarrow> alert_states db' = alert_states db \<Longrightarrow>
   effect env db db' []"
  by (simp add: effect_def last_seen_def alarm_cong [of db' db])

lemma effect_append:
  assumes 1: "effect env db db1 xs" and 2: "effect env db1 db2 ys"
  shows "effect env db db2 (xs @ ys)"
proof -
  obtain r1 r2 where "telemetry db1 = telemetry db @ r1" "list_all2 (row_of env) xs r1"
      "telemetry db2 = telemetry db1 @ r2" "list_all2 (row_of env) ys r2"
    using 1 2 unfolding effect_def by blast
  then have "telemetry db2 = telemetry db @ (r1 @ r2) \<and> list_all2 (row_of env) (xs @ ys) (r1 @ r2)"
    by (simp add: list_all2_appendI)
  moreover have "last_seen db2 dev = presence_of env dev (last_seen db dev) (xs @ ys)" for dev
    using 1 2 by (simp add: effect_def presence_of_append)
  moreover have "foldl alarm_step (alarm_of db dev)
      (counted dev (cursor_of db dev) (map (\<lambda>(i, e). (e, ie_insert_clock env i)) (xs @ ys) @ vs))
      = foldl alarm_step (alarm_of db2 dev) (counted dev (cursor_of db2 dev) vs)" for dev vs
    using 1 2 by (simp add: effect_def)
  ultimately show ?thesis unfolding effect_def by blast
qed

lemma effect_accepted:
  assumes inv: "db_inv db" "cache_ok states db" and wf: "event_wf e"
    and new: "lookup_by t_identity (ev_identity e) (telemetry db) = None"
    and dev: "ev_device_id e \<in> d_device_id ` set (devices db)"
    and ev: "evaluate_accepted_reading e (next_telemetry_id db) (ie_insert_clock env index) states
      (stored env index e db) = Inr (states', db2)" and same: "same_but_alerts (stored env index e db) db2"
  shows "effect env db (presence_after env index e db2) [(index, e)]"
proof -
  let ?s = "stored env index e db" and ?p = "presence_after env index e db2" and ?now = "ie_insert_clock env index"
  have "alerts_inv ?s" and unused: "unused_reading (next_telemetry_id db) ?s"
    using stored_inv [OF inv(1) new dev wf] by (simp_all add: db_inv_def)
  moreover have "cache_ok states ?s" using inv(2) by (simp add: cache_ok_def stored_def)
  moreover have "ev_device_id e \<in> d_device_id ` set (devices ?s)" using dev by (simp add: stored_def)
  ultimately have alarm: "alarm_of db2 d = (if d = ev_device_id e \<and> evaluated ?s e ?now
         then alarm_step (alarm_of ?s d) (ev_value e) else alarm_of ?s d)"
      "cursor_of db2 d = (if d = ev_device_id e \<and> evaluated ?s e ?now then Some (reading_time e) else cursor_of ?s d)"
    for d
    using evaluate_alarm [where item = e and now = ?now and dev = d, OF _ _ _ _ ev] by blast+
  have s: "alarm_of ?s d = alarm_of db d" "cursor_of ?s d = cursor_of db d" for d
    by (rule alarm_cong; simp add: stored_def)+
  have p: "alarm_of ?p d = alarm_of db2 d" "cursor_of ?p d = cursor_of db2 d" for d
    by (simp_all add: alarm_cong [of ?p db2])
  have "foldl alarm_step (alarm_of db d) (counted d (cursor_of db d) (map (\<lambda>(i, e). (e, ie_insert_clock env i)) [(index, e)] @ vs))
      = foldl alarm_step (alarm_of ?p d) (counted d (cursor_of ?p d) vs)" for d vs
    by (auto simp: p alarm s evaluated_cursor)
  moreover have "last_seen ?p d = presence_of env d (last_seen db d) [(index, e)]" for d
  proof -
    have dd: "devices db2 = devices db" using same by (simp add: same_but_alerts_def stored_def)
    have "lookup_by d_device_id (ev_device_id e) (devices db) \<noteq> None"
      using dev by (simp only: lookup_by_None_iff) simp
    then show ?thesis
      by (auto simp: last_seen_def presence_after_def lookup_record_presence dd split: option.splits)
  qed
  moreover have "telemetry ?p = telemetry db @ [event_row (next_telemetry_id db) ?now 1 e]"
    by (rule accepted_extends(2) [OF same])
  then have "\<exists>rows. telemetry ?p = telemetry db @ rows \<and> list_all2 (row_of env) [(index, e)] rows"
    by (auto simp: row_of_def)
  ultimately show ?thesis unfolding effect_def by blast
qed

lemma ingest_item_effect:
  assumes inv: "ingest_inv asg st" and ok: "item_ok item"
    and run: "ingest_item env gid 1 asg index item st = Inr (r, st')"
  shows "effect env (snd st) (snd st') (accepted_item index item r)"
proof -
  obtain states db where st: "st = (states, db)" by (cases st)
  have wf: "event_wf e" if "item = Valid_item e" for e using ok that by simp
  have dbi: "db_inv db" "cache_ok states db" using inv by (simp_all add: st ingest_inv_def)
  have run': "ingest_item env gid 1 asg index item (states, db) = Inr (r, st')" using run st by simp
  from inv [unfolded st] ok show ?thesis
  proof (rule ingest_item_cases [where env = env and gid = gid and index = index], goal_cases)
    case (1 r0)
    then have "st' = (states, db)" using run' by simp
    with 1(1) st show ?thesis by (simp add: accepted_item_def effect_nothing)
  next
    case (2 e reason)
    then have "r = answer e Rejected (Some reason)" "st' = (states, db)" using run' by simp_all
    with 2(1) st show ?thesis by (simp add: accepted_item_def effect_nothing)
  next
    case (3 e)
    then have "r = answer e Rejected (Some Malformed_value)" "st' = (states, db)" using run' by simp_all
    with 3(1) st show ?thesis by (simp add: accepted_item_def effect_nothing)
  next
    case (4 e row)
    then have "ri_outcome r \<noteq> Accepted" "st' = (states, used_id db)" using run' by (auto split: if_splits)
    with 4(1) st show ?thesis by (simp add: accepted_item_def effect_nothing)
  next
    case (5 e states' db2)
    then have "r = answer e Accepted None" "st' = (states', presence_after env index e db2)"
      using run' by simp_all
    with effect_accepted [OF dbi wf [OF 5(1)] 5(4,5,6,9)] 5(1) st show ?thesis by (simp add: accepted_item_def)
  qed
qed

lemma ingest_scan_effect:
  assumes "ingest_inv asg st" and "list_all item_ok items"
    and "res_scan (ingest_item env gid 1 asg) index items st = Inr (rs, st')"
  shows "effect env (snd st) (snd st') (accepted_from index items rs)"
  using assms
proof (induction items arbitrary: index st rs)
  case Nil
  then show ?case by (simp add: effect_nothing)
next
  case (Cons item items)
  from Cons.prems(3) obtain r t rs' where t: "ingest_item env gid 1 asg index item st = Inr (r, t)"
      "res_scan (ingest_item env gid 1 asg) (Suc index) items t = Inr (rs', st')" "rs = r # rs'"
    by (rule res_scan_ConsE)
  have ok: "item_ok item" "list_all item_ok items" using Cons.prems(2) by simp_all
  have "effect env (snd t) (snd st') (accepted_from (Suc index) items rs')"
    by (rule Cons.IH [OF ingest.step_inv(1) [OF Cons.prems(1) ok(1) t(1)] ok(2) t(2)])
  with ingest_item_effect [OF Cons.prems(1) ok(1) t(1)] show ?case
    unfolding t(3) accepted_from_Cons by (rule effect_append)
qed

text \<open>Another environment of the same database server: other clocks, another commit.\<close>

abbreviation later_env :: "ingest_env \<Rightarrow> (nat \<Rightarrow> usec) \<Rightarrow> (nat \<Rightarrow> usec) \<Rightarrow> bool \<Rightarrow> ingest_env" where
  "later_env env clock presence commits \<equiv>
     env\<lparr>ie_insert_clock := clock, ie_presence_clock := presence, ie_commits := commits\<rparr>"

definition retryable :: "ingest_env \<Rightarrow> string \<Rightarrow> assignments \<Rightarrow> batch_item \<Rightarrow> response_item \<Rightarrow> ingest_state \<Rightarrow> bool" where
  "retryable env gid asg item r st \<longleftrightarrow> settled_item (ie_numeric_ok env) gid asg item r (snd st)
     \<and> dom asg \<subseteq> d_device_id ` set (devices (snd st))"

definition same_session :: "ingest_state \<Rightarrow> ingest_state \<Rightarrow> bool" where
  "same_session st st' \<longleftrightarrow> fst st' = fst st \<and> only_ids (snd st) (snd st')"

interpretation retry: retry_scan "ingest_item env gid 1 asg" "ingest_inv asg" item_ok result_for
    "ingest_item (later_env env clock presence commits) gid 1 asg"
    "\<lambda>item r st. settled_item (ie_numeric_ok env) gid asg item r (snd st)" "retryable env gid asg" same_session again
  for env gid asg clock presence commits
proof unfold_locales
  fix s x index r s'
  assume "ingest_inv asg s" "item_ok x" "ingest_item env gid 1 asg index x s = Inr (r, s')"
  then show "settled_item (ie_numeric_ok env) gid asg x r (snd s')" by (rule ingest_item_settles)
next
  fix x r s y index q s'
  assume "settled_item (ie_numeric_ok env) gid asg x r (snd s)" "ingest_inv asg s" "item_ok y"
    "ingest_item env gid 1 asg index y s = Inr (q, s')"
  then show "settled_item (ie_numeric_ok env) gid asg x r (snd s')"
    using ingest_item_extends settled_item_extends unfolding extends_def by blast
next
  fix x r index and t :: ingest_state
  assume "retryable env gid asg x r t"
  then show "\<exists>t'. ingest_item (later_env env clock presence commits) gid 1 asg index x t = Inr (again r, t')
      \<and> same_session t t'"
    using ingest_item_repeats [of "later_env env clock presence commits" gid asg x r "snd t" index "fst t"]
    by (auto simp: retryable_def same_session_def)
next
  fix x r t t'
  assume r: "retryable env gid asg x r t" and "same_session t t'"
  then have "telemetry (snd t') = telemetry (snd t)" "devices (snd t') = devices (snd t)"
    using only_idsD unfolding same_session_def by blast+
  with r show "retryable env gid asg x r t'"
    using settled_item_extends [of "ie_numeric_ok env" gid asg x r "snd t" "snd t'" "[]"]
    by (simp add: retryable_def)
next
  show "same_session t t" for t by (simp add: same_session_def)
next
  show "same_session t t''" if "same_session t t'" "same_session t' t''" for t t' t''
    using that only_ids_trans by (simp add: same_session_def) blast
qed

definition batch_ok :: "validated_batch \<Rightarrow> bool" where
  "batch_ok b \<longleftrightarrow> vb_schema_version b = 1 \<and> vb_items b \<noteq> [] \<and> length (vb_items b) \<le> MAX_BATCH_SIZE
     \<and> list_all item_ok (vb_items b)"

definition eligible :: "database \<Rightarrow> string \<Rightarrow> bool" where
  "eligible db gid \<longleftrightarrow> lock_gateway_eligibility db gid = Some (True, True)"

abbreviation batch_assignments :: "database \<Rightarrow> validated_batch \<Rightarrow> assignments" where
  "batch_assignments db batch \<equiv> lock_assignments db (batch_device_ids (vb_items batch))"

lemma assignments_devices: "dom (lock_assignments db ids) \<subseteq> d_device_id ` set (devices db)"
  by (auto simp: lock_assignments_def dom_def dest: lookup_by_SomeD)

lemma ingest_batch_cases:
  assumes inv: "db_inv db" and ok: "batch_ok batch" and id: "identifier_ok batch_id"
  obtains (forbidden) "\<not> eligible db gid" "ingest_batch env gid batch batch_id db = (Inl Gateway_forbidden, db)"
  | (rolled_back) "eligible db gid" "\<not> ie_commits env"
      "ingest_batch env gid batch batch_id db = (Inl Database_failure, db)"
  | (committed) rs st' where "eligible db gid" "ie_commits env"
      "res_scan (ingest_item env gid 1 (batch_assignments db batch)) 0 (vb_items batch) (Map.empty, db) = Inr (rs, st')"
      "ingest_inv (batch_assignments db batch) (Map.empty, db)"
      "ingest_inv (batch_assignments db batch) st'" "list_all2 result_for (vb_items batch) rs"
      "ingest_batch env gid batch batch_id db = (Inr \<lparr>br_batch_id = batch_id, br_results = rs\<rparr>, snd st')"
proof (cases "eligible db gid")
  case False
  then have "ingest_batch env gid batch batch_id db = (Inl Gateway_forbidden, db)"
    by (auto simp: ingest_batch_def eligible_def split: option.splits)
  then show ?thesis using forbidden False by blast
next
  case elig: True
  let ?asg = "batch_assignments db batch"
  have start: "ingest_inv ?asg (Map.empty, db)"
    using inv assignments_devices by (simp add: ingest_inv_def cache_ok_def)
  have items: "list_all item_ok (vb_items batch)" and v: "vb_schema_version batch = 1"
    using ok by (simp_all add: batch_ok_def)
  obtain rs st' where run: "res_scan (ingest_item env gid 1 ?asg) 0 (vb_items batch) (Map.empty, db) = Inr (rs, st')"
      "ingest_inv ?asg st'" "list_all2 result_for (vb_items batch) rs"
    using ingest.scan_ok [OF start items] by blast
  have "length rs = length (vb_items batch)" using run(3) by (simp add: list_all2_lengthD)
  then have "TelemetryBatchResponse batch_id rs = Inr \<lparr>br_batch_id = batch_id, br_results = rs\<rparr>"
    using ok id by (auto simp: TelemetryBatchResponse_def batch_ok_def Suc_le_eq)
  moreover obtain c db' where "st' = (c, db')" by (cases st')
  ultimately have eq: "ingest_batch env gid batch batch_id db =
      (if ie_commits env then (Inr \<lparr>br_batch_id = batch_id, br_results = rs\<rparr>, snd st') else (Inl Database_failure, db))"
    using elig run(1) v by (simp add: ingest_batch_def eligible_def)
  then show ?thesis
    using committed [OF elig _ run(1) start run(2,3)] rolled_back [OF elig] by (cases "ie_commits env") simp_all
qed

section \<open>Properties\<close>

definition demo_env :: ingest_env where
  "demo_env = \<lparr>ie_numeric_ok = (\<lambda>v. True), ie_insert_clock = (\<lambda>i. 500), ie_presence_clock = (\<lambda>i. 600),
     ie_commits = True\<rparr>"

text \<open>A new reading, a repeated one, and a reading of a device that is not registered.\<close>

definition demo_batch :: validated_batch where
  "demo_batch = \<lparr>vb_schema_version = 1, vb_items =
     [Valid_item (demo_reading 9 31 450), Valid_item (demo_reading 1 31 100),
      Valid_item (demo_reading 9 31 450\<lparr>ev_device_id := ''d2''\<rparr>)]\<rparr>"

lemma demo_db_inv: "db_inv demo_db"
  by (simp add: db_inv_def registry_ok_def telemetry_ok_def telemetry_checks_def t_identity_def alerts_inv_def
      ClockQuality_def demo_defs)

lemma demo_batch_ok: "batch_ok demo_batch" "identifier_ok ''batch-1''" "eligible demo_db ''g1''" "ie_commits demo_env"
  by (simp_all add: batch_ok_def demo_batch_def event_wf_def identifier_ok_def counter_ok_def quality_ok_def
      in_datetime_range_def datetime_end_def days_def seconds_def identifier_pattern_def MAX_BATCH_SIZE_def MAX_IDENTIFIER_LENGTH_def MAX_COUNTER_def ClockQuality_def
      eligible_def lock_gateway_eligibility_def demo_env_def demo_defs)

lemma result_for_ok: "result_for x r \<Longrightarrow> item_ok x \<Longrightarrow> response_item_ok r"
  using answer_ok [of "ri_outcome r" "ri_reason r"] by (cases x) (simp, metis, simp)

lemma committed_answers:
  assumes "db_inv db" and "batch_ok batch" and "identifier_ok batch_id"
    and "ingest_batch env gateway_id batch batch_id db = (Inr response, db')"
  shows "br_batch_id response = batch_id \<and> list_all2 result_for (vb_items batch) (br_results response)
    \<and> list_all response_item_ok (br_results response) \<and> db_inv db' \<and> extends db db'"
proof (rule ingest_batch_cases [OF assms(1-3), where env = env and gid = gateway_id])
  fix rs st'
  let ?asg = "batch_assignments db batch"
  assume run: "res_scan (ingest_item env gateway_id 1 ?asg) 0 (vb_items batch) (Map.empty, db) = Inr (rs, st')"
      "ingest_inv ?asg (Map.empty, db)" "ingest_inv ?asg st'" "list_all2 result_for (vb_items batch) rs"
      "ingest_batch env gateway_id batch batch_id db = (Inr \<lparr>br_batch_id = batch_id, br_results = rs\<rparr>, snd st')"
  have items: "list_all item_ok (vb_items batch)" using assms(2) by (simp add: batch_ok_def)
  have "list_all response_item_ok rs"
    using run(4) items
    by (induction rule: list_all2_induct) (auto dest: result_for_ok)
  moreover have "extends (snd (Map.empty :: state_cache, db)) (snd st')"
    by (rule ingest.scan_relates [where rel = "\<lambda>a b. extends (snd a) (snd b)", OF extends_refl _ _ run(2) items run(1)])
      (blast intro: extends_trans ingest_item_extends)+
  ultimately show ?thesis using run assms(4) by (auto simp: ingest_inv_def)
qed (use assms(4) in simp_all)

text \<open>
  C3. A validated batch from an enabled gateway of an enabled site, when the commit succeeds, is
  answered with its batch id and exactly one result per item, in order: a rejected item's own
  result, or a result under the identity of the event, each of them valid for the response model.
  The invariant of the database is kept, no stored reading is changed or removed, and nothing of
  the registry but \<open>last_seen_at\<close> changes.
\<close>

theorem ingest_answers_every_item:
  assumes "db_inv db" and "batch_ok batch" and "identifier_ok batch_id" and "eligible db gateway_id"
    and "ie_commits env"
  shows "\<exists>results db'. ingest_batch env gateway_id batch batch_id db =
      (Inr \<lparr>br_batch_id = batch_id, br_results = results\<rparr>, db')
    \<and> list_all2 result_for (vb_items batch) results \<and> list_all response_item_ok results
    \<and> db_inv db' \<and> extends db db'"
proof (rule ingest_batch_cases [OF assms(1-3), where env = env and gid = gateway_id])
  fix rs st'
  assume "ingest_batch env gateway_id batch batch_id db = (Inr \<lparr>br_batch_id = batch_id, br_results = rs\<rparr>, snd st')"
  with committed_answers [OF assms(1-3) this] show ?thesis by auto
qed (use assms in simp_all)

theorem ingest_answers_every_item_witness:
  "\<exists>results db'. ingest_batch demo_env ''g1'' demo_batch ''batch-1'' demo_db =
      (Inr \<lparr>br_batch_id = ''batch-1'', br_results = results\<rparr>, db')
    \<and> list_all2 result_for (vb_items demo_batch) results \<and> list_all response_item_ok results
    \<and> db_inv db' \<and> extends demo_db db'"
  by (rule ingest_answers_every_item [OF demo_db_inv demo_batch_ok])

text \<open>
  All or nothing: an error leaves the database as it was, is never an unhandled exception, and
  happens exactly for an ineligible gateway (forbidden) or a failing commit (database failure).
\<close>

theorem ingest_all_or_nothing:
  assumes "db_inv db" and "batch_ok batch" and "identifier_ok batch_id"
    and "ingest_batch env gateway_id batch batch_id db = (Inl failure, db')"
  shows "db' = db \<and> failure = (if eligible db gateway_id then Database_failure else Gateway_forbidden)
    \<and> (eligible db gateway_id \<longrightarrow> \<not> ie_commits env)"
  by (rule ingest_batch_cases [OF assms(1-3), where env = env and gid = gateway_id])
    (use assms(4) in auto)

theorem ingest_all_or_nothing_witness:
  "ingest_batch (demo_env\<lparr>ie_commits := False\<rparr>) ''g1'' demo_batch ''batch-1'' demo_db = (Inl Database_failure, demo_db)"
proof -
  obtain x db' where "ingest_batch (demo_env\<lparr>ie_commits := False\<rparr>) ''g1'' demo_batch ''batch-1'' demo_db = (Inl x, db')"
    by (rule ingest_batch_cases [OF demo_db_inv demo_batch_ok(1,2), of "''g1''" "demo_env\<lparr>ie_commits := False\<rparr>"]) auto
  with ingest_all_or_nothing [OF demo_db_inv demo_batch_ok(1,2) this] demo_batch_ok(3) show ?thesis by simp
qed

text \<open>
  C4. Exactly the accepted events are stored: a committed batch appends one telemetry row per
  accepted result, in order, holding the event's fields, schema version 1 and the server's receipt
  time, under ids that were not used before, and leaves every earlier row as it was.
\<close>

theorem ingest_stores_accepted:
  assumes "db_inv db" and "batch_ok batch" and "identifier_ok batch_id"
    and "ingest_batch env gateway_id batch batch_id db = (Inr response, db')"
  shows "\<exists>rows. telemetry db' = telemetry db @ rows
    \<and> list_all2 (row_of env) (accepted_events (vb_items batch) (br_results response)) rows
    \<and> distinct (map t_id (telemetry db')) \<and> distinct (map t_identity (telemetry db'))"
proof (rule ingest_batch_cases [OF assms(1-3), where env = env and gid = gateway_id])
  fix rs st'
  let ?asg = "batch_assignments db batch"
  assume run: "res_scan (ingest_item env gateway_id 1 ?asg) 0 (vb_items batch) (Map.empty, db) = Inr (rs, st')"
      "ingest_inv ?asg (Map.empty, db)" "ingest_inv ?asg st'"
      "ingest_batch env gateway_id batch batch_id db = (Inr \<lparr>br_batch_id = batch_id, br_results = rs\<rparr>, snd st')"
  then have eq: "response = \<lparr>br_batch_id = batch_id, br_results = rs\<rparr>" "db' = snd st'" using assms(4) by simp_all
  have "list_all item_ok (vb_items batch)" using assms(2) by (simp add: batch_ok_def)
  from ingest_scan_effect [OF run(2) this run(1)] run(3) show ?thesis
    by (auto simp: effect_def eq ingest_inv_def db_inv_def telemetry_ok_def)
qed (use assms(4) in simp_all)

lemma demo_committed:
  obtains rs db' where "ingest_batch demo_env ''g1'' demo_batch ''batch-1'' demo_db =
    (Inr \<lparr>br_batch_id = ''batch-1'', br_results = rs\<rparr>, db')"
  by (rule ingest_batch_cases [OF demo_db_inv demo_batch_ok(1,2), of "''g1''" demo_env])
    (use demo_batch_ok(3,4) in blast)+

theorem ingest_stores_accepted_witness:
  "\<exists>response db' rows. ingest_batch demo_env ''g1'' demo_batch ''batch-1'' demo_db = (Inr response, db')
    \<and> telemetry db' = telemetry demo_db @ rows
    \<and> list_all2 (row_of demo_env) (accepted_events (vb_items demo_batch) (br_results response)) rows"
proof -
  obtain rs db' where r: "ingest_batch demo_env ''g1'' demo_batch ''batch-1'' demo_db =
    (Inr \<lparr>br_batch_id = ''batch-1'', br_results = rs\<rparr>, db')" by (rule demo_committed)
  from ingest_stores_accepted [OF demo_db_inv demo_batch_ok(1,2) r] r show ?thesis by blast
qed

lemma result_settled:
  assumes "ingest_inv asg st" and "list_all item_ok items"
    and run: "res_scan (ingest_item env gid 1 asg) 0 items st = Inr (rs, st')"
    and i: "i < length items" "items ! i = Valid_item e"
  shows "ri_outcome (rs ! i) = Accepted \<longleftrightarrow>
    assignment_reason gid (asg (ev_device_id e)) = None \<and> ie_numeric_ok env (ev_value e)
    \<and> ev_identity e \<notin> t_identity ` set (telemetry (snd st))
    \<and> ev_identity e \<notin> (ev_identity \<circ> snd) ` set (accepted_from 0 (take i items) (take i rs))"
proof -
  let ?step = "ingest_item env gid 1 asg"
  have items: "items = take i items @ Valid_item e # drop (Suc i) items"
    using id_take_nth_drop [OF i(1)] i(2) by simp
  obtain rs1 rs2 t where t: "res_scan ?step 0 (take i items) st = Inr (rs1, t)"
      "res_scan ?step i (Valid_item e # drop (Suc i) items) t = Inr (rs2, st')" "rs = rs1 @ rs2"
    using run by (subst (asm) items) (auto simp: res_scan_append i(1) less_imp_le min.absorb2)
  obtain r t' rs3 where r: "?step i (Valid_item e) t = Inr (r, t')" "rs2 = r # rs3"
    by (rule res_scan_ConsE [OF t(2)]) blast
  have len: "length rs1 = i" using res_scan_length [OF t(1)] i(1) by simp
  then have nth: "rs ! i = r" "take i rs = rs1" using t(3) r(2) by (simp_all add: nth_append)
  have ok: "list_all item_ok (take i items)" "item_ok (Valid_item e)"
    using assms(2) i by (metis items list_all_append, metis list_all_length)
  have inv_t: "ingest_inv asg t" using ingest.scan_ok [OF assms(1) ok(1), of env gid 0] t(1) by auto
  obtain rows where rows: "telemetry (snd t) = telemetry (snd st) @ rows"
      "list_all2 (row_of env) (accepted_from 0 (take i items) rs1) rows"
    using ingest_scan_effect [OF assms(1) ok(1) t(1)] unfolding effect_def by blast
  have "t_identity ` set rows = (ev_identity \<circ> snd) ` set (accepted_from 0 (take i items) rs1)"
    using rows(2) by (induction rule: list_all2_induct) (auto simp: row_of_def)
  then have known: "t_identity ` set (telemetry (snd t)) =
      t_identity ` set (telemetry (snd st)) \<union> (ev_identity \<circ> snd) ` set (accepted_from 0 (take i items) rs1)"
    by (simp add: rows(1) image_Un)
  obtain states db where st: "t = (states, db)" by (cases t)
  have "ri_outcome r = Accepted \<longleftrightarrow> assignment_reason gid (asg (ev_device_id e)) = None
      \<and> ie_numeric_ok env (ev_value e) \<and> lookup_by t_identity (ev_identity e) (telemetry db) = None"
    using inv_t unfolding st
    by (rule ingest_item_cases [OF _ ok(2), where env = env and gid = gid and index = i])
      (use r(1) st in \<open>auto split: if_splits\<close>)
  then show ?thesis using known st by (simp add: nth lookup_by_None_iff)
qed

lemma accepted_rule:
  assumes "db_inv db" and "batch_ok batch" and "identifier_ok batch_id"
    and "ingest_batch env gateway_id batch batch_id db = (Inr response, db')"
    and "i < length (vb_items batch)" and "vb_items batch ! i = Valid_item e"
  shows "ri_outcome (br_results response ! i) = Accepted \<longleftrightarrow>
    (\<exists>d. lookup_by d_device_id (ev_device_id e) (devices db) = Some d \<and> d_gateway_id d = gateway_id \<and> d_enabled d)
    \<and> ie_numeric_ok env (ev_value e) \<and> ev_identity e \<notin> t_identity ` set (telemetry db)
    \<and> ev_identity e \<notin> (ev_identity \<circ> snd) `
        set (accepted_events (take i (vb_items batch)) (take i (br_results response)))"
proof (rule ingest_batch_cases [OF assms(1-3), where env = env and gid = gateway_id])
  fix rs st'
  let ?asg = "batch_assignments db batch"
  assume run: "res_scan (ingest_item env gateway_id 1 ?asg) 0 (vb_items batch) (Map.empty, db) = Inr (rs, st')"
      "ingest_inv ?asg (Map.empty, db)"
      "ingest_batch env gateway_id batch batch_id db = (Inr \<lparr>br_batch_id = batch_id, br_results = rs\<rparr>, snd st')"
  then have eq: "br_results response = rs" using assms(4) by simp
  have "Valid_item e \<in> set (vb_items batch)" using assms(5,6) by (metis nth_mem)
  then have "ev_device_id e \<in> batch_device_ids (vb_items batch)"
    unfolding batch_device_ids_def by force
  then have "assignment_reason gateway_id (?asg (ev_device_id e)) = None \<longleftrightarrow>
      (\<exists>d. lookup_by d_device_id (ev_device_id e) (devices db) = Some d \<and> d_gateway_id d = gateway_id \<and> d_enabled d)"
    by (auto simp: assignment_reason_def lock_assignments_def split: option.splits)
  moreover have "list_all item_ok (vb_items batch)" using assms(2) by (simp add: batch_ok_def)
  ultimately show ?thesis using result_settled [OF run(2) _ run(1) assms(5,6)] eq by simp
qed (use assms(4) in simp_all)

text \<open>
  C2. The rule for acceptance, first writer wins: a valid item is accepted if and only if its
  device is registered, assigned to the submitting gateway and enabled, its value fits the column,
  and its identity (device, boot, sequence number) is neither stored nor accepted for an earlier
  item of the same batch.
\<close>

theorem accepted_iff_new_and_authorised:
  assumes "db_inv db" and "batch_ok batch" and "identifier_ok batch_id"
    and "ingest_batch env gateway_id batch batch_id db = (Inr response, db')"
    and "i < length (vb_items batch)" and "vb_items batch ! i = Valid_item e"
  shows "ri_outcome (br_results response ! i) = Accepted \<longleftrightarrow>
    (\<exists>d. lookup_by d_device_id (ev_device_id e) (devices db) = Some d \<and> d_gateway_id d = gateway_id \<and> d_enabled d)
    \<and> ie_numeric_ok env (ev_value e) \<and> ev_identity e \<notin> t_identity ` set (telemetry db)
    \<and> ev_identity e \<notin> (ev_identity \<circ> snd) `
        set (accepted_events (take i (vb_items batch)) (take i (br_results response)))"
  using accepted_rule [OF assms] .

theorem accepted_iff_new_and_authorised_witness:
  "\<exists>response db'. ingest_batch demo_env ''g1'' demo_batch ''batch-1'' demo_db = (Inr response, db')
    \<and> ri_outcome (br_results response ! 0) = Accepted \<and> ri_outcome (br_results response ! 1) \<noteq> Accepted"
proof -
  obtain rs db' where r: "ingest_batch demo_env ''g1'' demo_batch ''batch-1'' demo_db =
    (Inr \<lparr>br_batch_id = ''batch-1'', br_results = rs\<rparr>, db')" by (rule demo_committed)
  note iff = accepted_iff_new_and_authorised [OF demo_db_inv demo_batch_ok(1,2) r]
  have "ri_outcome (rs ! 0) = Accepted"
    using iff [of 0 "demo_reading 9 31 450"]
    by (simp add: demo_batch_def demo_env_def t_identity_def ev_identity_def demo_defs)
  moreover have "ri_outcome (rs ! 1) \<noteq> Accepted"
    using iff [of 1 "demo_reading 1 31 100"]
    by (simp add: demo_batch_def demo_env_def t_identity_def ev_identity_def demo_defs)
  ultimately show ?thesis using r by simp
qed

lemma lookup_by_map:
  "(\<And>r. key (f r) = key r) \<Longrightarrow> lookup_by key k (map f rows) = map_option f (lookup_by key k rows)"
  by (induction rows) auto

lemma same_registry_device:
  assumes "same_registry db db'"
  shows "map_option (\<lambda>d. (d_gateway_id d, d_enabled d)) (lookup_by d_device_id dev (devices db'))
    = map_option (\<lambda>d. (d_gateway_id d, d_enabled d)) (lookup_by d_device_id dev (devices db))"
proof -
  let ?f = "\<lambda>d. d\<lparr>d_last_seen_at := None\<rparr>" and ?g = "\<lambda>d. (d_gateway_id d, d_enabled d)"
  have strip: "map_option ?g (lookup_by d_device_id dev (devices x))
      = map_option ?g (lookup_by d_device_id dev (map ?f (devices x)))" for x
    by (simp add: lookup_by_map option.map_comp comp_def)
  have "map ?f (devices db') = map ?f (devices db)" using assms by (simp add: same_registry_def)
  then show ?thesis unfolding strip [of db] strip [of db'] by (rule arg_cong)
qed

lemma same_registry_assignments:
  "same_registry db db' \<Longrightarrow> lock_assignments db' ids = lock_assignments db ids"
  by (rule ext) (simp add: lock_assignments_def same_registry_device)

lemma same_registry_eligible:
  "same_registry db db' \<Longrightarrow> eligible db' gid = eligible db gid"
  by (simp add: eligible_def lock_gateway_eligibility_def same_registry_def cong: option.case_cong)

text \<open>
  C1. A retry is safe: after a committed batch, and any number of other ingestions in between
  (\<open>extends\<close>), the same batch under a new batch id and other clocks is answered with the same
  results, accepted turned into duplicate; it stores nothing, raises no alert and records no presence:
  the database is unchanged but for the identity values the conflicting inserts used up.
\<close>

theorem retry_is_idempotent:
  assumes "db_inv db" and "batch_ok batch" and "identifier_ok batch_id" and "identifier_ok retry_id"
    and "ingest_batch env gateway_id batch batch_id db = (Inr response, db')"
    and "db_inv db2" and "extends db' db2"
    and "ie_commits env2" and "ie_numeric_ok env2 = ie_numeric_ok env"
  shows "\<exists>db3. ingest_batch env2 gateway_id batch retry_id db2 =
      (Inr \<lparr>br_batch_id = retry_id, br_results = map again (br_results response)\<rparr>, db3) \<and> only_ids db2 db3"
proof (rule ingest_batch_cases [OF assms(1-3), where env = env and gid = gateway_id])
  fix rs st'
  let ?asg = "batch_assignments db batch"
  assume run: "eligible db gateway_id"
      "res_scan (ingest_item env gateway_id 1 ?asg) 0 (vb_items batch) (Map.empty, db) = Inr (rs, st')"
      "ingest_inv ?asg (Map.empty, db)" "ingest_inv ?asg st'"
      "ingest_batch env gateway_id batch batch_id db = (Inr \<lparr>br_batch_id = batch_id, br_results = rs\<rparr>, snd st')"
  then have eq: "br_results response = rs" "db' = snd st'" using assms(5) by simp_all
  have items: "list_all item_ok (vb_items batch)" using assms(2) by (simp add: batch_ok_def)
  have "extends (snd (Map.empty :: state_cache, db)) (snd st')"
    by (rule ingest.scan_relates [where rel = "\<lambda>a b. extends (snd a) (snd b)", OF extends_refl _ _ run(3) items run(2)])
      (blast intro: extends_trans ingest_item_extends)+
  then have reg: "same_registry db db2"
    using assms(7) same_registry_trans unfolding extends_def eq(2) by auto
  have env2: "env2 = later_env env (ie_insert_clock env2) (ie_presence_clock env2) True"
    using assms(8,9) by (cases env; cases env2) simp
  let ?run2 = "ingest_item (later_env env (ie_insert_clock env2) (ie_presence_clock env2) True) gateway_id 1 ?asg"
  obtain rows where rows: "telemetry db2 = telemetry (snd st') @ rows"
    using assms(7) unfolding extends_def eq(2) by blast
  have dom: "dom ?asg \<subseteq> d_device_id ` set (devices db2)"
    using assignments_devices [of db] same_registry_ids(2) [OF reg] by blast
  have "list_all2 (\<lambda>x r. settled_item (ie_numeric_ok env) gateway_id ?asg x r (snd st')) (vb_items batch) rs"
    by (rule retry.scan_settles [OF run(3) items run(2)])
  then have "list_all2 (\<lambda>x r. retryable env gateway_id ?asg x r (Map.empty, db2)) (vb_items batch) rs"
    by (rule list_all2_mono) (use rows dom in \<open>auto simp: retryable_def intro: settled_item_extends\<close>)
  from retry.rescan [OF this, where index = 0 and clock = "ie_insert_clock env2"
      and presence = "ie_presence_clock env2" and commits = True] obtain t' where
      t': "res_scan ?run2 0 (vb_items batch) (Map.empty, db2) = Inr (map again rs, t')"
      "same_session (Map.empty, db2) t'" by blast
  have "eligible db2 gateway_id" using run(1) same_registry_eligible [OF reg] by simp
  then show ?thesis
  proof (rule_tac ingest_batch_cases [OF assms(6,2,4), where env = env2 and gid = gateway_id])
    fix rs2 st2
    assume "res_scan (ingest_item env2 gateway_id 1 (batch_assignments db2 batch)) 0 (vb_items batch)
        (Map.empty, db2) = Inr (rs2, st2)"
      and r2: "ingest_batch env2 gateway_id batch retry_id db2 = (Inr \<lparr>br_batch_id = retry_id, br_results = rs2\<rparr>, snd st2)"
    then have "rs2 = map again rs \<and> st2 = t'"
      using t'(1) same_registry_assignments [OF reg] env2 by (metis Pair_inject sum.inject(2))
    with r2 t'(2) eq show ?thesis by (auto simp: same_session_def)
  qed (use assms(8) in simp_all)
qed (use assms(5) in simp_all)

theorem retry_is_idempotent_witness:
  "\<exists>response db' db3. ingest_batch demo_env ''g1'' demo_batch ''batch-1'' demo_db = (Inr response, db')
    \<and> ingest_batch demo_env ''g1'' demo_batch ''batch-2'' db' =
      (Inr \<lparr>br_batch_id = ''batch-2'', br_results = map again (br_results response)\<rparr>, db3) \<and> only_ids db' db3"
proof -
  obtain rs st' where r: "ingest_batch demo_env ''g1'' demo_batch ''batch-1'' demo_db =
      (Inr \<lparr>br_batch_id = ''batch-1'', br_results = rs\<rparr>, snd st')" "db_inv (snd st')"
    by (rule ingest_batch_cases [OF demo_db_inv demo_batch_ok(1,2), of "''g1''" demo_env])
      (use demo_batch_ok(3,4) in \<open>auto simp: ingest_inv_def\<close>)
  have "identifier_ok ''batch-2''"
    by (simp add: identifier_ok_def identifier_pattern_def MAX_IDENTIFIER_LENGTH_def)
  from retry_is_idempotent [OF demo_db_inv demo_batch_ok(1,2) this r(1) r(2) extends_refl demo_batch_ok(4) refl] r(1)
  show ?thesis by blast
qed

lemma committed_effect:
  assumes "db_inv db" and "batch_ok batch" and "identifier_ok batch_id"
    and "ingest_batch env gateway_id batch batch_id db = (Inr response, db')"
  shows "effect env db db' (accepted_events (vb_items batch) (br_results response)) \<and> db_inv db'"
proof (rule ingest_batch_cases [OF assms(1-3), where env = env and gid = gateway_id])
  fix rs st'
  let ?asg = "batch_assignments db batch"
  assume run: "res_scan (ingest_item env gateway_id 1 ?asg) 0 (vb_items batch) (Map.empty, db) = Inr (rs, st')"
      "ingest_inv ?asg (Map.empty, db)" "ingest_inv ?asg st'"
      "ingest_batch env gateway_id batch batch_id db = (Inr \<lparr>br_batch_id = batch_id, br_results = rs\<rparr>, snd st')"
  then have eq: "response = \<lparr>br_batch_id = batch_id, br_results = rs\<rparr>" "db' = snd st'" using assms(4) by simp_all
  have "list_all item_ok (vb_items batch)" using assms(2) by (simp add: batch_ok_def)
  from ingest_scan_effect [OF run(2) this run(1)] run(3) show ?thesis by (simp add: eq ingest_inv_def)
qed (use assms(4) in simp_all)

lemma presence_of_cases:
  "presence_of env dev seen acc = seen \<and>
     (\<forall>(i, e) \<in> set acc. ev_device_id e = dev \<longrightarrow> \<not> recent_contact (ie_insert_clock env i) e)
   \<or> (\<exists>(i, e) \<in> set acc. ev_device_id e = dev \<and> recent_contact (ie_insert_clock env i) e
        \<and> presence_of env dev seen acc = Some (ie_presence_clock env i))"
proof (induction acc arbitrary: seen)
  case (Cons p acc)
  obtain i e where p: "p = (i, e)" by (cases p)
  show ?case
  proof (cases "ev_device_id e = dev \<and> recent_contact (ie_insert_clock env i) e")
    case True
    then show ?thesis using Cons.IH [of "Some (ie_presence_clock env i)"] by (auto simp: p)
  next
    case False
    then show ?thesis using Cons.IH [of seen] by (auto simp: p)
  qed
qed simp



text \<open>
  C8. Alerts follow the accepted readings: a committed batch moves the alarm of every device through
  the abstract machine on exactly its accepted readings that count (fresh at their receipt, in event
  order), in batch order; and the device has an open episode afterwards iff that alarm is raised.
\<close>

theorem ingest_drives_alarms:
  assumes "db_inv db" and "batch_ok batch" and "identifier_ok batch_id"
    and "ingest_batch env gateway_id batch batch_id db = (Inr response, db')"
  shows "alarm_of db' dev = foldl alarm_step (alarm_of db dev) (counted dev (cursor_of db dev)
      (map (\<lambda>(i, e). (e, ie_insert_clock env i)) (accepted_events (vb_items batch) (br_results response))))
    \<and> (in_alarm (alarm_of db' dev) \<longleftrightarrow> (\<exists>e \<in> set (alert_episodes db'). ep_device_id e = dev \<and> is_open e))"
proof -
  have eff: "effect env db db' (accepted_events (vb_items batch) (br_results response))" and inv: "alerts_inv db'"
    using committed_effect [OF assms] by (simp_all add: db_inv_def)
  have "foldl alarm_step (alarm_of db dev) (counted dev (cursor_of db dev)
      (map (\<lambda>(i, e). (e, ie_insert_clock env i)) (accepted_events (vb_items batch) (br_results response)) @ []))
    = foldl alarm_step (alarm_of db' dev) (counted dev (cursor_of db' dev) [])"
    using eff unfolding effect_def by blast
  then show ?thesis using alarm_open [OF inv] by simp
qed

theorem ingest_drives_alarms_witness:
  "\<exists>response db'. ingest_batch demo_env ''g1'' demo_batch ''batch-1'' demo_db = (Inr response, db')
    \<and> alarm_of db' ''d2'' = Normal 0"
proof -
  obtain rs db' where r: "ingest_batch demo_env ''g1'' demo_batch ''batch-1'' demo_db =
    (Inr \<lparr>br_batch_id = ''batch-1'', br_results = rs\<rparr>, db')" by (rule demo_committed)
  have len: "length rs = 3"
    by (rule ingest_batch_cases [OF demo_db_inv demo_batch_ok(1,2), of "''g1''" demo_env])
      (use r demo_batch_ok(3,4) in \<open>auto simp: demo_batch_def dest: list_all2_lengthD\<close>)
  then obtain r1 r2 r3 where rs: "rs = [r1, r2, r3]" by (auto simp: length_Suc_conv numeral_3_eq_3)
  have "ri_outcome r3 \<noteq> Accepted"
    using accepted_rule [OF demo_db_inv demo_batch_ok(1,2) r, of 2 "demo_reading 9 31 450\<lparr>ev_device_id := ''d2''\<rparr>"]
    by (simp add: rs demo_batch_def demo_defs)
  with ingest_drives_alarms [OF demo_db_inv demo_batch_ok(1,2) r, of "''d2''"] r
  show ?thesis by (simp add: rs demo_batch_def demo_reading_def alarm_of_def demo_db_def empty_database_def)
qed

end
