(* ===== verification/History.thy ===== *)
theory History
  imports Devices_Repository Telemetry_Repository Alerts
begin

text \<open>
  \<open>read_device_history\<close> of \<open>backend/app/telemetry/service.py\<close>: bounded history of one device. The
  range is given as datetimes that may lack a timezone; the points are in event order with a mark
  where the line that connects them must break.
\<close>

section \<open>The range\<close>

definition MAX_POINTS :: nat where "MAX_POINTS = 2000"
definition MAX_RANGE :: usec where "MAX_RANGE = days 7"
definition MAX_CONNECTED_GAP :: usec where "MAX_CONNECTED_GAP = minutes 2"

datatype history_error = Invalid_range | Device_not_found | History_sql_error

text \<open>
  The guard of \<open>read_device_history\<close>. Comparison and difference are only evaluated when both ends have a
  \<open>tzinfo\<close>, so they never raise TypeError.
\<close>

definition invalid_range :: "py_datetime \<Rightarrow> py_datetime \<Rightarrow> bool" where
  "invalid_range range_start range_end \<longleftrightarrow>
     utcoffset range_start = None \<or> utcoffset range_end = None
     \<or> instant range_start \<ge> instant range_end
     \<or> instant range_end - instant range_start > MAX_RANGE"

section \<open>Points\<close>

record history_point =
  hp_event_at :: usec
  hp_timestamp_source :: string
  hp_measured_at :: "usec option"
  hp_gateway_received_at :: usec
  hp_clock_quality :: string
  hp_value :: rat
  hp_unit :: string
  hp_gap_before :: bool

record device_history =
  dh_device_id :: string
  dh_unit :: string
  dh_range_start :: py_datetime
  dh_range_end :: py_datetime
  dh_truncated :: bool
  dh_points :: "history_point list"

definition timestamp_source :: "telemetry_row \<Rightarrow> string" where
  "timestamp_source row =
     (if t_measured_at row \<noteq> None \<and> q_clock (t_quality row) = ''synchronised''
      then ''measured_at'' else ''gateway_received_at'')"

definition gap_before :: "telemetry_row option \<Rightarrow> telemetry_row \<Rightarrow> bool" where
  "gap_before previous row \<longleftrightarrow>
     (case previous of
        None \<Rightarrow> True
      | Some p \<Rightarrow>
          t_boot_id row \<noteq> t_boot_id p
          \<or> t_sequence_number row \<noteq> t_sequence_number p + 1
          \<or> event_time row - event_time p > MAX_CONNECTED_GAP
          \<or> (timestamp_source row = ''measured_at'')
              \<noteq> (t_measured_at p \<noteq> None \<and> q_clock (t_quality p) = ''synchronised''))"

definition history_point_of :: "telemetry_row option \<Rightarrow> telemetry_row \<Rightarrow> history_point" where
  "history_point_of previous row = \<lparr>hp_event_at = event_time row, hp_timestamp_source = timestamp_source row,
     hp_measured_at = t_measured_at row, hp_gateway_received_at = t_gateway_received_at row,
     hp_clock_quality = q_clock (t_quality row), hp_value = t_value row, hp_unit = t_unit row,
     hp_gap_before = gap_before previous row\<rparr>"

fun history_points :: "telemetry_row option \<Rightarrow> telemetry_row list \<Rightarrow> history_point list" where
  "history_points previous [] = []"
| "history_points previous (row # rows) = history_point_of previous row # history_points (Some row) rows"

text \<open>
  The query binds the ends as UTC; a bound that UTC cannot represent is an error of the statement,
  and so is a device id with a NUL character.
\<close>

definition read_device_history :: "database \<Rightarrow> string \<Rightarrow> py_datetime \<Rightarrow> py_datetime
    \<Rightarrow> (history_error, device_history) result" where
  "read_device_history db device_id range_start range_end =
     (if invalid_range range_start range_end then Inl Invalid_range
      else if \<not> sql_text device_id then Inl History_sql_error
      else if \<not> device_exists db device_id then Inl Device_not_found
      else (case (process_bind_param (Some range_start), process_bind_param (Some range_end)) of
         (Inr (Some lo), Inr (Some hi)) \<Rightarrow>
           (let rows = read_history_rows db device_id (instant lo) (instant hi) (MAX_POINTS + 1);
                ordered = rev (take MAX_POINTS rows)
            in Inr \<lparr>dh_device_id = device_id, dh_unit = ''celsius'', dh_range_start = range_start,
                 dh_range_end = range_end, dh_truncated = length rows > MAX_POINTS,
                 dh_points = history_points None ordered\<rparr>)
       | _ \<Rightarrow> Inl History_sql_error))"

section \<open>Correctness\<close>

definition in_range :: "database \<Rightarrow> string \<Rightarrow> usec \<Rightarrow> usec \<Rightarrow> telemetry_row list" where
  "in_range db dev lo hi = filter (\<lambda>r. t_device_id r = dev \<and> lo \<le> event_time r \<and> event_time r < hi) (telemetry db)"

lemma length_history_points [simp]: "length (history_points previous rows) = length rows"
  by (induction rows arbitrary: previous) simp_all

lemma history_points_nth:
  "i < length rows \<Longrightarrow> history_points previous rows ! i =
     history_point_of (if i = 0 then previous else Some (rows ! (i - 1))) (rows ! i)"
proof (induction rows arbitrary: previous i)
  case (Cons row rows)
  then show ?case by (cases i; cases "i - 1") auto
qed simp

lemma history_points_event_at: "map hp_event_at (history_points previous rows) = map event_time rows"
  by (induction rows arbitrary: previous) (simp_all add: history_point_of_def)

definition older :: "telemetry_row \<Rightarrow> telemetry_row \<Rightarrow> bool" where
  "older r s \<longleftrightarrow> (event_time r, t_id r) < (event_time s, t_id s)"

lemma read_history_rows_correct:
  fixes lo hi :: usec and n :: nat and dev :: string
  assumes ok: "telemetry_ok db"
  defines "rows \<equiv> read_history_rows db dev lo hi n" and "all \<equiv> in_range db dev lo hi"
  shows "sorted_wrt (\<lambda>r s. older s r) rows" and "set rows \<subseteq> set all" and "length rows = min n (length all)"
    and "\<And>r s. r \<in> set all \<Longrightarrow> r \<notin> set rows \<Longrightarrow> s \<in> set rows \<Longrightarrow> older r s"
proof -
  let ?key = "\<lambda>r. (event_time r, t_id r)"
  let ?sorted = "order_desc ?key all"
  have rows: "rows = take n ?sorted"
    unfolding rows_def all_def in_range_def read_history_rows_def by (rule arg_cong) simp
  have "distinct (map t_id all)"
    using ok unfolding all_def in_range_def by (intro distinct_map_filter_key) (simp add: telemetry_ok_def)
  then have "distinct (map (snd \<circ> ?key) all)" by (simp add: comp_def)
  then have keys: "distinct (map ?key all)" by (simp only: map_map [symmetric] distinct_map)
  then have strict: "sorted_wrt (\<lambda>r s. older s r) ?sorted"
    unfolding older_def by (rule sorted_wrt_order_desc)
  then show "sorted_wrt (\<lambda>r s. older s r) rows" unfolding rows by (rule sorted_wrt_take)
  show "set rows \<subseteq> set all" using set_take_subset [of n ?sorted] by (simp add: rows)
  show "length rows = min n (length all)" by (simp add: rows min.commute)
  fix r s assume r: "r \<in> set all" "r \<notin> set rows" and s: "s \<in> set rows"
  have "set all = set (take n ?sorted) \<union> set (drop n ?sorted)"
    unfolding set_append [symmetric] append_take_drop_id by simp
  then have "r \<in> set (drop n ?sorted)" using r rows by blast
  moreover have "sorted_wrt (\<lambda>r s. older s r) (take n ?sorted @ drop n ?sorted)" using strict by simp
  ultimately show "older r s" using s unfolding sorted_wrt_append rows by blast
qed

text \<open>
  C13. The history of a device holds, in strictly ascending event order, the newest
  \<open>min 2000 n\<close> of its \<open>n\<close> readings in the half-open range: every point is one of them, every reading
  left out is older than every point, and \<open>truncated\<close> tells exactly whether any was left out. The first
  point starts a segment; a later one continues it iff boot and clock source are unchanged, the sequence
  number is the successor and the readings are at most two minutes apart.
\<close>

theorem history_is_newest_window:
  assumes "telemetry_ok db" and "read_device_history db dev range_start range_end = Inr h"
  shows "\<exists>rows. sorted_wrt older rows
    \<and> set rows \<subseteq> set (in_range db dev (instant range_start) (instant range_end))
    \<and> length rows = min 2000 (length (in_range db dev (instant range_start) (instant range_end)))
    \<and> (\<forall>r \<in> set (in_range db dev (instant range_start) (instant range_end)) - set rows. \<forall>s \<in> set rows. older r s)
    \<and> (dh_truncated h \<longleftrightarrow> length (in_range db dev (instant range_start) (instant range_end)) > 2000)
    \<and> map hp_event_at (dh_points h) = map event_time rows \<and> map hp_value (dh_points h) = map t_value rows
    \<and> (\<forall>i < length rows. hp_gap_before (dh_points h ! i) \<longleftrightarrow>
         i = 0 \<or> \<not> (t_boot_id (rows ! i) = t_boot_id (rows ! (i - 1))
           \<and> t_sequence_number (rows ! i) = t_sequence_number (rows ! (i - 1)) + 1
           \<and> event_time (rows ! i) - event_time (rows ! (i - 1)) \<le> minutes 2
           \<and> timestamp_source (rows ! i) = timestamp_source (rows ! (i - 1))))"
proof -
  define lo hi where "lo = instant range_start" and "hi = instant range_end"
  define got where "got = read_history_rows db dev lo hi 2001"
  define rows where "rows = rev (take 2000 got)"
  have bound: "instant u = instant d" if "process_bind_param (Some d) = Inr (Some u)" for d u
    using process_bind_param_instant [OF that] by simp
  have h: "dh_truncated h = (length got > 2000)" "dh_points h = history_points None rows"
    using assms(2) bound
    by (auto simp: read_device_history_def MAX_POINTS_def Let_def got_def lo_def hi_def rows_def
        split: if_splits sum.splits option.splits)
  note g = read_history_rows_correct [OF assms(1), where dev = dev and lo = lo and hi = hi and n = 2001, folded got_def]
  have take: "sorted_wrt (\<lambda>r s. older s r) (take 2000 got @ drop 2000 got)" using g(1) by simp
  then have "sorted_wrt older rows" by (simp add: rows_def sorted_wrt_append sorted_wrt_rev)
  moreover have "set rows \<subseteq> set (in_range db dev lo hi)"
    using g(2) set_take_subset [of 2000 got] by (auto simp: rows_def)
  moreover have "length rows = min 2000 (length (in_range db dev lo hi))" using g(3) by (simp add: rows_def)
  moreover have "older r s" if r: "r \<in> set (in_range db dev lo hi) - set rows" and s: "s \<in> set rows" for r s
  proof (cases "r \<in> set got")
    case True
    have "set got = set (take 2000 got) \<union> set (drop 2000 got)"
      unfolding set_append [symmetric] append_take_drop_id by simp
    then have "r \<in> set (drop 2000 got)" using True r by (auto simp: rows_def)
    with take s show ?thesis unfolding sorted_wrt_append rows_def by auto
  next
    case False
    have "s \<in> set got" using s set_take_subset [of 2000 got] by (auto simp: rows_def)
    with False r g(4) show ?thesis by blast
  qed
  moreover have "dh_truncated h \<longleftrightarrow> length (in_range db dev lo hi) > 2000" using h(1) g(3) by simp
  moreover have "map hp_event_at (dh_points h) = map event_time rows"
    by (simp add: h(2) history_points_event_at)
  moreover have "map hp_value (dh_points h) = map t_value rows"
    by (rule nth_equalityI) (simp_all add: h(2) history_points_nth history_point_of_def)
  moreover have "hp_gap_before (dh_points h ! i) \<longleftrightarrow>
         i = 0 \<or> \<not> (t_boot_id (rows ! i) = t_boot_id (rows ! (i - 1))
           \<and> t_sequence_number (rows ! i) = t_sequence_number (rows ! (i - 1)) + 1
           \<and> event_time (rows ! i) - event_time (rows ! (i - 1)) \<le> minutes 2
           \<and> timestamp_source (rows ! i) = timestamp_source (rows ! (i - 1)))" if "i < length rows" for i
    using that
    by (auto simp: h(2) history_points_nth history_point_of_def gap_before_def MAX_CONNECTED_GAP_def
        timestamp_source_def)
  ultimately show ?thesis unfolding lo_def hi_def by blast
qed

lemma demo_history:
  "telemetry_ok demo_db"
  "is_ok (read_device_history demo_db ''d1'' (DT 0 (Some 0)) (DT 7200000000 (Some 3600000000)))"
  by (simp_all add: telemetry_ok_def telemetry_checks_def t_identity_def ClockQuality_def demo_defs
      read_device_history_def invalid_range_def MAX_RANGE_def days_def device_exists_def sql_text_def
      process_bind_param_def astimezone_utc_def in_datetime_range_def datetime_end_def instant_def Let_def)

theorem history_is_newest_window_witness:
  "\<exists>h. read_device_history demo_db ''d1'' (DT 0 (Some 0)) (DT 7200000000 (Some 3600000000)) = Inr h
    \<and> length (dh_points h) = 4 \<and> \<not> dh_truncated h"
proof -
  obtain h where h: "read_device_history demo_db ''d1'' (DT 0 (Some 0)) (DT 7200000000 (Some 3600000000)) = Inr h"
    using demo_history(2) by (auto simp: is_ok_iff)
  have n: "length (in_range demo_db ''d1'' (instant (DT 0 (Some 0))) (instant (DT 7200000000 (Some 3600000000)))) = 4"
    by (simp add: in_range_def event_time_def instant_def demo_defs)
  from history_is_newest_window [OF demo_history(1) h, unfolded n] obtain rows where
    "length rows = min 2000 4" "dh_truncated h \<longleftrightarrow> (4::nat) > 2000" "map hp_event_at (dh_points h) = map event_time rows"
    by blast
  then have "length (dh_points h) = 4" "\<not> dh_truncated h" using map_eq_imp_length_eq by fastforce+
  with h show ?thesis by blast
qed

text \<open>
  The outcome of a history request is decided by its arguments: the range error exactly for a naive
  end, an empty or reversed range, or more than seven days; then the unknown device; and a history exactly
  for a registered device and a valid range whose ends have a representation in UTC. No naive datetime ever
  reaches a comparison or the database.
\<close>

theorem history_outcome:
  "(read_device_history db dev range_start range_end = Inl Invalid_range \<longleftrightarrow>
      \<not> (is_aware range_start \<and> is_aware range_end \<and> instant range_start < instant range_end
         \<and> instant range_end \<le> instant range_start + days 7))
    \<and> (read_device_history db dev range_start range_end = Inl Device_not_found \<longleftrightarrow>
      \<not> invalid_range range_start range_end \<and> sql_text dev \<and> dev \<notin> d_device_id ` set (devices db))
    \<and> (is_ok (read_device_history db dev range_start range_end) \<longleftrightarrow>
      \<not> invalid_range range_start range_end \<and> sql_text dev \<and> dev \<in> d_device_id ` set (devices db)
      \<and> in_datetime_range (instant range_start) \<and> in_datetime_range (instant range_end))"
proof -
  have range: "invalid_range range_start range_end \<longleftrightarrow>
      \<not> (is_aware range_start \<and> is_aware range_end \<and> instant range_start < instant range_end
         \<and> instant range_end \<le> instant range_start + days 7)"
    by (auto simp: invalid_range_def is_aware_def MAX_RANGE_def)
  have dev: "device_exists db dev \<longleftrightarrow> dev \<in> d_device_id ` set (devices db)"
    by (simp only: device_exists_def lookup_by_None_iff not_not)
  have bind: "\<not> invalid_range range_start range_end \<Longrightarrow>
     (case (process_bind_param (Some range_start), process_bind_param (Some range_end)) of
        (Inr (Some lo), Inr (Some hi)) \<Rightarrow> in_datetime_range (instant range_start) \<and> in_datetime_range (instant range_end)
          \<and> lo = DT (instant range_start) (Some 0) \<and> hi = DT (instant range_end) (Some 0)
      | _ \<Rightarrow> \<not> (in_datetime_range (instant range_start) \<and> in_datetime_range (instant range_end)))"
    by (auto simp: process_bind_param_def invalid_range_def astimezone_utc_def)
  then show ?thesis
    unfolding range [symmetric] dev [symmetric]
    by (auto simp: read_device_history_def Let_def split: sum.splits option.splits)
qed

end
