(* ===== verification/Credentials.thy ===== *)
theory Credentials
  imports Py_Text Prelude
begin

text \<open>
  \<open>backend/app/devices/credentials.py\<close>: password storage. The key derivation
  \<open>hashlib.pbkdf2_hmac("sha256", _, _, ITERATIONS)\<close> is the parameter \<open>kdf\<close>, a function from password and salt
  bytes to the digest; \<open>secrets.token_bytes(16)\<close> is the argument \<open>salt\<close>.
\<close>

type_synonym kdf = "byte list \<Rightarrow> byte list \<Rightarrow> byte list"

definition ITERATIONS :: nat where "ITERATIONS = 310000"

definition hash_password :: "kdf \<Rightarrow> byte list \<Rightarrow> string \<Rightarrow> string" where
  "hash_password kdf salt password =
     (let digest = kdf (utf8_encode password) salt
      in ''pbkdf2_sha256'' @ CHR ''$'' # digits_of_nat ITERATIONS @ CHR ''$'' # bytes_hex salt
           @ CHR ''$'' # bytes_hex digest)"

text \<open>
  The tuple assignment raises ValueError unless there are four pieces; \<open>int\<close> and \<open>bytes.fromhex\<close> raise it on
  malformed text. All of them are caught.
\<close>

definition verify_password :: "kdf \<Rightarrow> string \<Rightarrow> string option \<Rightarrow> bool" where
  "verify_password kdf password stored =
     (case stored of
        None \<Rightarrow> False
      | Some s \<Rightarrow>
          (case py_split_on (CHR ''$'') s of
             [algorithm, iterations, salt, digest] \<Rightarrow>
               if algorithm \<noteq> ''pbkdf2_sha256'' \<or> py_int iterations \<noteq> Some (int ITERATIONS) then False
               else (case bytes_fromhex salt of
                       None \<Rightarrow> False
                     | Some salt_bytes \<Rightarrow>
                         (case bytes_fromhex digest of
                            None \<Rightarrow> False
                          | Some expected \<Rightarrow> kdf (utf8_encode password) salt_bytes = expected))
           | _ \<Rightarrow> False))"

section \<open>The stored form\<close>

lemma hex_digit_code: "n < 16 \<Longrightarrow> 48 \<le> (of_char (hex_digit n) :: nat)"
  by (simp add: hex_digit_def)

lemma bytes_hex_code:
  assumes "c \<in> set (bytes_hex bs)" shows "48 \<le> (of_char c :: nat)"
  using bytes_hex_chars [OF assms] hex_digit_code by blast

lemma bytes_hex_no_dollar: "CHR ''$'' \<notin> set (bytes_hex bs)"
  using bytes_hex_code [of "CHR ''$''" bs] by auto

lemma digits_no_dollar: "CHR ''$'' \<notin> set (digits_of_nat n)"
  using digits_of_nat_digits [of n] by (auto simp: is_digit_c_def less_eq_char_def)

lemma split_stored:
  "py_split_on (CHR ''$'') (hash_password kdf salt password) =
     [''pbkdf2_sha256'', digits_of_nat ITERATIONS, bytes_hex salt, bytes_hex (kdf (utf8_encode password) salt)]"
proof -
  have "py_split_on (CHR ''$'') (''pbkdf2_sha256'' @ CHR ''$'' # s) = ''pbkdf2_sha256'' # py_split_on (CHR ''$'') s" for s
    by (rule py_split_on_append) simp
  then show ?thesis
    unfolding hash_password_def Let_def
    by (simp only: py_split_on_append [OF digits_no_dollar] py_split_on_append [OF bytes_hex_no_dollar]
        py_split_on_free [OF bytes_hex_no_dollar])
qed

lemma verify_stored:
  "verify_password kdf guess (Some (hash_password kdf salt password)) \<longleftrightarrow>
     kdf (utf8_encode guess) salt = kdf (utf8_encode password) salt"
  by (simp add: verify_password_def split_stored py_int_digits_of_nat bytes_fromhex_hex)

lemma verify_nothing: "\<not> verify_password kdf guess None"
  by (simp add: verify_password_def)

lemma length_bytes_hex: "length (bytes_hex bs) = 2 * length bs"
  by (induction bs) (simp_all add: bytes_hex_def)

lemma length_stored:
  "length (hash_password kdf salt password) =
     22 + 2 * length salt + 2 * length (kdf (utf8_encode password) salt)"
proof -
  have "length (digits_of_nat ITERATIONS) = 6" by (simp add: ITERATIONS_def digits_of_nat.simps)
  then show ?thesis by (simp add: hash_password_def Let_def length_bytes_hex)
qed

section \<open>What the device service relies on\<close>

text \<open>
  The contract of a password scheme: a stored hash is accepted with its own password, it is text the
  column holds, and nothing is accepted without a stored hash.
\<close>

locale password_scheme =
  fixes hash :: "string \<Rightarrow> string" and verify :: "string \<Rightarrow> string option \<Rightarrow> bool"
  assumes verify_own: "verify password (Some (hash password))"
    and hash_fits: "length (hash password) \<le> 200"
    and hash_text: "CHR 0x00 \<notin> set (hash password)"
    and no_hash: "\<not> verify password None"

lemma hash_no_nul: "CHR 0x00 \<notin> set (hash_password kdf salt password)"
proof -
  have hex: "CHR 0x00 \<notin> set (bytes_hex bs)" for bs
    using bytes_hex_code [of "CHR 0x00" bs] by auto
  have "CHR 0x00 \<notin> set (digits_of_nat ITERATIONS)"
    using digits_of_nat_digits [of ITERATIONS] by (auto simp: is_digit_c_def less_eq_char_def)
  with hex show ?thesis by (simp add: hash_password_def Let_def)
qed

text \<open>SHA-256 digests have 32 bytes. The instance truncates other functions' digests to that.\<close>

definition sized :: "kdf \<Rightarrow> kdf" where
  "sized kdf password salt = take 32 (kdf password salt)"

interpretation pbkdf2: password_scheme "hash_password (sized kdf) (take 16 salt)" "verify_password (sized kdf)"
  for kdf salt
proof unfold_locales
  fix password
  show "verify_password (sized kdf) password (Some (hash_password (sized kdf) (take 16 salt) password))"
    by (simp add: verify_stored)
  show "length (hash_password (sized kdf) (take 16 salt) password) \<le> 200"
    by (simp add: length_stored sized_def)
  show "CHR 0x00 \<notin> set (hash_password (sized kdf) (take 16 salt) password)" by (rule hash_no_nul)
  show "\<not> verify_password (sized kdf) password None" by (rule verify_nothing)
qed

section \<open>Properties\<close>

text \<open>
  Round trip of password storage: what \<open>hash_password\<close> stores, \<open>verify_password\<close> accepts for exactly
  the passwords whose derived key (under the stored salt) equals that of the original one, in particular
  for the original; the stored text of a 16-byte salt and a 32-byte digest has 118 characters, which
  the column holds.
\<close>

theorem password_round_trip:
  "(verify_password kdf guess (Some (hash_password kdf salt password)) \<longleftrightarrow>
      kdf (utf8_encode guess) salt = kdf (utf8_encode password) salt)
   \<and> verify_password kdf password (Some (hash_password kdf salt password))
   \<and> \<not> verify_password kdf guess None
   \<and> length (hash_password kdf salt password) = 22 + 2 * (length salt + length (kdf (utf8_encode password) salt))"
  by (simp add: verify_stored length_stored verify_nothing)

end
