(* ===== verification/Mqtt_Broker.thy ===== *)
theory Mqtt_Broker
  imports Py_Text Py_Values
begin

text \<open>
  \<open>backend/app/integrations/mqtt.py\<close>: device accounts through Mosquitto's Dynamic Security. The broker and
  the MQTT client library are outside: \<open>be_send\<close> is one exchange over the control topic, from the
  commands published to the payloads received within the time limit (\<open>None\<close> for one that does not
  decode), and may change the broker's state whether or not an answer arrives.
\<close>

section \<open>Commands\<close>

datatype command =
    Get_client string
  | Get_role string
  | Create_role string
  | Create_client string string
  | Set_client_password string string
  | Disable_client string
  | Enable_client string
  | Delete_client string

fun command_name :: "command \<Rightarrow> string" where
  "command_name (Get_client _) = ''getClient''"
| "command_name (Get_role _) = ''getRole''"
| "command_name (Create_role _) = ''createRole''"
| "command_name (Create_client _ _) = ''createClient''"
| "command_name (Set_client_password _ _) = ''setClientPassword''"
| "command_name (Disable_client _) = ''disableClient''"
| "command_name (Enable_client _) = ''enableClient''"
| "command_name (Delete_client _) = ''deleteClient''"

definition DEVICE_ROLE :: string where "DEVICE_ROLE = ''iemp-device-publisher''"

text \<open>A Python exception other than the two of the module is \<open>Broker_crash\<close>.\<close>

datatype broker_error = Broker_unavailable | Broker_conflict | Broker_crash

record 'b broker_env =
  be_send :: "'b \<Rightarrow> command \<Rightarrow> string \<Rightarrow> pyval option list \<times> 'b"
  be_token :: "'b \<Rightarrow> string"
  be_admin_password :: "string option"
  be_legacy_file :: "string option"
  be_login :: "'b \<Rightarrow> string \<Rightarrow> string \<Rightarrow> bool option"

text \<open>An operation of the class: a result, and the state of the broker after it.\<close>

type_synonym ('b, 'a) broker_op = "'b \<Rightarrow> (broker_error, 'a) result \<times> 'b"

definition bret :: "'a \<Rightarrow> ('b, 'a) broker_op" where
  "bret a s = (Inr a, s)"

definition braise :: "broker_error \<Rightarrow> ('b, 'a) broker_op" where
  "braise x s = (Inl x, s)"

definition bbind :: "('b, 'a) broker_op \<Rightarrow> ('a \<Rightarrow> ('b, 'c) broker_op) \<Rightarrow> ('b, 'c) broker_op" where
  "bbind m f s = (case m s of (Inl x, s') \<Rightarrow> (Inl x, s') | (Inr a, s') \<Rightarrow> f a s')"

section \<open>One exchange\<close>

fun is_dict :: "pyval \<Rightarrow> bool" where
  "is_dict (PDict d) = True"
| "is_dict _ = False"

text \<open>Lists and dicts are unhashable; the set comprehension over them raises TypeError, which is caught.\<close>

fun hashable :: "pyval \<Rightarrow> bool" where
  "hashable (PList xs) = False"
| "hashable (PDict d) = False"
| "hashable _ = True"

definition correlations :: "pyval list \<Rightarrow> pyval list" where
  "correlations responses = map (\<lambda>item. dict_get (dict_or_empty item) ''correlationData'') (filter is_dict responses)"

text \<open>
  \<open>on_message\<close>: the responses of a payload that answers exactly the expected correlation. A payload that
  is no object raises an AttributeError in the network thread, which ends it: \<open>Inl\<close>.
\<close>

definition on_message :: "string \<Rightarrow> pyval option \<Rightarrow> (unit, pyval list option) result" where
  "on_message token payload =
     (case payload of
        None \<Rightarrow> Inr None
      | Some (PDict d) \<Rightarrow>
          (case dict_get d ''responses'' of
             PList responses \<Rightarrow>
               if list_all hashable (correlations responses) \<and> set (correlations responses) = {PStr token}
               then Inr (Some responses) else Inr None
           | _ \<Rightarrow> Inr None)
      | Some _ \<Rightarrow> Inl ())"

text \<open>The first matching message, if the network thread gets to it.\<close>

fun first_match :: "string \<Rightarrow> pyval option list \<Rightarrow> pyval list option" where
  "first_match token [] = None"
| "first_match token (m # ms) =
     (case on_message token m of
        Inl _ \<Rightarrow> None
      | Inr None \<Rightarrow> first_match token ms
      | Inr (Some responses) \<Rightarrow> Some responses)"

definition request :: "'b broker_env \<Rightarrow> command \<Rightarrow> ('b, pyval list) broker_op" where
  "request env c s =
     (case be_admin_password env of
        None \<Rightarrow> (Inl Broker_unavailable, s)
      | Some text \<Rightarrow>
          if py_strip text = '''' then (Inl Broker_unavailable, s)
          else (let (messages, s') = be_send env s c (be_token env s)
                in case first_match (be_token env s) messages of
                     None \<Rightarrow> (Inl Broker_unavailable, s')
                   | Some responses \<Rightarrow> (Inr responses, s')))"

text \<open>\<open>_one\<close>: the first response, which must be an object and answer the command.\<close>

definition one :: "'b broker_env \<Rightarrow> command \<Rightarrow> ('b, (string \<times> pyval) list) broker_op" where
  "one env c =
     bbind (request env c) (\<lambda>responses.
       case responses of
         PDict response # _ \<Rightarrow>
           if dict_get response ''command'' \<noteq> PStr (command_name c) then braise Broker_unavailable
           else bret response
       | _ \<Rightarrow> braise Broker_crash)"

definition has_error :: "(string \<times> pyval) list \<Rightarrow> bool" where
  "has_error response \<longleftrightarrow> map_of response ''error'' \<noteq> None"

section \<open>Accounts\<close>

definition get_client :: "'b broker_env \<Rightarrow> string \<Rightarrow> ('b, (string \<times> pyval) list option) broker_op" where
  "get_client env username =
     bbind (one env (Get_client username)) (\<lambda>response.
       if dict_get response ''error'' = PStr ''Client not found'' then bret None
       else if has_error response then braise Broker_unavailable
       else (case (case map_of response ''data'' of None \<Rightarrow> PDict [] | Some v \<Rightarrow> v) of
               PDict payload \<Rightarrow>
                 (case dict_get payload ''client'' of
                    PDict client \<Rightarrow> bret (Some client) | _ \<Rightarrow> braise Broker_unavailable)
             | _ \<Rightarrow> braise Broker_crash))"

text \<open>\<open>_is_managed\<close>: iterating over a value that is no sequence raises TypeError.\<close>

definition is_managed :: "(string \<times> pyval) list \<Rightarrow> (broker_error, bool) result" where
  "is_managed client =
     (case (case map_of client ''roles'' of None \<Rightarrow> PList [] | Some v \<Rightarrow> v) of
        PList roles \<Rightarrow>
          Inr (list_ex (\<lambda>role. is_dict role \<and> dict_get (dict_or_empty role) ''rolename'' = PStr DEVICE_ROLE) roles)
      | PDict _ \<Rightarrow> Inr False
      | PStr _ \<Rightarrow> Inr False
      | _ \<Rightarrow> Inl Broker_crash)"

definition blift :: "(broker_error, 'a) result \<Rightarrow> ('b, 'a) broker_op" where
  "blift r s = (r, s)"

definition ensure_role :: "'b broker_env \<Rightarrow> ('b, unit) broker_op" where
  "ensure_role env =
     bbind (one env (Get_role DEVICE_ROLE)) (\<lambda>response.
       if \<not> has_error response then bret ()
       else if dict_get response ''error'' \<noteq> PStr ''Role not found'' then braise Broker_unavailable
       else bbind (one env (Create_role DEVICE_ROLE)) (\<lambda>response.
         if dict_get response ''error'' \<notin> {PNone, PStr ''Role already exists''} then braise Broker_unavailable
         else bret ()))"

text \<open>Line boundaries of \<open>str.splitlines\<close> in the Latin-1 range.\<close>

definition is_line_end :: "char \<Rightarrow> bool" where
  "is_line_end c \<longleftrightarrow> c \<in> set [CHR 0x0A, CHR 0x0B, CHR 0x0C, CHR 0x0D, CHR 0x1C, CHR 0x1D, CHR 0x1E, CHR 0x85]"

text \<open>
  An empty line in the middle of the file has the empty user name, which no device id equals, so that
  splitting a CR LF pair into two ends does not change whether an account is found.
\<close>

fun py_lines :: "string \<Rightarrow> string list" where
  "py_lines [] = [[]]"
| "py_lines (c # s) = (if is_line_end c then [] # py_lines s
     else (case py_lines s of [] \<Rightarrow> [[c]] | l # ls \<Rightarrow> (c # l) # ls))"

definition legacy_account_exists :: "'b broker_env \<Rightarrow> string \<Rightarrow> ('b, bool) broker_op" where
  "legacy_account_exists env username =
     (case be_legacy_file env of
        None \<Rightarrow> braise Broker_unavailable
      | Some text \<Rightarrow> bret (list_ex (\<lambda>line. py_partition_fst (CHR '':'') line = username) (py_lines text)))"

definition verify_login :: "'b broker_env \<Rightarrow> string \<Rightarrow> string \<Rightarrow> ('b, bool) broker_op" where
  "verify_login env username password s =
     (case be_login env s username password of
        None \<Rightarrow> (Inl Broker_unavailable, s) | Some accepted \<Rightarrow> (Inr accepted, s))"

definition delete_account :: "'b broker_env \<Rightarrow> string \<Rightarrow> ('b, unit) broker_op" where
  "delete_account env device_id =
     bbind (one env (Delete_client device_id)) (\<lambda>response.
       if dict_get response ''error'' \<notin> {PNone, PStr ''Client not found''} then braise Broker_unavailable
       else bret ())"

definition enable_account :: "'b broker_env \<Rightarrow> string \<Rightarrow> ('b, unit) broker_op" where
  "enable_account env device_id =
     bbind (one env (Enable_client device_id)) (\<lambda>response.
       if has_error response then braise Broker_unavailable else bret ())"

definition disable_account :: "'b broker_env \<Rightarrow> string \<Rightarrow> ('b, bool) broker_op" where
  "disable_account env device_id =
     bbind (get_client env device_id) (\<lambda>existing.
       case existing of
         None \<Rightarrow> bret False
       | Some client \<Rightarrow>
           bbind (blift (is_managed client)) (\<lambda>managed.
             if \<not> managed then braise Broker_conflict
             else bbind (one env (Disable_client device_id)) (\<lambda>response.
               if has_error response then braise Broker_unavailable else bret True)))"

text \<open>Truth of a JSON value, as \<open>if existing.get("disabled")\<close> tests it.\<close>

fun truthy :: "pyval \<Rightarrow> bool" where
  "truthy PNone = False"
| "truthy (PBool b) = b"
| "truthy (PInt n) = (n \<noteq> 0)"
| "truthy (PNum (Finite q)) = (q \<noteq> 0)"
| "truthy (PStr s) = (s \<noteq> '''')"
| "truthy (PList xs) = (xs \<noteq> [])"
| "truthy (PDict d) = (d \<noteq> [])"
| "truthy _ = True"

definition create_account :: "'b broker_env \<Rightarrow> string \<Rightarrow> string \<Rightarrow> ('b, bool) broker_op" where
  "create_account env device_id password =
     bbind (get_client env device_id) (\<lambda>existing.
       bbind (case existing of
           None \<Rightarrow> bret ()
         | Some client \<Rightarrow>
             if truthy (dict_get client ''disabled'')
             then bbind (blift (is_managed client)) (\<lambda>managed.
               if managed then delete_account env device_id else braise Broker_conflict)
             else braise Broker_conflict) (\<lambda>_.
       bbind (legacy_account_exists env device_id) (\<lambda>legacy.
         if legacy
         then bbind (verify_login env device_id password) (\<lambda>accepted.
           if accepted then bret False else braise Broker_conflict)
         else bbind (ensure_role env) (\<lambda>_.
           bbind (one env (Create_client device_id password)) (\<lambda>response.
             if dict_get response ''error'' = PStr ''Client already exists'' then braise Broker_conflict
             else if has_error response then braise Broker_unavailable
             else bret True)))))"

definition ensure_account :: "'b broker_env \<Rightarrow> string \<Rightarrow> string \<Rightarrow> ('b, bool) broker_op" where
  "ensure_account env device_id password =
     bbind (get_client env device_id) (\<lambda>existing.
       case existing of
         None \<Rightarrow> create_account env device_id password
       | Some client \<Rightarrow>
           bbind (blift (is_managed client)) (\<lambda>managed.
             if \<not> managed then braise Broker_conflict
             else bbind (one env (Set_client_password device_id password)) (\<lambda>response.
               if has_error response then braise Broker_unavailable
               else if truthy (dict_get client ''disabled'')
               then bbind (enable_account env device_id) (\<lambda>_. bret True)
               else bret True)))"

section \<open>A broker with the documented behaviour\<close>

text \<open>
  Mosquitto's Dynamic Security as its documentation describes it: clients with a password, roles and
  a disabled flag, and the answers to the commands used here.
\<close>

record account =
  ac_password :: string
  ac_roles :: "string list"
  ac_disabled :: bool

record dynsec =
  ds_accounts :: "string \<rightharpoonup> account"
  ds_roles :: "string list"

definition client_fields :: "string \<Rightarrow> account \<Rightarrow> (string \<times> pyval) list" where
  "client_fields u a =
     [(''username'', PStr u), (''roles'', PList (map (\<lambda>r. PDict [(''rolename'', PStr r)]) (ac_roles a)))]
     @ (if ac_disabled a then [(''disabled'', PBool True)] else [])"

definition err_field :: "string \<Rightarrow> (string \<times> pyval) list" where
  "err_field message = [(''error'', PStr message)]"

fun dynsec_answer :: "command \<Rightarrow> dynsec \<Rightarrow> (string \<times> pyval) list" where
  "dynsec_answer (Get_client u) d =
     (case ds_accounts d u of
        None \<Rightarrow> err_field ''Client not found''
      | Some a \<Rightarrow> [(''data'', PDict [(''client'', PDict (client_fields u a))])])"
| "dynsec_answer (Get_role r) d =
     (if r \<in> set (ds_roles d) then [(''data'', PDict [(''role'', PDict [(''rolename'', PStr r)])])]
      else err_field ''Role not found'')"
| "dynsec_answer (Create_role r) d =
     (if r \<in> set (ds_roles d) then err_field ''Role already exists'' else [])"
| "dynsec_answer (Create_client u p) d =
     (if ds_accounts d u \<noteq> None then err_field ''Client already exists''
      else if DEVICE_ROLE \<notin> set (ds_roles d) then err_field ''Role not found'' else [])"
| "dynsec_answer (Set_client_password u p) d =
     (if ds_accounts d u = None then err_field ''Client not found'' else [])"
| "dynsec_answer (Disable_client u) d = (if ds_accounts d u = None then err_field ''Client not found'' else [])"
| "dynsec_answer (Enable_client u) d = (if ds_accounts d u = None then err_field ''Client not found'' else [])"
| "dynsec_answer (Delete_client u) d = (if ds_accounts d u = None then err_field ''Client not found'' else [])"

definition change_account :: "string \<Rightarrow> (account \<Rightarrow> account) \<Rightarrow> dynsec \<Rightarrow> dynsec" where
  "change_account u f d = d\<lparr>ds_accounts := (ds_accounts d)(u := map_option f (ds_accounts d u))\<rparr>"

fun dynsec_effect :: "command \<Rightarrow> dynsec \<Rightarrow> dynsec" where
  "dynsec_effect (Create_role r) d = (if r \<in> set (ds_roles d) then d else d\<lparr>ds_roles := r # ds_roles d\<rparr>)"
| "dynsec_effect (Create_client u p) d =
     (if ds_accounts d u \<noteq> None \<or> DEVICE_ROLE \<notin> set (ds_roles d) then d
      else d\<lparr>ds_accounts := (ds_accounts d)(u \<mapsto> \<lparr>ac_password = p, ac_roles = [DEVICE_ROLE], ac_disabled = False\<rparr>)\<rparr>)"
| "dynsec_effect (Set_client_password u p) d = change_account u (\<lambda>a. a\<lparr>ac_password := p\<rparr>) d"
| "dynsec_effect (Disable_client u) d = change_account u (\<lambda>a. a\<lparr>ac_disabled := True\<rparr>) d"
| "dynsec_effect (Enable_client u) d = change_account u (\<lambda>a. a\<lparr>ac_disabled := False\<rparr>) d"
| "dynsec_effect (Delete_client u) d = d\<lparr>ds_accounts := (ds_accounts d)(u := None)\<rparr>"
| "dynsec_effect _ d = d"

definition dynsec_reply :: "string \<Rightarrow> command \<Rightarrow> (string \<times> pyval) list \<Rightarrow> pyval" where
  "dynsec_reply token c members = PDict [(''responses'', PList [PDict
     ([(''command'', PStr (command_name c)), (''correlationData'', PStr token)] @ members)])]"

definition managed_account :: "account \<Rightarrow> bool" where
  "managed_account a \<longleftrightarrow> DEVICE_ROLE \<in> set (ac_roles a)"

definition legacy_user :: "'b broker_env \<Rightarrow> string \<Rightarrow> bool" where
  "legacy_user env u \<longleftrightarrow>
     (case be_legacy_file env of None \<Rightarrow> False
      | Some text \<Rightarrow> u \<in> py_partition_fst (CHR '':'') ` set (py_lines text))"

text \<open>The contract: the credentials are readable and every exchange is answered as documented.\<close>

locale dynsec_broker =
  fixes env :: "'b broker_env" and view :: "'b \<Rightarrow> dynsec"
  assumes admin: "\<exists>text. be_admin_password env = Some text \<and> py_strip text \<noteq> ''''"
    and legacy: "be_legacy_file env \<noteq> None"
    and exchange: "be_send env s c token = (messages, s') \<Longrightarrow>
      messages = [Some (dynsec_reply token c (dynsec_answer c (view s)))] \<and> view s' = dynsec_effect c (view s)"
begin

definition response_to :: "'b \<Rightarrow> command \<Rightarrow> (string \<times> pyval) list" where
  "response_to s c = [(''command'', PStr (command_name c)), (''correlationData'', PStr (be_token env s))]
     @ dynsec_answer c (view s)"

definition after :: "command \<Rightarrow> 'b \<Rightarrow> 'b" where
  "after c s = snd (be_send env s c (be_token env s))"

lemma view_after [simp]: "view (after c s) = dynsec_effect c (view s)"
  using exchange [of s c "be_token env s"] by (cases "be_send env s c (be_token env s)") (simp add: after_def)

lemma one_exchange: "one env c s = (Inr (response_to s c), after c s)"
proof -
  obtain t where t: "be_admin_password env = Some t" "py_strip t \<noteq> ''''" using admin by blast
  obtain ms s' where send: "be_send env s c (be_token env s) = (ms, s')" by (cases "be_send env s c (be_token env s)")
  have ms: "ms = [Some (dynsec_reply (be_token env s) c (dynsec_answer c (view s)))]"
    using exchange [OF send] by simp
  have "first_match (be_token env s) ms = Some [PDict (response_to s c)]"
    by (simp add: ms on_message_def dynsec_reply_def dict_get_def correlations_def response_to_def)
  then have "request env c s = (Inr [PDict (response_to s c)], s')"
    using t send by (simp add: request_def)
  then show ?thesis
    by (simp add: one_def bbind_def dict_get_def response_to_def bret_def after_def send)
qed

lemma bbind_one [simp]: "bbind (one env c) f s = f (response_to s c) (after c s)"
  by (simp add: bbind_def one_exchange)

lemma response_error:
  "dict_get (response_to s c) ''error'' = dict_get (dynsec_answer c (view s)) ''error''"
  "has_error (response_to s c) \<longleftrightarrow> has_error (dynsec_answer c (view s))"
  "map_of (response_to s c) ''data'' = map_of (dynsec_answer c (view s)) ''data''"
  by (simp_all add: response_to_def dict_get_def has_error_def)

lemma err_field_simps [simp]:
  "dict_get (err_field m) ''error'' = PStr m" "has_error (err_field m)" "map_of (err_field m) ''data'' = None"
  by (simp_all add: err_field_def dict_get_def has_error_def)

lemma no_error_simps [simp]:
  "dict_get [] k = PNone" "\<not> has_error []" "\<not> has_error [(''data'', v)]" "dict_get [(''data'', v)] ''error'' = PNone"
  by (simp_all add: dict_get_def has_error_def)

lemma get_client_exchange:
  "get_client env u s = (Inr (map_option (client_fields u) (ds_accounts (view s) u)), after (Get_client u) s)"
  by (cases "ds_accounts (view s) u") (simp_all add: get_client_def response_error bret_def, simp add: dict_get_def bret_def)

lemma bbind_get [simp]:
  "bbind (get_client env u) f s = f (map_option (client_fields u) (ds_accounts (view s) u)) (after (Get_client u) s)"
  by (simp add: bbind_def get_client_exchange)

lemma client_managed: "is_managed (client_fields u a) = Inr (managed_account a)"
  by (auto simp: is_managed_def client_fields_def managed_account_def dict_get_def list_ex_iff)

lemma client_disabled: "truthy (dict_get (client_fields u a) ''disabled'') \<longleftrightarrow> ac_disabled a"
  by (simp add: client_fields_def dict_get_def)

lemma blift_simps [simp]: "bbind (blift (Inr a)) f = f a" "bbind (bret a) f = f a"
  by (simp_all add: bbind_def blift_def bret_def fun_eq_iff)

end

section \<open>What the operations do to a reliable broker\<close>

definition with_role :: "dynsec \<Rightarrow> dynsec" where
  "with_role d = (if DEVICE_ROLE \<in> set (ds_roles d) then d else d\<lparr>ds_roles := DEVICE_ROLE # ds_roles d\<rparr>)"

definition new_account :: "string \<Rightarrow> account" where
  "new_account p = \<lparr>ac_password = p, ac_roles = [DEVICE_ROLE], ac_disabled = False\<rparr>"

definition put_account :: "string \<Rightarrow> account option \<Rightarrow> dynsec \<Rightarrow> dynsec" where
  "put_account u a d = d\<lparr>ds_accounts := (ds_accounts d)(u := a)\<rparr>"

lemma put_account_simps [simp]:
  "ds_accounts (put_account u a d) = (ds_accounts d)(u := a)" "ds_roles (put_account u a d) = ds_roles d"
  "ds_accounts (with_role d) = ds_accounts d" "DEVICE_ROLE \<in> set (ds_roles (with_role d))"
  "put_account u a (put_account u b d) = put_account u a d"
  "put_account u (ds_accounts d u) d = d"
  by (simp_all add: put_account_def with_role_def)

lemma change_account_put: "change_account u f d = put_account u (map_option f (ds_accounts d u)) d"
  by (simp add: change_account_def put_account_def)

text \<open>An account that keeps a new registration from taking its name.\<close>

definition taken :: "dynsec \<Rightarrow> string \<Rightarrow> bool" where
  "taken d u \<longleftrightarrow> (case ds_accounts d u of None \<Rightarrow> False | Some a \<Rightarrow> \<not> (ac_disabled a \<and> managed_account a))"

context dynsec_broker
begin

lemma bret_simps [simp]: "bret a s = (Inr a, s)" "braise x s = (Inl x, s)"
  by (simp_all add: bret_def braise_def)

lemma legacy_lookup: "legacy_account_exists env u s = (Inr (legacy_user env u), s)"
proof -
  obtain t where "be_legacy_file env = Some t" using legacy by blast
  then show ?thesis
    by (auto simp: legacy_account_exists_def legacy_user_def list_ex_iff image_iff)
qed

lemma ensure_role_spec: "\<exists>s'. ensure_role env s = (Inr (), s') \<and> view s' = with_role (view s)"
  by (cases "DEVICE_ROLE \<in> set (ds_roles (view s))")
    (simp_all add: ensure_role_def response_error with_role_def)

lemma delete_spec: "\<exists>s'. delete_account env u s = (Inr (), s') \<and> view s' = put_account u None (view s)"
  by (simp add: delete_account_def response_error put_account_def)

lemma enable_spec:
  "\<exists>s'. enable_account env u s =
     (if ds_accounts (view s) u = None then Inl Broker_unavailable else Inr (), s')
   \<and> view s' = change_account u (\<lambda>a. a\<lparr>ac_disabled := False\<rparr>) (view s)"
  by (simp add: enable_account_def response_error)

lemma disable_spec:
  "\<exists>s'. disable_account env u s =
     ((case ds_accounts (view s) u of None \<Rightarrow> Inr False
       | Some a \<Rightarrow> if managed_account a then Inr True else Inl Broker_conflict), s')
   \<and> view s' = (case ds_accounts (view s) u of None \<Rightarrow> view s
       | Some a \<Rightarrow> if managed_account a then put_account u (Some (a\<lparr>ac_disabled := True\<rparr>)) (view s) else view s)"
  by (cases "ds_accounts (view s) u")
    (auto simp: disable_account_def client_managed response_error change_account_put)

lemma create_taken:
  "taken (view s) u \<Longrightarrow> \<exists>s'. create_account env u p s = (Inl Broker_conflict, s') \<and> view s' = view s"
  by (auto simp: taken_def create_account_def bbind_def get_client_exchange client_managed client_disabled
      blift_def split: option.splits)

lemma create_free:
  assumes "\<not> taken (view s) u"
  shows "\<exists>t. view t = put_account u None (view s) \<and> create_account env u p s =
    bbind (legacy_account_exists env u) (\<lambda>legacy.
         if legacy
         then bbind (verify_login env u p) (\<lambda>accepted. if accepted then bret False else braise Broker_conflict)
         else bbind (ensure_role env) (\<lambda>_.
           bbind (one env (Create_client u p)) (\<lambda>response.
             if dict_get response ''error'' = PStr ''Client already exists'' then braise Broker_conflict
             else if has_error response then braise Broker_unavailable
             else bret True))) t"
proof (cases "ds_accounts (view s) u")
  case None
  then have "put_account u None (view s) = view s" by (metis put_account_simps(6))
  with None show ?thesis
    by (intro exI [of _ "after (Get_client u) s"]) (simp add: create_account_def)
next
  case (Some a)
  then have "ac_disabled a" "managed_account a" using assms by (simp_all add: taken_def)
  moreover obtain t where "delete_account env u (after (Get_client u) s) = (Inr (), t)"
      "view t = put_account u None (view s)"
    using delete_spec [of u "after (Get_client u) s"] by auto
  ultimately show ?thesis
    using Some by (intro exI [of _ t]) (simp add: create_account_def client_managed client_disabled bbind_def [of "delete_account env u"])
qed

lemma create_new:
  assumes "\<not> taken (view s) u" and "\<not> legacy_user env u"
  shows "\<exists>s'. create_account env u p s = (Inr True, s')
    \<and> view s' = put_account u (Some (new_account p)) (with_role (view s))"
proof -
  obtain t where t: "view t = put_account u None (view s)" "create_account env u p s =
    bbind (legacy_account_exists env u) (\<lambda>legacy.
         if legacy
         then bbind (verify_login env u p) (\<lambda>accepted. if accepted then bret False else braise Broker_conflict)
         else bbind (ensure_role env) (\<lambda>_.
           bbind (one env (Create_client u p)) (\<lambda>response.
             if dict_get response ''error'' = PStr ''Client already exists'' then braise Broker_conflict
             else if has_error response then braise Broker_unavailable
             else bret True))) t"
    using create_free [OF assms(1)] by blast
  obtain r where r: "ensure_role env t = (Inr (), r)" "view r = with_role (view t)"
    using ensure_role_spec by blast
  have "create_account env u p s = (Inr True, after (Create_client u p) r)"
    using assms(2) r(2)
    by (simp add: t(2) bbind_def [of "legacy_account_exists env u"] bbind_def [of "ensure_role env"] legacy_lookup r(1)
        response_error) (simp add: t(1))
  moreover have "view (after (Create_client u p) r) = put_account u (Some (new_account p)) (with_role (view s))"
    using r(2) by (simp add: t(1) put_account_def new_account_def with_role_def)
  ultimately show ?thesis by blast
qed

lemma create_legacy:
  assumes "\<not> taken (view s) u" and "legacy_user env u"
  shows "\<exists>t. view t = put_account u None (view s) \<and> create_account env u p s =
    ((case be_login env t u p of None \<Rightarrow> Inl Broker_unavailable
      | Some accepted \<Rightarrow> if accepted then Inr False else Inl Broker_conflict), t)"
proof -
  obtain t where t: "view t = put_account u None (view s)" "create_account env u p s =
    bbind (legacy_account_exists env u) (\<lambda>legacy.
         if legacy
         then bbind (verify_login env u p) (\<lambda>accepted. if accepted then bret False else braise Broker_conflict)
         else bbind (ensure_role env) (\<lambda>_.
           bbind (one env (Create_client u p)) (\<lambda>response.
             if dict_get response ''error'' = PStr ''Client already exists'' then braise Broker_conflict
             else if has_error response then braise Broker_unavailable
             else bret True))) t"
    using create_free [OF assms(1)] by blast
  have "create_account env u p s =
    ((case be_login env t u p of None \<Rightarrow> Inl Broker_unavailable
      | Some accepted \<Rightarrow> if accepted then Inr False else Inl Broker_conflict), t)"
    using assms(2) by (simp add: t(2) bbind_def [of "legacy_account_exists env u"] legacy_lookup
        bbind_def [of "verify_login env u p"] verify_login_def split: option.splits)
  with t(1) show ?thesis by blast
qed

lemma ensure_managed:
  assumes "ds_accounts (view s) u = Some a" and "managed_account a"
  shows "\<exists>s'. ensure_account env u p s = (Inr True, s')
    \<and> view s' = put_account u (Some (a\<lparr>ac_password := p, ac_disabled := False\<rparr>)) (view s)"
proof (cases "ac_disabled a")
  case True
  let ?t = "after (Set_client_password u p) (after (Get_client u) s)"
  have t: "view ?t = put_account u (Some (a\<lparr>ac_password := p\<rparr>)) (view s)"
    using assms(1) by (simp add: change_account_put)
  obtain s' where "enable_account env u ?t = (Inr (), s')"
      "view s' = change_account u (\<lambda>a. a\<lparr>ac_disabled := False\<rparr>) (view ?t)"
    using enable_spec [of u ?t] t by auto
  with assms True show ?thesis
    by (simp add: ensure_account_def client_managed client_disabled response_error bbind_def [of "enable_account env u"]
        t change_account_put)
next
  case False
  then have eq: "a\<lparr>ac_password := p, ac_disabled := False\<rparr> = a\<lparr>ac_password := p\<rparr>" by (cases a) simp
  show ?thesis using assms False unfolding eq
    by (auto simp: ensure_account_def client_managed client_disabled response_error change_account_put)
qed

end

text \<open>A broker that is such a state machine, with the files readable and every login refused.\<close>

definition reference_broker :: "string \<Rightarrow> dynsec broker_env" where
  "reference_broker passwd = \<lparr>
     be_send = (\<lambda>s c token. ([Some (dynsec_reply token c (dynsec_answer c s))], dynsec_effect c s)),
     be_token = (\<lambda>s. ''0f''), be_admin_password = Some ''secret'', be_legacy_file = Some passwd,
     be_login = (\<lambda>s u p. Some False)\<rparr>"

interpretation reference: dynsec_broker "reference_broker passwd" "\<lambda>s. s" for passwd
  by unfold_locales (auto simp: reference_broker_def py_strip_def py_lstrip_def py_isspace_def Let_def)

section \<open>Properties\<close>


definition empty_dynsec :: dynsec where
  "empty_dynsec = \<lparr>ds_accounts = Map.empty, ds_roles = []\<rparr>"




end
