(* ===== verification/Device_Service.thy ===== *)
theory Device_Service
  imports Devices_Repository Credentials Mqtt_Broker Ingestion
begin

text \<open>
  \<open>backend/app/devices/service.py\<close> and the registration model of \<open>devices/schemas.py\<close>. An operation runs one
  transaction and may talk to the broker inside it; it maps the pair of the database and the broker's state to a
  result and the pair after it. \<open>commits\<close> tells whether the transaction's commit succeeds; \<open>hash\<close> and
  \<open>verify\<close> stand for the functions of \<open>Credentials\<close>, \<open>env\<close> for the broker administration.
\<close>

section \<open>Operations\<close>

datatype device_error =
    Gateway_missing
  | Name_required
  | Device_missing
  | Invalid_device_credentials
  | Registry_integrity
  | Registry_failure
  | Broker_failed broker_error
  | Service_crash

record device_registration =
  dr_device_id :: string
  dr_gateway_id :: string
  dr_name :: string
  dr_password :: string

definition registration_char :: "char \<Rightarrow> bool" where
  "registration_char c \<longleftrightarrow> is_alpha_c c \<or> is_digit_c c \<or> c = CHR ''_'' \<or> c = CHR ''-''"

text \<open>The constraints of \<open>DeviceRegistration\<close>.\<close>

definition registration_ok :: "device_registration \<Rightarrow> bool" where
  "registration_ok r \<longleftrightarrow>
     1 \<le> length (dr_device_id r) \<and> length (dr_device_id r) \<le> 128 \<and> list_all registration_char (dr_device_id r)
     \<and> 1 \<le> length (dr_gateway_id r) \<and> length (dr_gateway_id r) \<le> 128
     \<and> 1 \<le> length (dr_name r) \<and> length (dr_name r) \<le> 200
     \<and> 12 \<le> length (dr_password r) \<and> length (dr_password r) \<le> 128"

record reading_status =
  rs_value :: rat
  rs_unit :: string
  rs_measured_at :: "usec option"
  rs_gateway_received_at :: usec
  rs_event_at :: usec
  rs_timestamp_source :: string
  rs_clock_quality :: string

record device_status =
  ds_device_id :: string
  ds_name :: string
  ds_gateway_id :: string
  ds_enabled :: bool
  ds_online :: bool
  ds_last_seen_at :: "usec option"
  ds_latest_reading :: "reading_status option"

type_synonym ('b, 'a) service_result = "(device_error, 'a) result \<times> database \<times> 'b"

definition list_gateways :: "(string \<Rightarrow> 'c::linorder) \<Rightarrow> database \<Rightarrow> (string \<times> string) list" where
  "list_gateways coll db = list_enabled_gateways coll db"

text \<open>\<open>gateway is None or not gateway.enabled or not gateway.site.enabled\<close>, evaluated left to right.\<close>

definition site_of :: "database \<Rightarrow> gateway_row \<Rightarrow> site_row option" where
  "site_of db g = lookup_by s_site_id (g_site_id g) (sites db)"

definition gateway_open :: "database \<Rightarrow> gateway_row option \<Rightarrow> (device_error, bool) result" where
  "gateway_open db gateway =
     (case gateway of
        None \<Rightarrow> Inr False
      | Some g \<Rightarrow> if \<not> g_enabled g then Inr False
                  else (case site_of db g of None \<Rightarrow> Inl Service_crash | Some s \<Rightarrow> Inr (s_enabled s)))"

definition set_managed :: "string \<Rightarrow> bool \<Rightarrow> database \<Rightarrow> database" where
  "set_managed dev managed db =
     db\<lparr>devices := update_by d_device_id dev (\<lambda>d. d\<lparr>d_mqtt_managed := managed\<rparr>) (devices db)\<rparr>"

text \<open>An except clause that swallows BrokerUnavailable and reraises: another exception replaces the first.\<close>

definition compensate :: "(broker_error, 'x) result \<times> 'b \<Rightarrow> device_error \<Rightarrow> database \<Rightarrow> ('b, 'a) service_result" where
  "compensate outcome original db =
     (case outcome of
        (Inl Broker_unavailable, s) \<Rightarrow> (Inl original, db, s)
      | (Inl x, s) \<Rightarrow> (Inl (Broker_failed x), db, s)
      | (Inr _, s) \<Rightarrow> (Inl original, db, s))"

fun insert_error :: "insert_failure \<Rightarrow> device_error" where
  "insert_error Integrity_violation = Registry_integrity"
| "insert_error Data_violation = Registry_failure"

definition registered_status :: "device_registration \<Rightarrow> device_status" where
  "registered_status r = \<lparr>ds_device_id = dr_device_id r, ds_name = py_strip (dr_name r),
     ds_gateway_id = dr_gateway_id r, ds_enabled = True, ds_online = False, ds_last_seen_at = None,
     ds_latest_reading = None\<rparr>"

definition register_device :: "'b broker_env \<Rightarrow> (string \<Rightarrow> string) \<Rightarrow> bool \<Rightarrow> device_registration
    \<Rightarrow> database \<Rightarrow> 'b \<Rightarrow> ('b, device_status) service_result" where
  "register_device env hash commits r db s =
     (if \<not> sql_text (dr_gateway_id r) then (Inl Registry_failure, db, s)
      else case gateway_open db (lock_registration_gateway db (dr_gateway_id r)) of
        Inl x \<Rightarrow> (Inl x, db, s)
      | Inr allowed \<Rightarrow>
          if \<not> allowed then (Inl Gateway_missing, db, s)
          else (let name = py_strip (dr_name r)
            in if name = '''' then (Inl Name_required, db, s)
               else case create_device (dr_device_id r) (dr_gateway_id r) name (hash (dr_password r)) db of
                 Inl x \<Rightarrow> (Inl (insert_error x), db, s)
               | Inr db' \<Rightarrow>
                   (case create_account env (dr_device_id r) (dr_password r) s of
                      (Inl x, s') \<Rightarrow> (Inl (Broker_failed x), db, s')
                    | (Inr broker_created, s') \<Rightarrow>
                        if commits
                        then (Inr (registered_status r), set_managed (dr_device_id r) broker_created db', s')
                        else if broker_created
                        then compensate (delete_account env (dr_device_id r) s') Registry_failure db
                        else (Inl Registry_failure, db, s'))))"

definition remove_device :: "'b broker_env \<Rightarrow> bool \<Rightarrow> string \<Rightarrow> database \<Rightarrow> 'b \<Rightarrow> ('b, unit) service_result" where
  "remove_device env commits dev db s =
     (if \<not> sql_text dev then (Inl Registry_failure, db, s)
      else case lock_device db dev of
        None \<Rightarrow> (Inl Device_missing, db, s)
      | Some d \<Rightarrow>
          (case delete_device dev db of
             Inl x \<Rightarrow> (Inl (insert_error x), db, s)
           | Inr db' \<Rightarrow>
               (case (if d_mqtt_managed d then disable_account env dev s else (Inr False, s)) of
                  (Inl x, s') \<Rightarrow> (Inl (Broker_failed x), db, s')
                | (Inr broker_disabled, s') \<Rightarrow>
                    if \<not> commits
                    then (if broker_disabled then compensate (enable_account env dev s') Registry_failure db
                          else (Inl Registry_failure, db, s'))
                    else if broker_disabled
                    then (case delete_account env dev s' of
                            (Inr _, s'') \<Rightarrow> (Inr (), db', s'')
                          | (Inl Broker_unavailable, s'') \<Rightarrow> (Inr (), db', s'')
                          | (Inl x, s'') \<Rightarrow> (Inl (Broker_failed x), db', s''))
                    else (Inr (), db', s'))))"

definition configure_existing_mqtt :: "'b broker_env \<Rightarrow> (string \<Rightarrow> string option \<Rightarrow> bool) \<Rightarrow> bool \<Rightarrow> string \<Rightarrow> string
    \<Rightarrow> database \<Rightarrow> 'b \<Rightarrow> ('b, unit) service_result" where
  "configure_existing_mqtt env verify commits dev password db s =
     (if \<not> sql_text dev then (Inl Registry_failure, db, s)
      else case lock_device db dev of
        None \<Rightarrow> (Inl Invalid_device_credentials, db, s)
      | Some d \<Rightarrow>
          if \<not> verify password (d_password_hash d) then (Inl Invalid_device_credentials, db, s)
          else (case ensure_account env dev password s of
                  (Inl x, s') \<Rightarrow> (Inl (Broker_failed x), db, s')
                | (Inr managed, s') \<Rightarrow>
                    if commits then (Inr (), set_managed dev managed db, s') else (Inl Registry_failure, db, s')))"

text \<open>The guard of \<open>record_heartbeat\<close>; the relationships are not null, so a missing row is an AttributeError.\<close>

definition heartbeat_allowed :: "(string \<Rightarrow> string option \<Rightarrow> bool) \<Rightarrow> string \<Rightarrow> database \<Rightarrow> device_row option
    \<Rightarrow> (device_error, bool) result" where
  "heartbeat_allowed verify password db device =
     (case device of
        None \<Rightarrow> Inr False
      | Some d \<Rightarrow>
          if \<not> d_enabled d then Inr False
          else (case lookup_by g_gateway_id (d_gateway_id d) (gateways db) of
                  None \<Rightarrow> Inl Service_crash
                | Some g \<Rightarrow>
                    (case gateway_open db (Some g) of
                       Inl x \<Rightarrow> Inl x
                     | Inr allowed \<Rightarrow> Inr (allowed \<and> verify password (d_password_hash d)))))"

definition record_heartbeat :: "(string \<Rightarrow> string option \<Rightarrow> bool) \<Rightarrow> bool \<Rightarrow> usec \<Rightarrow> string \<Rightarrow> string \<Rightarrow> database
    \<Rightarrow> (device_error, unit) result \<times> database" where
  "record_heartbeat verify commits now dev password db =
     (if \<not> sql_text dev then (Inl Registry_failure, db)
      else case heartbeat_allowed verify password db (lock_device db dev) of
        Inl x \<Rightarrow> (Inl x, db)
      | Inr allowed \<Rightarrow>
          if \<not> allowed then (Inl Invalid_device_credentials, db)
          else if commits then (Inr (), record_presence dev now db) else (Inl Registry_failure, db))"

section \<open>Status\<close>

definition ONLINE_WINDOW :: usec where "ONLINE_WINDOW = seconds 90"

definition reading_status_of :: "latest_reading \<Rightarrow> reading_status" where
  "reading_status_of l = \<lparr>rs_value = lr_value l, rs_unit = lr_unit l, rs_measured_at = lr_measured_at l,
     rs_gateway_received_at = lr_gateway_received_at l, rs_event_at = lr_event_at l,
     rs_timestamp_source = (if lr_measured_at l \<noteq> None \<and> lr_clock_quality l = ''synchronised''
        then ''measured_at'' else ''gateway_received_at''),
     rs_clock_quality = lr_clock_quality l\<rparr>"

definition device_status_of :: "usec \<Rightarrow> status_row \<Rightarrow> device_status" where
  "device_status_of now row = \<lparr>ds_device_id = sr_device_id row, ds_name = sr_name row,
     ds_gateway_id = sr_gateway_id row, ds_enabled = sr_enabled row,
     ds_online = (sr_enabled row \<and> sr_gateway_enabled row \<and> sr_site_enabled row
        \<and> (case sr_last_seen_at row of None \<Rightarrow> False | Some seen \<Rightarrow> now - ONLINE_WINDOW \<le> seen \<and> seen \<le> now)),
     ds_last_seen_at = sr_last_seen_at row,
     ds_latest_reading = map_option reading_status_of (sr_latest row)\<rparr>"

definition list_device_status :: "(string \<Rightarrow> 'c::linorder) \<Rightarrow> usec \<Rightarrow> database \<Rightarrow> device_status list" where
  "list_device_status coll now db = map (device_status_of now) (list_status_rows coll db)"

datatype ownership_status = Allowed | Ownership_unknown_device | Ownership_wrong_gateway | Ownership_disabled

definition check_device_ownership :: "database \<Rightarrow> string \<Rightarrow> string \<Rightarrow> ownership_status" where
  "check_device_ownership db device_id gateway_id =
     (case read_ownership db device_id of
        None \<Rightarrow> Ownership_unknown_device
      | Some (gw, device_enabled, gateway_enabled, site_enabled) \<Rightarrow>
          if gw \<noteq> gateway_id then Ownership_wrong_gateway
          else if \<not> (device_enabled \<and> gateway_enabled \<and> site_enabled) then Ownership_disabled
          else Allowed)"

section \<open>Registration on a platform with working dependencies\<close>

text \<open>The interfaces the service is a client of: password storage and broker administration.\<close>

locale device_platform = password_scheme hash verify + dynsec_broker env view
  for hash :: "string \<Rightarrow> string" and verify :: "string \<Rightarrow> string option \<Rightarrow> bool"
    and env :: "'b broker_env" and view :: "'b \<Rightarrow> dynsec"

definition open_gateway :: "database \<Rightarrow> string \<Rightarrow> bool" where
  "open_gateway db gid \<longleftrightarrow> gateway_open db (lookup_by g_gateway_id gid (gateways db)) = Inr True"

definition registrable :: "database \<Rightarrow> device_registration \<Rightarrow> bool" where
  "registrable db r \<longleftrightarrow> sql_text (dr_gateway_id r) \<and> open_gateway db (dr_gateway_id r)
     \<and> py_strip (dr_name r) \<noteq> '''' \<and> sql_text (py_strip (dr_name r))
     \<and> dr_device_id r \<notin> d_device_id ` set (devices db)"

definition registered_row :: "(string \<Rightarrow> string) \<Rightarrow> bool \<Rightarrow> device_registration \<Rightarrow> device_row" where
  "registered_row hash managed r = \<lparr>d_device_id = dr_device_id r, d_gateway_id = dr_gateway_id r,
     d_name = py_strip (dr_name r), d_enabled = True, d_password_hash = Some (hash (dr_password r)),
     d_mqtt_managed = managed, d_last_seen_at = None\<rparr>"

lemma gateway_open_total:
  assumes "registry_ok db"
  shows "\<exists>b. gateway_open db (lookup_by g_gateway_id gid (gateways db)) = Inr b"
proof (cases "lookup_by g_gateway_id gid (gateways db)")
  case (Some g)
  then have "g_site_id g \<in> s_site_id ` set (sites db)"
    using assms lookup_by_SomeD [OF Some] by (auto simp: registry_ok_def)
  then have "lookup_by s_site_id (g_site_id g) (sites db) \<noteq> None" by (simp only: lookup_by_None_iff not_not)
  with Some show ?thesis by (auto simp: gateway_open_def site_of_def)
qed (simp add: gateway_open_def exI [of _ False])

lemma open_gateway_exists: "open_gateway db gid \<Longrightarrow> lookup_by g_gateway_id gid (gateways db) \<noteq> None"
  by (auto simp: open_gateway_def gateway_open_def split: option.splits)

lemma strip_subset: "length (py_strip s) \<le> length s"
proof -
  have d: "length (dropWhile P xs) \<le> length xs" for P and xs :: string by (rule length_dropWhile_le)
  have "length (py_strip s) \<le> length (rev (dropWhile py_isspace s))"
    unfolding py_strip_def py_lstrip_def length_rev using d length_rev by metis
  also have "\<dots> \<le> length s" using d by simp
  finally show ?thesis .
qed

lemma registration_id: "registration_ok r \<Longrightarrow> sql_text (dr_device_id r) \<and> dr_device_id r \<noteq> ''''"
  by (auto simp: registration_ok_def sql_text_def registration_char_def is_alpha_c_def is_digit_c_def list_all_iff
      less_eq_char_def)

lemma set_managed_append:
  assumes "dr_device_id r \<notin> d_device_id ` set (devices db)"
  shows "set_managed (dr_device_id r) m (db\<lparr>devices := devices db @ [registered_row hash False r]\<rparr>)
    = db\<lparr>devices := devices db @ [registered_row hash m r]\<rparr>"
proof -
  have "map (\<lambda>d. if d_device_id d = dr_device_id r then d\<lparr>d_mqtt_managed := m\<rparr> else d) (devices db) = devices db"
    using assms by (intro map_idI) (metis imageI)
  then show ?thesis by (simp add: set_managed_def update_by_def registered_row_def)
qed

context device_platform
begin

lemma create_device_eq:
  assumes ok: "registration_ok r" and gw: "open_gateway db (dr_gateway_id r)" and nul: "sql_text (dr_gateway_id r)"
  shows "create_device (dr_device_id r) (dr_gateway_id r) (py_strip (dr_name r)) (hash (dr_password r)) db =
    (if \<not> sql_text (py_strip (dr_name r)) then Inl Data_violation
     else if dr_device_id r \<in> d_device_id ` set (devices db) then Inl Integrity_violation
     else Inr (db\<lparr>devices := devices db @ [registered_row hash False r]\<rparr>))"
proof -
  have id: "sql_text (dr_device_id r)" "dr_device_id r \<noteq> ''''" using registration_id [OF ok] by simp_all
  have "length (py_strip (dr_name r)) \<le> 200" "length (dr_device_id r) \<le> 128"
    using strip_subset [of "dr_name r"] ok by (auto simp: registration_ok_def)
  moreover have "sql_text (hash (dr_password r))" using hash_text by (simp add: sql_text_def)
  moreover have "lookup_by d_device_id (dr_device_id r) (devices db) = None \<longleftrightarrow>
      dr_device_id r \<notin> d_device_id ` set (devices db)" by (rule lookup_by_None_iff)
  ultimately show ?thesis
    using id nul open_gateway_exists [OF gw] hash_fits [of "dr_password r"]
    by (auto simp: create_device_def registered_row_def)
qed
lemma register_refused:
  assumes inv: "registry_ok db" and ok: "registration_ok r" and no: "\<not> registrable db r"
  shows "\<exists>x. register_device env hash commits r db s = (Inl x, db, s)"
proof (cases "sql_text (dr_gateway_id r) \<and> open_gateway db (dr_gateway_id r)")
  case False
  obtain b where "gateway_open db (lookup_by g_gateway_id (dr_gateway_id r) (gateways db)) = Inr b"
    using gateway_open_total [OF inv] by blast
  with False show ?thesis
    by (auto simp: register_device_def lock_registration_gateway_def open_gateway_def)
next
  case True
  with create_device_eq [OF ok] no show ?thesis
    by (auto simp: register_device_def lock_registration_gateway_def open_gateway_def registrable_def Let_def)
qed

lemma register_taken:
  assumes ok: "registration_ok r" and yes: "registrable db r" and tk: "taken (view s) (dr_device_id r)"
  shows "\<exists>s'. register_device env hash commits r db s = (Inl (Broker_failed Broker_conflict), db, s') \<and> view s' = view s"
proof -
  obtain s' where "create_account env (dr_device_id r) (dr_password r) s = (Inl Broker_conflict, s')" "view s' = view s"
    using create_taken [OF tk] by blast
  with create_device_eq [OF ok] yes show ?thesis
    by (auto simp: register_device_def lock_registration_gateway_def open_gateway_def registrable_def Let_def)
qed

lemma register_succeeds:
  assumes ok: "registration_ok r" and yes: "registrable db r" and free: "\<not> taken (view s) (dr_device_id r)"
    and legacy: "\<not> legacy_user env (dr_device_id r)"
  shows "\<exists>s'. register_device env hash True r db s =
      (Inr (registered_status r), db\<lparr>devices := devices db @ [registered_row hash True r]\<rparr>, s')
    \<and> view s' = put_account (dr_device_id r) (Some (new_account (dr_password r))) (with_role (view s))"
proof -
  obtain s' where "create_account env (dr_device_id r) (dr_password r) s = (Inr True, s')"
      "view s' = put_account (dr_device_id r) (Some (new_account (dr_password r))) (with_role (view s))"
    using create_new [OF free legacy] by blast
  with create_device_eq [OF ok] yes show ?thesis
    by (auto simp: register_device_def lock_registration_gateway_def open_gateway_def registrable_def Let_def
        set_managed_append)
qed

lemma register_rolled_back:
  assumes ok: "registration_ok r" and yes: "registrable db r" and free: "\<not> taken (view s) (dr_device_id r)"
    and legacy: "\<not> legacy_user env (dr_device_id r)"
  shows "\<exists>s'. register_device env hash False r db s = (Inl Registry_failure, db, s')
    \<and> view s' = put_account (dr_device_id r) None (with_role (view s))"
proof -
  obtain t where t: "create_account env (dr_device_id r) (dr_password r) s = (Inr True, t)"
      "view t = put_account (dr_device_id r) (Some (new_account (dr_password r))) (with_role (view s))"
    using create_new [OF free legacy] by blast
  obtain s' where "delete_account env (dr_device_id r) t = (Inr (), s')"
      "view s' = put_account (dr_device_id r) None (with_role (view s))"
    using delete_spec [of "dr_device_id r" t] t(2) by auto
  with t(1) create_device_eq [OF ok] yes show ?thesis
    by (auto simp: register_device_def lock_registration_gateway_def open_gateway_def registrable_def Let_def
        compensate_def)
qed

text \<open>Removing a registration that nothing refers to.\<close>

lemma remove_unused:
  assumes dev: "lookup_by d_device_id u (devices db) = Some d" and text_u: "sql_text u"
    and unused: "u \<notin> t_device_id ` set (telemetry db)" "u \<notin> ep_device_id ` set (alert_episodes db)"
      "u \<notin> st_device_id ` set (alert_states db)"
    and managed: "d_mqtt_managed d" and acc: "ds_accounts (view s) u = Some a" "managed_account a"
  shows "\<exists>s'. remove_device env True u db s = (Inr (), db\<lparr>devices := delete_by d_device_id u (devices db)\<rparr>, s')
    \<and> view s' = put_account u None (view s)"
proof -
  obtain t where t: "disable_account env u s = (Inr True, t)"
      "view t = put_account u (Some (a\<lparr>ac_disabled := True\<rparr>)) (view s)"
    using disable_spec [of u s] acc by auto
  obtain s' where "delete_account env u t = (Inr (), s')" "view s' = put_account u None (view s)"
    using delete_spec [of u t] t(2) by auto
  with t dev text_u unused managed show ?thesis
    by (simp add: remove_device_def lock_device_def delete_device_def)
qed

end

interpretation platform: device_platform "hash_password (sized kdf) (take 16 salt)" "verify_password (sized kdf)"
    "reference_broker passwd" "\<lambda>s. s"
  for kdf salt passwd
  by (rule device_platform.intro [OF pbkdf2.password_scheme_axioms reference.dynsec_broker_axioms])

section \<open>Properties\<close>


definition demo_registration :: device_registration where
  "demo_registration = \<lparr>dr_device_id = ''pump-7'', dr_gateway_id = ''g1'', dr_name = '' Pump '',
     dr_password = ''correct horse''\<rparr>"

definition demo_kdf :: kdf where
  "demo_kdf password salt = rev password @ salt"

abbreviation demo_hash :: "string \<Rightarrow> string" where
  "demo_hash \<equiv> hash_password (sized demo_kdf) (take 16 (replicate 16 7))"

lemma demo_registration_ok:
  "registration_ok demo_registration" "registrable demo_db demo_registration"
  "\<not> legacy_user (reference_broker '''') (dr_device_id demo_registration)" "registry_ok demo_db"
  "\<not> taken empty_dynsec (dr_device_id demo_registration)"
  by (simp_all add: demo_registration_def registration_ok_def registration_char_def is_alpha_c_def is_digit_c_def
      less_eq_char_def registrable_def sql_text_def open_gateway_def gateway_open_def site_of_def py_strip_def
      py_lstrip_def py_isspace_def Let_def legacy_user_def reference_broker_def py_partition_fst_def registry_ok_def
      taken_def empty_dynsec_def demo_db_def empty_database_def)


text \<open>
  C12. Removal undoes registration: after a successful registration in a consistent database, removing the device
  restores the database, and leaves the account table without the name and otherwise as it was.
\<close>

theorem removal_undoes_registration:
  assumes "device_platform hash verify env view" and "db_inv db" and "registration_ok r"
    and "\<not> legacy_user env (dr_device_id r)"
    and "register_device env hash True r db s = (Inr status, db1, s1)"
  shows "\<exists>s2. remove_device env True (dr_device_id r) db1 s1 = (Inr (), db, s2)
    \<and> ds_accounts (view s2) = (ds_accounts (view s))(dr_device_id r := None)"
proof -
  let ?u = "dr_device_id r"
  have reg: "registry_ok db" "telemetry_ok db" "alerts_inv db" using assms(2) by (simp_all add: db_inv_def)
  have yes: "registrable db r" "\<not> taken (view s) ?u"
    using device_platform.register_refused [OF assms(1) reg(1) assms(3), of True s]
      device_platform.register_taken [OF assms(1,3), of db s True] assms(5) by force+
  then have db1: "db1 = db\<lparr>devices := devices db @ [registered_row hash True r]\<rparr>"
    and s1: "view s1 = put_account ?u (Some (new_account (dr_password r))) (with_role (view s))"
    using device_platform.register_succeeds [OF assms(1,3) yes assms(4)] assms(5) by auto
  have new: "?u \<notin> d_device_id ` set (devices db)" using yes(1) by (simp add: registrable_def)
  have unused: "?u \<notin> t_device_id ` set (telemetry db1)" "?u \<notin> ep_device_id ` set (alert_episodes db1)"
      "?u \<notin> st_device_id ` set (alert_states db1)"
    using new reg(2) alerts_inv_ok [OF reg(3)] by (auto simp: db1 telemetry_ok_def alerts_ok_def)
  have look: "lookup_by d_device_id ?u (devices db1) = Some (registered_row hash True r)"
    using new by (simp add: db1 lookup_by_append lookup_by_None_iff [THEN iffD2] registered_row_def)
  have "filter (\<lambda>d. d_device_id d \<noteq> ?u) (devices db) = devices db"
    using new by (intro filter_True ballI) (metis imageI)
  then have "delete_by d_device_id ?u (devices db1) = devices db"
    by (simp add: db1 delete_by_def registered_row_def)
  then have back_db: "db1\<lparr>devices := delete_by d_device_id ?u (devices db1)\<rparr> = db" by (simp add: db1)
  have acc: "ds_accounts (view s1) ?u = Some (new_account (dr_password r))"
      "managed_account (new_account (dr_password r))"
    by (simp_all add: s1 new_account_def managed_account_def)
  obtain s2 where "remove_device env True ?u db1 s1 = (Inr (), db1\<lparr>devices := delete_by d_device_id ?u (devices db1)\<rparr>, s2)"
      "view s2 = put_account ?u None (view s1)"
    using device_platform.remove_unused [OF assms(1) look _ unused _ acc] registration_id [OF assms(3)]
    by (auto simp: registered_row_def)
  with back_db s1 show ?thesis by auto
qed

theorem removal_undoes_registration_witness:
  "\<exists>status db1 s1 s2. register_device (reference_broker '''') demo_hash True demo_registration demo_db empty_dynsec
      = (Inr status, db1, s1)
    \<and> remove_device (reference_broker '''') True ''pump-7'' db1 s1 = (Inr (), demo_db, s2)"
proof -
  obtain s1 where r: "register_device (reference_broker '''') demo_hash True demo_registration demo_db empty_dynsec =
      (Inr (registered_status demo_registration),
       demo_db\<lparr>devices := devices demo_db @ [registered_row demo_hash True demo_registration]\<rparr>, s1)"
    using platform.register_succeeds [OF demo_registration_ok(1,2,5,3)] by blast
  from removal_undoes_registration [OF platform.device_platform_axioms demo_db_inv demo_registration_ok(1,3) r] r
  show ?thesis by (auto simp: demo_registration_def)
qed

section \<open>Presence, status and ownership\<close>

text \<open>The device and its parents are enabled.\<close>

definition device_active :: "database \<Rightarrow> device_row \<Rightarrow> bool" where
  "device_active db d \<longleftrightarrow> d_enabled d
     \<and> (\<exists>g s. lookup_by g_gateway_id (d_gateway_id d) (gateways db) = Some g \<and> g_enabled g
          \<and> lookup_by s_site_id (g_site_id g) (sites db) = Some s \<and> s_enabled s)"

lemma registry_parents:
  assumes ok: "registry_ok db" and d: "d \<in> set (devices db)"
  obtains g s where "lookup_by g_gateway_id (d_gateway_id d) (gateways db) = Some g"
    "lookup_by s_site_id (g_site_id g) (sites db) = Some s"
proof -
  have "d_gateway_id d \<in> g_gateway_id ` set (gateways db)" using ok d by (auto simp: registry_ok_def)
  then have "lookup_by g_gateway_id (d_gateway_id d) (gateways db) \<noteq> None" by (simp only: lookup_by_None_iff not_not)
  then obtain g where g: "lookup_by g_gateway_id (d_gateway_id d) (gateways db) = Some g" by blast
  then have "g_site_id g \<in> s_site_id ` set (sites db)"
    using ok lookup_by_SomeD [OF g] by (auto simp: registry_ok_def)
  then have "lookup_by s_site_id (g_site_id g) (sites db) \<noteq> None" by (simp only: lookup_by_None_iff not_not)
  with g that show ?thesis by blast
qed

lemma heartbeat_guard:
  assumes ok: "registry_ok db" and d: "lookup_by d_device_id dev (devices db) = Some d"
  shows "heartbeat_allowed verify password db (Some d) =
    Inr (device_active db d \<and> verify password (d_password_hash d))"
proof -
  obtain g s where gs: "lookup_by g_gateway_id (d_gateway_id d) (gateways db) = Some g"
      "lookup_by s_site_id (g_site_id g) (sites db) = Some s"
    by (rule registry_parents [OF ok, of d]) (use lookup_by_SomeD [OF d] in auto)
  then show ?thesis
    by (auto simp: heartbeat_allowed_def gateway_open_def site_of_def device_active_def)
qed

lemma read_ownership_eq:
  assumes ok: "registry_ok db"
  shows "\<exists>gateway_enabled site_enabled. (\<forall>d. lookup_by d_device_id dev (devices db) = Some d \<longrightarrow>
      read_ownership db dev = Some (d_gateway_id d, d_enabled d, gateway_enabled, site_enabled)
      \<and> (d_enabled d \<and> gateway_enabled \<and> site_enabled \<longleftrightarrow> device_active db d))"
proof (cases "lookup_by d_device_id dev (devices db)")
  case (Some d)
  obtain g s where gs: "lookup_by g_gateway_id (d_gateway_id d) (gateways db) = Some g"
      "lookup_by s_site_id (g_site_id g) (sites db) = Some s"
    by (rule registry_parents [OF ok, of d]) (use lookup_by_SomeD [OF Some] in auto)
  with Some show ?thesis
    by (intro exI [of _ "g_enabled g"] exI [of _ "s_enabled s"]) (simp add: read_ownership_def device_active_def)
qed simp

definition status_for :: "database \<Rightarrow> usec \<Rightarrow> device_row \<Rightarrow> device_status \<Rightarrow> bool" where
  "status_for db now d st \<longleftrightarrow> ds_device_id st = d_device_id d \<and> ds_name st = d_name d
     \<and> ds_gateway_id st = d_gateway_id d \<and> ds_enabled st = d_enabled d \<and> ds_last_seen_at st = d_last_seen_at d
     \<and> (ds_online st \<longleftrightarrow> device_active db d
          \<and> (\<exists>seen. d_last_seen_at d = Some seen \<and> seen \<le> now \<and> now \<le> seen + seconds 90))
     \<and> ds_latest_reading st = map_option (reading_status_of \<circ> latest_of) (newest_reading db (d_device_id d))"

lemma list_all2_concat_single:
  "(\<And>x. x \<in> set xs \<Longrightarrow> \<exists>y. f x = [y] \<and> P x (g y)) \<Longrightarrow> list_all2 P xs (map g (concat (map f xs)))"
  by (induction xs) force+

lemma list_all2_member:
  assumes "list_all2 P xs ys" and "x \<in> set xs"
  obtains y where "y \<in> set ys" "P x y"
  using assms by (induction arbitrary: thesis rule: list_all2_induct) auto

lemma status_list:
  assumes ok: "registry_ok db"
  shows "list_all2 (status_for db now) (order_asc (\<lambda>d. (coll (d_name d), coll (d_device_id d))) (devices db))
    (list_device_status coll now db)"
  unfolding list_device_status_def list_status_rows_def
proof (rule list_all2_concat_single)
  fix d assume "d \<in> set (order_asc (\<lambda>d. (coll (d_name d), coll (d_device_id d))) (devices db))"
  then have d: "d \<in> set (devices db)" by simp
  have "distinct (map d_device_id (devices db))" using ok by (simp add: registry_ok_def)
  then have look: "lookup_by d_device_id (d_device_id d) (devices db) = Some d"
    using d by (simp add: lookup_by_Some_iff)
  obtain ge se where own: "read_ownership db (d_device_id d) = Some (d_gateway_id d, d_enabled d, ge, se)"
      "d_enabled d \<and> ge \<and> se \<longleftrightarrow> device_active db d"
    using read_ownership_eq [OF ok, of "d_device_id d"] look by blast
  then show "\<exists>y. (case read_ownership db (d_device_id d) of
        None \<Rightarrow> []
      | Some (_, _, gateway_enabled, site_enabled) \<Rightarrow>
          [\<lparr>sr_device_id = d_device_id d, sr_name = d_name d, sr_gateway_id = d_gateway_id d,
            sr_enabled = d_enabled d, sr_last_seen_at = d_last_seen_at d,
            sr_gateway_enabled = gateway_enabled, sr_site_enabled = site_enabled,
            sr_latest = map_option latest_of (newest_reading db (d_device_id d))\<rparr>]) = [y]
      \<and> status_for db now d (device_status_of now y)"
    by (auto simp: status_for_def device_status_of_def ONLINE_WINDOW_def option.map_comp split: option.splits)
qed

lemma newest_reading_max:
  assumes ok: "telemetry_ok db"
  shows "newest_reading db dev = None \<longleftrightarrow> dev \<notin> t_device_id ` set (telemetry db)"
    and "newest_reading db dev = Some r \<Longrightarrow> r \<in> set (telemetry db) \<and> t_device_id r = dev
      \<and> (\<forall>q \<in> set (telemetry db). t_device_id q = dev \<longrightarrow> (event_time q, t_id q) \<le> (event_time r, t_id r))"
proof -
  let ?rows = "filter (\<lambda>r. t_device_id r = dev) (telemetry db)" and ?key = "\<lambda>r. (event_time r, t_id r)"
  show "newest_reading db dev = None \<longleftrightarrow> dev \<notin> t_device_id ` set (telemetry db)"
  proof -
    have "newest_reading db dev = None \<longleftrightarrow> order_desc ?key ?rows = []"
      by (simp add: newest_reading_def split: list.splits)
    also have "\<dots> \<longleftrightarrow> ?rows = []" using set_order_desc [of ?key ?rows] by (metis set_empty)
    finally show ?thesis by (auto simp: filter_empty_conv)
  qed
  assume "newest_reading db dev = Some r"
  then obtain rest where cons: "order_desc ?key ?rows = r # rest"
    by (auto simp: newest_reading_def split: list.splits)
  have r: "r \<in> set ?rows" using set_order_desc [of ?key ?rows] cons by (metis list.set_intros(1))
  have "?key q \<le> ?key r" if "q \<in> set ?rows" for q
  proof (cases "q = r")
    case False
    then have "q \<in> set (drop 1 (order_desc ?key ?rows))"
      using that set_order_desc [of ?key ?rows] cons by auto
    moreover have "r \<in> set (take 1 (order_desc ?key ?rows))" using cons by simp
    ultimately show ?thesis using take_order_desc_ge [where key = ?key and s = q and r = r] by (simp only:)
  qed (simp only: order_refl)
  with r show "r \<in> set (telemetry db) \<and> t_device_id r = dev
      \<and> (\<forall>q \<in> set (telemetry db). t_device_id q = dev \<longrightarrow> (event_time q, t_id q) \<le> (event_time r, t_id r))"
    by simp
qed

text \<open>
  C15. The device list of a consistent registry has exactly one entry per device, in the order of name and id.
  A device is online iff it, its gateway and its site are enabled and it was last seen within the 90 seconds
  up to now; its latest reading is absent iff it has none, and else the stored reading that is last by event time.
\<close>

theorem device_list_correct:
  assumes "registry_ok db" and "telemetry_ok db"
  shows "list_all2 (\<lambda>d st. ds_device_id st = d_device_id d \<and> ds_name st = d_name d \<and> ds_gateway_id st = d_gateway_id d
      \<and> (ds_online st \<longleftrightarrow> device_active db d
           \<and> (\<exists>seen. d_last_seen_at d = Some seen \<and> seen \<le> now \<and> now \<le> seen + seconds 90))
      \<and> (ds_latest_reading st = None \<longleftrightarrow> d_device_id d \<notin> t_device_id ` set (telemetry db))
      \<and> (\<forall>l. ds_latest_reading st = Some l \<longrightarrow> (\<exists>r \<in> set (telemetry db). t_device_id r = d_device_id d
           \<and> rs_value l = t_value r \<and> rs_event_at l = event_time r
           \<and> (\<forall>q \<in> set (telemetry db). t_device_id q = d_device_id d \<longrightarrow>
                (event_time q, t_id q) \<le> (event_time r, t_id r)))))
    (order_asc (\<lambda>d. (coll (d_name d), coll (d_device_id d))) (devices db)) (list_device_status coll now db)"
  using status_list [OF assms(1)]
proof (rule list_all2_mono)
  fix d st assume st: "status_for db now d st"
  have latest: "\<exists>r \<in> set (telemetry db). t_device_id r = d_device_id d
           \<and> rs_value l = t_value r \<and> rs_event_at l = event_time r
           \<and> (\<forall>q \<in> set (telemetry db). t_device_id q = d_device_id d \<longrightarrow>
                (event_time q, t_id q) \<le> (event_time r, t_id r))"
    if "ds_latest_reading st = Some l" for l
  proof -
    have "ds_latest_reading st = map_option (reading_status_of \<circ> latest_of) (newest_reading db (d_device_id d))"
      using st unfolding status_for_def by blast
    with that obtain r where r: "newest_reading db (d_device_id d) = Some r" "l = reading_status_of (latest_of r)"
      by (cases "newest_reading db (d_device_id d)") auto
    with newest_reading_max(2) [OF assms(2) r(1)] show ?thesis
      by (intro bexI [of _ r]) (simp_all add: reading_status_of_def latest_of_def)
  qed
  have "ds_latest_reading st = None \<longleftrightarrow> d_device_id d \<notin> t_device_id ` set (telemetry db)"
    using st newest_reading_max(1) [OF assms(2), of "d_device_id d"] by (simp add: status_for_def)
  with st latest show "ds_device_id st = d_device_id d \<and> ds_name st = d_name d \<and> ds_gateway_id st = d_gateway_id d
      \<and> (ds_online st \<longleftrightarrow> device_active db d
           \<and> (\<exists>seen. d_last_seen_at d = Some seen \<and> seen \<le> now \<and> now \<le> seen + seconds 90))
      \<and> (ds_latest_reading st = None \<longleftrightarrow> d_device_id d \<notin> t_device_id ` set (telemetry db))
      \<and> (\<forall>l. ds_latest_reading st = Some l \<longrightarrow> (\<exists>r \<in> set (telemetry db). t_device_id r = d_device_id d
           \<and> rs_value l = t_value r \<and> rs_event_at l = event_time r
           \<and> (\<forall>q \<in> set (telemetry db). t_device_id q = d_device_id d \<longrightarrow>
                (event_time q, t_id q) \<le> (event_time r, t_id r))))"
    unfolding status_for_def by blast
qed

theorem device_list_correct_witness:
  "\<exists>st. list_device_status (\<lambda>name. name) 1000 demo_db = [st] \<and> ds_device_id st = ''d1'' \<and> \<not> ds_online st
    \<and> ds_latest_reading st \<noteq> None"
proof -
  have ok: "registry_ok demo_db" "telemetry_ok demo_db" using demo_db_inv by (simp_all add: db_inv_def)
  obtain d where d: "devices demo_db = [d]" "d_device_id d = ''d1''" "d_last_seen_at d = None"
    by (simp add: demo_db_def)
  have "''d1'' \<in> t_device_id ` set (telemetry demo_db)" by (simp add: demo_defs)
  with device_list_correct [OF ok, of 1000 "\<lambda>name. name"] d show ?thesis
    by (auto simp: order_asc_def list_all2_Cons1)
qed


definition demo_registered :: database where
  "demo_registered = demo_db\<lparr>devices := devices demo_db @ [registered_row demo_hash True demo_registration]\<rparr>"

lemma demo_registered_row:
  "lookup_by d_device_id ''pump-7'' (devices demo_registered) = Some (registered_row demo_hash True demo_registration)"
  by (simp add: demo_registered_def demo_db_def registered_row_def demo_registration_def)


text \<open>
  The two authorisation decisions agree: \<open>check_device_ownership\<close> allows a device to a gateway exactly when
  ingestion would take the gateway as eligible and the device as assigned to it and enabled.
\<close>

theorem ownership_agrees_with_ingestion:
  assumes "registry_ok db"
  shows "check_device_ownership db dev gateway_id = Allowed \<longleftrightarrow>
      eligible db gateway_id \<and> assignment_reason gateway_id (lock_assignments db {dev} dev) = None"
proof (cases "lookup_by d_device_id dev (devices db)")
  case None
  then show ?thesis
    by (simp add: check_device_ownership_def read_ownership_def lock_assignments_def assignment_reason_def)
next
  case (Some d)
  obtain g s where gs: "lookup_by g_gateway_id (d_gateway_id d) (gateways db) = Some g"
      "lookup_by s_site_id (g_site_id g) (sites db) = Some s"
    by (rule registry_parents [OF assms, of d]) (use lookup_by_SomeD [OF Some] in auto)
  with Some show ?thesis
    by (auto simp: check_device_ownership_def read_ownership_def lock_assignments_def assignment_reason_def
        eligible_def lock_gateway_eligibility_def)
qed

theorem ownership_agrees_with_ingestion_witness:
  "check_device_ownership demo_db ''d1'' ''g1'' = Allowed \<longleftrightarrow>
     eligible demo_db ''g1'' \<and> assignment_reason ''g1'' (lock_assignments demo_db {''d1''} ''d1'') = None"
  by (rule ownership_agrees_with_ingestion) (use demo_db_inv in \<open>simp add: db_inv_def\<close>)

text \<open>The reference broker whose answer to an account creation is lost after it took effect.\<close>

definition lossy_broker :: "dynsec broker_env" where
  "lossy_broker = (reference_broker '''')\<lparr>be_send := (\<lambda>s c token.
     (case c of Create_client u p \<Rightarrow> ([], dynsec_effect c s)
      | _ \<Rightarrow> ([Some (dynsec_reply token c (dynsec_answer c s))], dynsec_effect c s)))\<rparr>"


end
