(* ===== verification/Gateway_Auth.thy ===== *)
theory Gateway_Auth
  imports Telemetry_Validation
begin

text \<open>
  \<open>backend/app/core/gateway_auth.py\<close>: the credentials file of the gateways and the authentication of a
  request. \<open>scan\<close> is the JSON grammar of the standard library, from the text to its syntax tree, \<open>None\<close> where it
  raises. Header values are Latin-1 text.
\<close>

section \<open>Loading\<close>

text \<open>\<open>unique_pairs\<close> is the hook of every object, at any depth.\<close>

fun unique_members :: "raw_json \<Rightarrow> bool" where
  "unique_members (RArr xs) = list_all unique_members xs"
| "unique_members (RObj ps) = (distinct (map fst ps) \<and> list_all (\<lambda>p. unique_members (snd p)) ps)"
| "unique_members _ = True"

definition token_char :: "char \<Rightarrow> bool" where
  "token_char c \<longleftrightarrow> is_alpha_c c \<or> is_digit_c c \<or> c \<in> set ''._~+/-''"

text \<open>\<open>[A-Za-z0-9._~+/-]+={0,}\<close>, matched against the whole string.\<close>

definition token_match :: "string \<Rightarrow> bool" where
  "token_match s \<longleftrightarrow> takeWhile token_char s \<noteq> '''' \<and> list_all (\<lambda>c. c = CHR ''='') (dropWhile token_char s)"

fun credential_ok :: "string \<times> raw_json \<Rightarrow> bool" where
  "credential_ok (gateway_id, RStr token) \<longleftrightarrow>
     1 \<le> length gateway_id \<and> length gateway_id \<le> 128 \<and> CHR 0x00 \<notin> set gateway_id
     \<and> token_match token \<and> \<not> py_startswith token ''replace-with-''"
| "credential_ok (gateway_id, _) \<longleftrightarrow> False"

fun token_of :: "raw_json \<Rightarrow> string" where
  "token_of (RStr token) = token"
| "token_of _ = ''''"

type_synonym credentials = "(string \<times> string) list"

text \<open>The dict in insertion order; \<open>None\<close> is the RuntimeError. The variable may be unset or empty.\<close>

definition load_gateway_credentials :: "(string \<Rightarrow> raw_json option) \<Rightarrow> string option \<Rightarrow> credentials option" where
  "load_gateway_credentials scan variable =
     (let source = (case variable of None \<Rightarrow> ''{}'' | Some s \<Rightarrow> if s = '''' then ''{}'' else s)
      in case scan source of
           Some (RObj ps) \<Rightarrow>
             if unique_members (RObj ps) \<and> list_all credential_ok ps
                \<and> length (remdups (map (\<lambda>p. token_of (snd p)) ps)) = length ps
             then Some (map (\<lambda>p. (fst p, token_of (snd p))) ps) else None
         | _ \<Rightarrow> None)"

section \<open>Authentication\<close>

definition ascii_lower :: "char \<Rightarrow> char" where
  "ascii_lower c = (if CHR ''A'' \<le> c \<and> c \<le> CHR ''Z'' then char_of (of_char c + (32 :: nat)) else c)"

definition ascii_encode :: "string \<Rightarrow> byte list" where
  "ascii_encode s = map (\<lambda>c. of_nat (of_char c)) s"

text \<open>The authorization headers of a request; \<open>None\<close> is the 401 response.\<close>

definition resolve_gateway :: "credentials \<Rightarrow> string list \<Rightarrow> string option" where
  "resolve_gateway credentials headers =
     (let parts = (case headers of [h] \<Rightarrow> py_split h | _ \<Rightarrow> [])
      in case parts of
           [scheme, supplied] \<Rightarrow>
             if map ascii_lower scheme = ''bearer''
             then map_option fst (find (\<lambda>p. utf8_encode supplied = ascii_encode (snd p)) credentials)
             else None
         | _ \<Rightarrow> None)"

section \<open>Correctness\<close>

definition credentials_ok :: "credentials \<Rightarrow> bool" where
  "credentials_ok cs \<longleftrightarrow> distinct (map fst cs) \<and> distinct (map snd cs)
     \<and> (\<forall>(g, token) \<in> set cs. 1 \<le> length g \<and> length g \<le> 128 \<and> CHR 0x00 \<notin> set g \<and> token_match token)"

lemma credential_token: "credential_ok p \<Longrightarrow> \<exists>g t. p = (g, RStr t) \<and> 1 \<le> length g \<and> length g \<le> 128
    \<and> CHR 0x00 \<notin> set g \<and> token_match t"
  by (cases p rule: credential_ok.cases) auto

lemma loaded_credentials:
  assumes "load_gateway_credentials scan variable = Some cs"
  shows "credentials_ok cs"
proof -
  obtain ps where ps: "unique_members (RObj ps)" "list_all credential_ok ps"
      "length (remdups (map (\<lambda>p. token_of (snd p)) ps)) = length ps"
      "cs = map (\<lambda>p. (fst p, token_of (snd p))) ps"
    using assms by (auto simp: load_gateway_credentials_def Let_def split: option.splits raw_json.splits if_splits)
  have "distinct (map (\<lambda>p. token_of (snd p)) ps)"
    using ps(3) by (metis length_map length_remdups_eq remdups_id_iff_distinct)
  then have "distinct (map snd cs)" by (simp add: ps(4) comp_def)
  moreover have "distinct (map fst cs)" using ps(1) by (simp add: ps(4) comp_def)
  moreover have "1 \<le> length g \<and> length g \<le> 128 \<and> CHR 0x00 \<notin> set g \<and> token_match token"
    if m: "(g, token) \<in> set cs" for g token
  proof -
    obtain x where x: "(g, x) \<in> set ps" "token = token_of x" using m ps(4) by auto
    then have "credential_ok (g, x)" using ps(2) by (auto simp: list_all_iff)
    with credential_token [OF this] x(2) show ?thesis by auto
  qed
  ultimately show ?thesis unfolding credentials_ok_def by blast
qed

lemma token_ascii: "token_match t \<Longrightarrow> c \<in> set t \<Longrightarrow> (of_char c :: nat) < 128"
proof -
  assume t: "token_match t" "c \<in> set t"
  have tc: "(of_char c :: nat) < 128" if "token_char c" for c
    using that by (auto simp: token_char_def is_alpha_c_def is_digit_c_def less_eq_char_def)
  have "set t = set (takeWhile token_char t) \<union> set (dropWhile token_char t)"
    by (metis set_append takeWhile_dropWhile_id)
  then show ?thesis
    using t tc by (auto simp: token_match_def list_all_iff dest: set_takeWhileD)
qed

lemma byte_unat: "n < 256 \<Longrightarrow> unat (of_nat n :: byte) = n"
  by (simp add: unsigned_of_nat take_bit_nat_eq_self)

lemma byte_eq: "m < 256 \<Longrightarrow> n < 256 \<Longrightarrow> (of_nat m :: byte) = of_nat n \<longleftrightarrow> m = n"
  using byte_unat by metis

lemma char_code_bound: "(of_char c :: nat) < 256"
  by simp

lemma utf8_ascii:
  assumes "\<forall>c \<in> set t. (of_char c :: nat) < 128"
  shows "utf8_encode s = ascii_encode t \<longleftrightarrow> s = t"
  using assms
proof (induction s arbitrary: t)
  case Nil
  then show ?case by (auto simp: utf8_encode_def ascii_encode_def)
next
  case (Cons c s)
  show ?case
  proof (cases t)
    case Nil
    then show ?thesis by (auto simp: utf8_encode_def ascii_encode_def utf8_char_def Let_def)
  next
    case t: (Cons d t')
    let ?c = "of_char c :: nat" and ?d = "of_char d :: nat"
    have d: "?d < 128" and rest: "\<forall>c \<in> set t'. (of_char c :: nat) < 128" using Cons.prems t by auto
    show ?thesis
    proof (cases "?c < 128")
      case True
      then have "utf8_encode (c # s) = ascii_encode t \<longleftrightarrow>
          (of_nat ?c :: byte) = of_nat ?d \<and> utf8_encode s = ascii_encode t'"
        by (simp add: utf8_encode_def ascii_encode_def utf8_char_def t)
      also have "\<dots> \<longleftrightarrow> c = d \<and> s = t'"
        using True d Cons.IH [OF rest] byte_eq [of ?c ?d] by simp
      finally show ?thesis by (simp add: t)
    next
      case False
      have "192 + ?c div 64 < 256" using char_code_bound [of c] by linarith
      then have "(of_nat (192 + ?c div 64) :: byte) \<noteq> of_nat ?d" using d by (subst byte_eq) simp_all
      moreover have "c \<noteq> d" using False d by auto
      ultimately show ?thesis
        using False by (simp add: utf8_encode_def ascii_encode_def utf8_char_def t Let_def)
    qed
  qed
qed

lemma find_unique:
  assumes "distinct (map snd ps)"
  shows "find (\<lambda>p. snd p = t) ps = Some p \<longleftrightarrow> p \<in> set ps \<and> snd p = t"
  using assms by (induction ps) (auto simp: image_iff)

section \<open>Properties\<close>

text \<open>
  C20. Authentication with loaded credentials: a request is the gateway's iff it has exactly one authorization
  header, of the two words \<open>bearer\<close> (in any case) and the gateway's own token. The credentials that load have
  distinct gateways with distinct tokens, so no request is ever taken for two gateways.
\<close>

theorem gateway_authentication:
  assumes "load_gateway_credentials scan variable = Some cs"
  shows "(resolve_gateway cs headers = Some g \<longleftrightarrow>
      (\<exists>h scheme token. headers = [h] \<and> py_split h = [scheme, token] \<and> map ascii_lower scheme = ''bearer''
         \<and> (g, token) \<in> set cs))
    \<and> distinct (map fst cs) \<and> distinct (map snd cs)"
proof -
  note ok = loaded_credentials [OF assms]
  have find: "find (\<lambda>p. utf8_encode supplied = ascii_encode (snd p)) cs = find (\<lambda>p. snd p = supplied) cs" for supplied
  proof (rule find_cong [OF refl])
    fix p assume p: "p \<in> set cs"
    have "token_match (snd p)" using ok p unfolding credentials_ok_def by (cases p) auto
    then have "\<forall>c \<in> set (snd p). (of_char c :: nat) < 128" using token_ascii by blast
    then show "(utf8_encode supplied = ascii_encode (snd p)) = (snd p = supplied)"
      using utf8_ascii by auto
  qed
  have dist: "distinct (map snd cs)" "distinct (map fst cs)" using ok by (simp_all add: credentials_ok_def)
  have "resolve_gateway cs headers = Some g \<longleftrightarrow>
      (\<exists>h scheme token. headers = [h] \<and> py_split h = [scheme, token] \<and> map ascii_lower scheme = ''bearer''
         \<and> (\<exists>p. find (\<lambda>p. snd p = token) cs = Some p \<and> fst p = g))"
    unfolding resolve_gateway_def Let_def find by (auto split: list.splits)
  also have "\<dots> \<longleftrightarrow> (\<exists>h scheme token. headers = [h] \<and> py_split h = [scheme, token]
      \<and> map ascii_lower scheme = ''bearer'' \<and> (g, token) \<in> set cs)"
    unfolding find_unique [OF dist(1)] by force
  finally show ?thesis using dist by blast
qed

definition demo_credentials :: raw_json where
  "demo_credentials = RObj [(''g1'', RStr ''token-one==''), (''g2'', RStr ''two'')]"

theorem gateway_authentication_witness:
  "\<exists>cs. load_gateway_credentials (\<lambda>s. Some demo_credentials) (Some ''configured'') = Some cs
    \<and> resolve_gateway cs [''BEARER  token-one==''] = Some ''g1'' \<and> resolve_gateway cs [''Bearer g1''] = None"
proof -
  let ?cs = "[(''g1'', ''token-one==''), (''g2'', ''two'')]"
  have load: "load_gateway_credentials (\<lambda>s. Some demo_credentials) (Some ''configured'') = Some ?cs" by code_simp
  have "py_split ''BEARER  token-one=='' = [''BEARER'', ''token-one=='']" "py_split ''Bearer g1'' = [''Bearer'', ''g1'']"
    by code_simp+
  moreover have "map ascii_lower ''BEARER'' = ''bearer''" by code_simp
  ultimately have "resolve_gateway ?cs [''BEARER  token-one==''] = Some ''g1''"
      "resolve_gateway ?cs [''Bearer g1''] \<noteq> Some g" for g
    using gateway_authentication [OF load] by auto
  with load show ?thesis by blast
qed

end
