(* ===== verification/Http_Api.thy ===== *)
theory Http_Api
  imports Ingestion History Device_Service Gateway_Auth
begin

text \<open>
  The HTTP endpoints: \<open>telemetry/router.py\<close>, \<open>devices/router.py\<close>, \<open>alerts/router.py\<close>, \<open>core/health.py\<close> and
  \<open>read_telemetry_batch\<close> of \<open>telemetry/validation.py\<close>. A response is a status code, the \<open>reason\<close> of an error body,
  and the body of a success. An exception no clause maps is the status 500 of the framework. What FastAPI does
  before a handler runs (routing, parsing of parameters and JSON bodies) is outside.
\<close>

record 'a http_response =
  hr_status :: nat
  hr_reason :: "string option"
  hr_body :: "'a option"

definition ok_response :: "nat \<Rightarrow> 'a \<Rightarrow> 'a http_response" where
  "ok_response code body = \<lparr>hr_status = code, hr_reason = None, hr_body = Some body\<rparr>"

definition http_error :: "nat \<Rightarrow> string \<Rightarrow> 'a http_response" where
  "http_error code reason = \<lparr>hr_status = code, hr_reason = Some reason, hr_body = None\<rparr>"

definition server_error :: "'a http_response" where
  "server_error = \<lparr>hr_status = 500, hr_reason = None, hr_body = None\<rparr>"

section \<open>Telemetry\<close>

fun batch_reason_name :: "batch_reason \<Rightarrow> string" where
  "batch_reason_name Unsupported_schema_version = ''unsupported_schema_version''"
| "batch_reason_name Batch_too_large = ''batch_too_large''"
| "batch_reason_name Malformed_batch = ''malformed_batch''"

text \<open>\<open>read_telemetry_batch\<close>: only a BatchValidationError is mapped, to 400.\<close>

definition read_telemetry_batch ::
    "('b \<Rightarrow> raw_json option) \<Rightarrow> validator \<Rightarrow> 'b \<Rightarrow> ('a http_response, validated_batch) result" where
  "read_telemetry_batch scan V body =
     (case parse_telemetry_batch scan V body of
        Inl (Batch_error e) \<Rightarrow> Inl (http_error 400 (batch_reason_name (be_reason e)))
      | Inl (Uncaught _) \<Rightarrow> Inl server_error
      | Inr batch \<Rightarrow> Inr batch)"

text \<open>The gateway dependency is resolved before the body is read; \<open>batch_id\<close> is the fresh UUID.\<close>

definition ingest_telemetry ::
    "('b \<Rightarrow> raw_json option) \<Rightarrow> validator \<Rightarrow> ingest_env \<Rightarrow> credentials \<Rightarrow> string list \<Rightarrow> 'b \<Rightarrow> string
     \<Rightarrow> database \<Rightarrow> batch_response http_response \<times> database" where
  "ingest_telemetry scan V env credentials headers body batch_id db =
     (case resolve_gateway credentials headers of
        None \<Rightarrow> (http_error 401 ''invalid_gateway_credential'', db)
      | Some gateway_id \<Rightarrow>
          (case read_telemetry_batch scan V body of
             Inl response \<Rightarrow> (response, db)
           | Inr batch \<Rightarrow>
               (case ingest_batch env gateway_id batch batch_id db of
                  (Inr response, db') \<Rightarrow> (ok_response 200 response, db')
                | (Inl Gateway_forbidden, db') \<Rightarrow> (http_error 403 ''gateway_not_authorized'', db')
                | (Inl Database_failure, db') \<Rightarrow> (http_error 503 ''ingestion_unavailable'', db')
                | (Inl (Unhandled _), db') \<Rightarrow> (server_error, db'))))"

definition get_device_history :: "database \<Rightarrow> string \<Rightarrow> py_datetime \<Rightarrow> py_datetime \<Rightarrow> device_history http_response" where
  "get_device_history db device_id range_start range_end =
     (case read_device_history db device_id range_start range_end of
        Inr history \<Rightarrow> ok_response 200 history
      | Inl Invalid_range \<Rightarrow> http_error 422 ''invalid_history_range''
      | Inl Device_not_found \<Rightarrow> http_error 404 ''unknown_device''
      | Inl History_sql_error \<Rightarrow> http_error 503 ''history_unavailable'')"

section \<open>Alerts\<close>

text \<open>\<open>available\<close>: whether the database answers. The limit is validated to 1..100 by the query parameter.\<close>

definition get_alerts :: "bool \<Rightarrow> database \<Rightarrow> nat \<Rightarrow> alert_episode_list http_response" where
  "get_alerts available db limit =
     (if \<not> available then http_error 503 ''alert_episodes_unavailable''
      else ok_response 200 (list_alert_episodes db limit))"

section \<open>Devices\<close>

definition get_gateways :: "bool \<Rightarrow> (string \<Rightarrow> 'c::linorder) \<Rightarrow> database \<Rightarrow> (string \<times> string) list http_response" where
  "get_gateways available coll db =
     (if \<not> available then http_error 503 ''registry_unavailable'' else ok_response 200 (list_gateways coll db))"

definition get_devices :: "bool \<Rightarrow> (string \<Rightarrow> 'c::linorder) \<Rightarrow> usec \<Rightarrow> database \<Rightarrow> device_status list http_response" where
  "get_devices available coll now db =
     (if \<not> available then http_error 503 ''device_status_unavailable''
      else ok_response 200 (list_device_status coll now db))"

text \<open>The except clauses of the four handlers that change devices, in their order.\<close>

fun post_device_error :: "device_error \<Rightarrow> 'a http_response" where
  "post_device_error Gateway_missing = http_error 404 ''gateway_not_found''"
| "post_device_error Name_required = http_error 422 ''name_required''"
| "post_device_error Registry_integrity = http_error 409 ''device_id_exists''"
| "post_device_error Registry_failure = http_error 503 ''registry_unavailable''"
| "post_device_error (Broker_failed Broker_conflict) = http_error 409 ''mqtt_account_exists''"
| "post_device_error (Broker_failed Broker_unavailable) = http_error 503 ''mqtt_broker_unavailable''"
| "post_device_error _ = server_error"

fun existing_mqtt_error :: "device_error \<Rightarrow> 'a http_response" where
  "existing_mqtt_error Invalid_device_credentials = http_error 401 ''invalid_device_credentials''"
| "existing_mqtt_error Registry_integrity = http_error 503 ''registry_unavailable''"
| "existing_mqtt_error Registry_failure = http_error 503 ''registry_unavailable''"
| "existing_mqtt_error (Broker_failed Broker_conflict) = http_error 409 ''mqtt_account_exists''"
| "existing_mqtt_error (Broker_failed Broker_unavailable) = http_error 503 ''mqtt_broker_unavailable''"
| "existing_mqtt_error _ = server_error"

fun heartbeat_error :: "device_error \<Rightarrow> 'a http_response" where
  "heartbeat_error Invalid_device_credentials = http_error 401 ''invalid_device_credentials''"
| "heartbeat_error Registry_integrity = http_error 503 ''registry_unavailable''"
| "heartbeat_error Registry_failure = http_error 503 ''registry_unavailable''"
| "heartbeat_error _ = server_error"

fun delete_device_error :: "device_error \<Rightarrow> 'a http_response" where
  "delete_device_error Device_missing = http_error 404 ''device_not_found''"
| "delete_device_error Registry_integrity = http_error 409 ''device_has_history''"
| "delete_device_error Registry_failure = http_error 503 ''registry_unavailable''"
| "delete_device_error (Broker_failed Broker_conflict) = http_error 409 ''mqtt_account_conflict''"
| "delete_device_error (Broker_failed Broker_unavailable) = http_error 503 ''mqtt_broker_unavailable''"
| "delete_device_error _ = server_error"

definition respond_with :: "nat \<Rightarrow> (device_error \<Rightarrow> 'a http_response) \<Rightarrow> (device_error, 'a) result \<Rightarrow> 'a http_response" where
  "respond_with code handler r = (case r of Inl x \<Rightarrow> handler x | Inr a \<Rightarrow> ok_response code a)"

definition post_device where
  "post_device env hash commits registration db s =
     (case register_device env hash commits registration db s of
        (r, db', s') \<Rightarrow> (respond_with 201 post_device_error r, db', s'))"

definition post_existing_device_mqtt where
  "post_existing_device_mqtt env verify commits device_id password db s =
     (case configure_existing_mqtt env verify commits device_id password db s of
        (r, db', s') \<Rightarrow> (respond_with 204 existing_mqtt_error r, db', s'))"

definition post_heartbeat where
  "post_heartbeat verify commits now device_id password db =
     (case record_heartbeat verify commits now device_id password db of
        (r, db') \<Rightarrow> (respond_with 204 heartbeat_error r, db'))"

definition delete_device_endpoint where
  "delete_device_endpoint env commits device_id db s =
     (case remove_device env commits device_id db s of
        (r, db', s') \<Rightarrow> (respond_with 204 delete_device_error r, db', s'))"

section \<open>Health\<close>

text \<open>The result of the database probe: \<open>Inl\<close> a psycopg error.\<close>

definition live :: "string http_response" where
  "live = ok_response 200 ''ok''"

definition ready :: "(string, unit) result \<Rightarrow> (string \<times> string) http_response" where
  "ready probe =
     (case probe of
        Inl _ \<Rightarrow> \<lparr>hr_status = 503, hr_reason = None, hr_body = Some (''unavailable'', ''unavailable'')\<rparr>
      | Inr _ \<Rightarrow> ok_response 200 (''ready'', ''ok''))"

section \<open>Properties\<close>

text \<open>
  C10. The ingestion endpoint end to end. With loaded credentials, a consistent database and a fresh batch id,
  every request gets one of the documented answers and never a server error: 401 iff it does not authenticate, 400
  iff its body is no batch, 403 iff the gateway is not eligible, 503 iff the commit fails; otherwise 200 with one
  result per item in order. The database only changes with status 200, and always keeps its invariant.
\<close>

theorem ingest_endpoint_total:
  assumes "pydantic_core V" and "db_inv db" and "identifier_ok batch_id"
    and "ingest_telemetry scan V env cs headers body batch_id db = (response, db')"
  shows "db_inv db' \<and> (hr_status response \<noteq> 200 \<longrightarrow> db' = db)
    \<and> (case resolve_gateway cs headers of
         None \<Rightarrow> hr_status response = 401
       | Some g \<Rightarrow>
           (case parse_telemetry_batch scan V body of
              Inl _ \<Rightarrow> hr_status response = 400
            | Inr batch \<Rightarrow>
                if \<not> eligible db g then hr_status response = 403
                else if \<not> ie_commits env then hr_status response = 503
                else hr_status response = 200
                  \<and> (\<exists>br. hr_body response = Some br \<and> br_batch_id br = batch_id
                       \<and> list_all2 result_for (vb_items batch) (br_results br))))"
proof (cases "resolve_gateway cs headers")
  case None
  with assms(2,4) show ?thesis by (auto simp: ingest_telemetry_def http_error_def)
next
  case (Some g)
  show ?thesis
  proof (cases "parse_telemetry_batch scan V body")
    case (Inl e)
    then obtain be where "e = Batch_error be"
      using pydantic_core.parse_not_uncaught [where scan = scan and body = body, OF assms(1)] by (cases e) auto
    with Some Inl assms(2,4) show ?thesis
      by (auto simp: ingest_telemetry_def read_telemetry_batch_def http_error_def)
  next
    case (Inr batch)
    have ok: "batch_ok batch"
      using pydantic_core.parsed_batch_ok [OF assms(1) Inr] by (simp add: batch_ok_def)
    have run: "(response, db') = (case ingest_batch env g batch batch_id db of
                  (Inr response, db') \<Rightarrow> (ok_response 200 response, db')
                | (Inl Gateway_forbidden, db') \<Rightarrow> (http_error 403 ''gateway_not_authorized'', db')
                | (Inl Database_failure, db') \<Rightarrow> (http_error 503 ''ingestion_unavailable'', db')
                | (Inl (Unhandled _), db') \<Rightarrow> (server_error, db'))"
      using assms(4) Some Inr by (simp add: ingest_telemetry_def read_telemetry_batch_def)
    from assms(2) ok assms(3) show ?thesis
    proof (cases rule: ingest_batch_cases [where env = env and gid = g])
      case forbidden
      with run Some Inr assms(2) show ?thesis by (simp add: http_error_def)
    next
      case rolled_back
      with run Some Inr assms(2) show ?thesis by (simp add: http_error_def)
    next
      case (committed rs st')
      then have "db_inv (snd st')" by (simp add: ingest_inv_def)
      with run Some Inr committed show ?thesis by (simp add: ok_response_def)
    qed
  qed
qed

theorem ingest_endpoint_total_witness:
  "\<exists>response db'. ingest_telemetry Some core_check demo_env [(''g1'', ''secret'')] [''Bearer secret''] example_valid
      ''batch-1'' demo_db = (response, db') \<and> hr_status response = 200 \<and> db_inv db'"
proof -
  obtain response db' where r: "ingest_telemetry Some core_check demo_env [(''g1'', ''secret'')] [''Bearer secret'']
      example_valid ''batch-1'' demo_db = (response, db')" by fastforce
  have "resolve_gateway [(''g1'', ''secret'')] [''Bearer secret''] = Some ''g1''" by code_simp
  with ingest_endpoint_total [OF core.pydantic_core_axioms demo_db_inv demo_batch_ok(2) r]
    documented_request_parses demo_batch_ok(3,4) r show ?thesis by auto
qed

end
