(* ===== verification/Py_Float.thy ===== *)
theory Py_Float
  imports Py_Values "HOL-Library.Log_Nat"
begin

text \<open>
  Python's \<open>float\<close>: IEEE 754 binary64 with rounding to nearest, ties to even. A float is a
  \<open>py_number\<close>: a finite one is the rational it denotes, so that the sign of zero is not kept; the
  infinities and NaN are \<open>NonFinite\<close>. Arithmetic rounds the exact result once.
\<close>

section \<open>Rounding to an integer\<close>

definition round_even :: "rat \<Rightarrow> int" where
  "round_even q =
     (let f = floor q; d = q - of_int f
      in if d < 1 / 2 \<or> (d = 1 / 2 \<and> even f) then f else f + 1)"

lemma round_even_between: "floor q \<le> round_even q \<and> round_even q \<le> floor q + 1"
  by (simp add: round_even_def Let_def)

lemma round_even_of_int [simp]: "round_even (of_int n) = n"
  by (simp add: round_even_def)

lemma round_even_mono:
  assumes "p \<le> q"
  shows "round_even p \<le> round_even q"
proof (cases "floor p = floor q")
  case True
  with assms show ?thesis by (auto simp: round_even_def Let_def)
next
  case False
  with floor_mono [OF assms] have "floor p + 1 \<le> floor q" by simp
  with round_even_between [of p] round_even_between [of q] show ?thesis by linarith
qed

section \<open>Rounding to binary64\<close>

text \<open>The binade of a magnitude: 0 up to \<open>2 powr -1021\<close>, where the spacing of floats is \<open>2 powr -1074\<close>.\<close>

definition binade :: "rat \<Rightarrow> nat" where
  "binade a = floorlog 2 (nat (floor (a * 2 ^ 1021)))"

definition spacing :: "nat \<Rightarrow> rat" where
  "spacing k = 2 ^ k / 2 ^ 1074"

definition magnitude :: "rat \<Rightarrow> rat" where
  "magnitude a = of_int (round_even (a / spacing (binade a))) * spacing (binade a)"

definition signed_round :: "rat \<Rightarrow> rat" where
  "signed_round q = (if q < 0 then - magnitude (- q) else magnitude q)"

definition round64 :: "rat \<Rightarrow> py_number" where
  "round64 q = (if \<bar>signed_round q\<bar> < 2 ^ 1024 then Finite (signed_round q) else NonFinite)"

lemma two_power_1074: "(2 :: rat) ^ 1074 = 2 ^ 1021 * 2 ^ 53"
  by (subst power_add [symmetric]) simp

lemma spacing_pos: "0 < spacing k"
  by (simp add: spacing_def)

lemma spacing_Suc: "spacing (Suc k) = 2 * spacing k"
  by (simp add: spacing_def)

lemma binade_mono: "a \<le> b \<Longrightarrow> binade a \<le> binade b"
  by (auto simp: binade_def intro!: floorlog_mono nat_mono floor_mono mult_right_mono)

lemma floorlog_bounds:
  fixes x :: rat
  assumes "0 \<le> x"
  shows "x < 2 ^ floorlog 2 (nat (floor x))"
    and "0 < floorlog 2 (nat (floor x)) \<Longrightarrow> 2 ^ (floorlog 2 (nat (floor x)) - 1) \<le> x"
proof -
  let ?n = "nat (floor x)"
  have n: "of_nat ?n \<le> x" "x < of_nat ?n + 1"
    using assms by (simp_all add: of_nat_nat) linarith+
  have "?n < 2 ^ floorlog 2 ?n"
  proof (cases "?n = 0")
    case False
    then show ?thesis using floorlog_bounds [of ?n 2] by simp
  qed simp
  then have "?n + 1 \<le> 2 ^ floorlog 2 ?n" by linarith
  then have "(of_nat (?n + 1) :: rat) \<le> of_nat (2 ^ floorlog 2 ?n)" by (rule of_nat_mono)
  with n(2) show "x < 2 ^ floorlog 2 ?n" by simp
  assume "0 < floorlog 2 ?n"
  then have "0 < ?n" by (auto simp: floorlog_def split: if_splits)
  then have "2 ^ (floorlog 2 ?n - 1) \<le> ?n" using floorlog_bounds [of ?n 2] by simp
  then have "(of_nat (2 ^ (floorlog 2 ?n - 1)) :: rat) \<le> of_nat ?n" by (rule of_nat_mono)
  then have "2 ^ (floorlog 2 ?n - 1) \<le> (of_nat ?n :: rat)" by (simp only: of_nat_power of_nat_numeral)
  with n(1) show "2 ^ (floorlog 2 ?n - 1) \<le> x" by (rule order_trans [rotated])
qed

text \<open>The significand of a magnitude has at most 53 bits, and at least 53 above the first binade.\<close>

lemma significand_upper:
  assumes "0 \<le> a"
  shows "a / spacing (binade a) < 2 ^ 53"
proof -
  have "a * 2 ^ 1021 < 2 ^ binade a"
    unfolding binade_def using assms by (intro floorlog_bounds(1)) simp
  then have "a * 2 ^ 1021 * 2 ^ 53 < 2 ^ binade a * (2 ^ 53 :: rat)"
    by (rule mult_strict_right_mono) simp
  then have "a * 2 ^ 1074 < 2 ^ 53 * 2 ^ binade a"
    by (simp only: two_power_1074 mult.assoc mult.commute [of "2 ^ 53"])
  then show ?thesis by (simp add: spacing_def field_simps del: power_numeral)
qed

lemma significand_lower:
  assumes "0 \<le> a" and "0 < binade a"
  shows "2 ^ 52 \<le> a / spacing (binade a)"
proof -
  have "2 ^ (binade a - 1) \<le> a * 2 ^ 1021"
    using assms unfolding binade_def by (intro floorlog_bounds(2)) simp_all
  then have "2 ^ (binade a - 1) * (2 ^ 53 :: rat) \<le> a * 2 ^ 1021 * 2 ^ 53"
    by (rule mult_right_mono) simp
  moreover have "(2 ^ (binade a - 1) * 2 ^ 53 :: rat) = 2 ^ 52 * 2 ^ binade a"
  proof -
    have "binade a - 1 + 53 = 52 + binade a" using assms(2) by simp
    then show ?thesis by (simp only: power_add [symmetric])
  qed
  ultimately have "2 ^ 52 * 2 ^ binade a \<le> a * 2 ^ 1074"
    by (simp only: two_power_1074 mult.assoc)
  then show ?thesis by (simp add: spacing_def field_simps del: power_numeral)
qed


text \<open>Rounding is monotone, also across binades.\<close>

lemma magnitude_mono:
  assumes "0 \<le> a" and "a \<le> b"
  shows "magnitude a \<le> magnitude b"
proof (cases "binade a = binade b")
  case True
  have "a / spacing (binade b) \<le> b / spacing (binade b)"
    using assms(2) spacing_pos [of "binade b"] by (intro divide_right_mono) auto
  then have "round_even (a / spacing (binade b)) \<le> round_even (b / spacing (binade b))"
    by (rule round_even_mono)
  then show ?thesis
    using spacing_pos [of "binade b"] by (simp add: magnitude_def True)
next
  case False
  with binade_mono [OF assms(2)] have less: "Suc (binade a) \<le> binade b" by simp
  have "round_even (a / spacing (binade a)) \<le> round_even (2 ^ 53)"
    using significand_upper [OF assms(1)] by (intro round_even_mono) simp
  also have "round_even (2 ^ 53) = 2 ^ 53" using round_even_of_int [of "2 ^ 53"] by simp
  finally have "(of_int (round_even (a / spacing (binade a))) :: rat) \<le> of_int (2 ^ 53)"
    by (simp only: of_int_le_iff)
  then have "magnitude a \<le> 2 ^ 53 * spacing (binade a)"
    unfolding magnitude_def using spacing_pos [of "binade a"] by (intro mult_right_mono) auto
  also have "\<dots> = 2 ^ 52 * spacing (Suc (binade a))" by (simp add: spacing_Suc)
  also have "\<dots> \<le> 2 ^ 52 * spacing (binade b)"
    unfolding spacing_def by (intro mult_left_mono divide_right_mono power_increasing less) simp_all
  also have "\<dots> \<le> magnitude b"
  proof -
    have "round_even (2 ^ 52) \<le> round_even (b / spacing (binade b))"
      using significand_lower [of b] assms less by (intro round_even_mono) simp
    moreover have "round_even (2 ^ 52) = 2 ^ 52" using round_even_of_int [of "2 ^ 52"] by simp
    ultimately have "(of_int (2 ^ 52) :: rat) \<le> of_int (round_even (b / spacing (binade b)))"
      by (simp only: of_int_le_iff)
    then show ?thesis
      unfolding magnitude_def using spacing_pos [of "binade b"] by (intro mult_right_mono) auto
  qed
  finally show ?thesis .
qed

lemma magnitude_0 [simp]: "magnitude 0 = 0"
  using round_even_of_int [of 0] by (simp add: magnitude_def)

lemma magnitude_nonneg: "0 \<le> a \<Longrightarrow> 0 \<le> magnitude a"
  using magnitude_mono [of 0 a] by simp

lemma signed_round_mono: "p \<le> q \<Longrightarrow> signed_round p \<le> signed_round q"
  using magnitude_mono [of p q] magnitude_mono [of "- q" "- p"] magnitude_nonneg [of "- p"] magnitude_nonneg [of q]
  by (auto simp: signed_round_def)

lemma signed_round_minus: "signed_round (- q) = - signed_round q"
  by (auto simp: signed_round_def)

lemma round64_0 [simp]: "round64 0 = Finite 0"
  by (simp add: round64_def signed_round_def)

lemma round64_minus: "round64 q = Finite x \<Longrightarrow> round64 (- q) = Finite (- x)"
  by (auto simp: round64_def signed_round_minus split: if_splits)

text \<open>What lies between two numbers that round to finite ones does, and its rounding lies between theirs.\<close>

lemma round64_between:
  assumes "round64 p = Finite p'" and "round64 r = Finite r'" and "p \<le> q" and "q \<le> r"
  obtains q' where "round64 q = Finite q'" and "p' \<le> q'" and "q' \<le> r'"
proof -
  have p: "p' = signed_round p" "\<bar>signed_round p\<bar> < 2 ^ 1024"
    and r: "r' = signed_round r" "\<bar>signed_round r\<bar> < 2 ^ 1024"
    using assms(1,2) by (simp_all add: round64_def split: if_splits)
  have "signed_round p \<le> signed_round q" "signed_round q \<le> signed_round r"
    using assms(3,4) by (simp_all add: signed_round_mono)
  with p r have "\<bar>signed_round q\<bar> < 2 ^ 1024" by linarith
  then have "round64 q = Finite (signed_round q)" by (simp add: round64_def)
  with that show ?thesis using \<open>signed_round p \<le> signed_round q\<close> \<open>signed_round q \<le> signed_round r\<close> p r by blast
qed


section \<open>Floats\<close>

text \<open>The values of type \<open>float\<close> are the results of rounding.\<close>

definition is_float :: "py_number \<Rightarrow> bool" where
  "is_float x \<longleftrightarrow> (case x of Finite q \<Rightarrow> round64 q = Finite q | NonFinite \<Rightarrow> True)"

definition isfinite :: "py_number \<Rightarrow> bool" where
  "isfinite x \<longleftrightarrow> x \<noteq> NonFinite"

fun float_op :: "(rat \<Rightarrow> rat \<Rightarrow> rat) \<Rightarrow> py_number \<Rightarrow> py_number \<Rightarrow> py_number" where
  "float_op f (Finite a) (Finite b) = round64 (f a b)"
| "float_op f _ _ = NonFinite"

definition fadd :: "py_number \<Rightarrow> py_number \<Rightarrow> py_number" where "fadd = float_op (+)"
definition fsub :: "py_number \<Rightarrow> py_number \<Rightarrow> py_number" where "fsub = float_op (-)"
definition fmul :: "py_number \<Rightarrow> py_number \<Rightarrow> py_number" where "fmul = float_op (*)"
definition fdiv :: "py_number \<Rightarrow> py_number \<Rightarrow> py_number" where "fdiv = float_op (/)"

fun fless :: "py_number \<Rightarrow> py_number \<Rightarrow> bool" where
  "fless (Finite a) (Finite b) \<longleftrightarrow> a < b"
| "fless _ _ \<longleftrightarrow> False"

definition float_of_int :: "int \<Rightarrow> py_number" where
  "float_of_int n = round64 (of_int n)"

text \<open>\<open>max(a, b)\<close> keeps its first argument unless the second is greater.\<close>

definition fmax :: "py_number \<Rightarrow> py_number \<Rightarrow> py_number" where
  "fmax a b = (if fless a b then b else a)"

text \<open>\<open>round(x, n)\<close>: the correctly rounded decimal with n digits, as a float.\<close>

fun round_digits :: "nat \<Rightarrow> py_number \<Rightarrow> py_number" where
  "round_digits n (Finite q) = round64 (of_int (round_even (q * 10 ^ n)) / 10 ^ n)"
| "round_digits n NonFinite = NonFinite"

lemmas float_ops = fadd_def fsub_def fmul_def fdiv_def

text \<open>The greatest finite float is an integer.\<close>

definition max_float :: int where
  "max_float = (2 ^ 53 - 1) * 2 ^ 971"

lemma magnitude_exact:
  assumes "n < 2 ^ 53"
  shows "magnitude (of_nat n * 2 ^ c) = of_nat n * 2 ^ c"
proof (cases "n = 0")
  case False
  let ?m = "floorlog 2 n"
  have m: "?m \<le> 53" using assms by (intro floorlog_leI) simp_all
  have "(of_nat n :: rat) * 2 ^ c * 2 ^ 1021 = of_nat (n * 2 ^ (c + 1021))"
    by (simp only: of_nat_mult of_nat_power of_nat_numeral power_add mult.assoc)
  then have "floor ((of_nat n :: rat) * 2 ^ c * 2 ^ 1021) = int (n * 2 ^ (c + 1021))"
    by (simp only: floor_of_nat)
  then have "binade (of_nat n * 2 ^ c) = floorlog 2 (n * 2 ^ (c + 1021))"
    by (simp only: binade_def nat_int)
  also have "\<dots> = ?m + (c + 1021)" using False by (intro floorlog_power) simp_all
  finally have "spacing (binade (of_nat n * 2 ^ c)) = 2 ^ (?m + c + 1021) / (2 ^ 1021 * 2 ^ 53)"
    by (simp only: spacing_def two_power_1074 add.assoc)
  also have "\<dots> = 2 ^ (?m + c) / 2 ^ 53" by (simp only: power_add divide_divide_eq_left [symmetric] nonzero_mult_div_cancel_right power_not_zero zero_neq_numeral [symmetric] not_False_eq_True)
  finally have sp: "spacing (binade (of_nat n * 2 ^ c)) = 2 ^ (?m + c) / 2 ^ 53" .
  have "(2 :: rat) ^ 53 = 2 ^ (53 - ?m) * 2 ^ ?m" using m by (simp only: power_add [symmetric] le_add_diff_inverse2)
  then have "of_nat n * 2 ^ c / (2 ^ (?m + c) / 2 ^ 53) = (of_int (int (n * 2 ^ (53 - ?m))) :: rat)"
    by (simp add: power_add del: power_numeral)
  then have "round_even (of_nat n * 2 ^ c / spacing (binade (of_nat n * 2 ^ c))) = int (n * 2 ^ (53 - ?m))"
    by (simp only: sp round_even_of_int)
  then have "magnitude (of_nat n * 2 ^ c) = of_int (int (n * 2 ^ (53 - ?m))) * (2 ^ (?m + c) / 2 ^ 53)"
    by (simp only: magnitude_def sp)
  also have "\<dots> = of_nat n * 2 ^ c"
    using \<open>(2 :: rat) ^ 53 = 2 ^ (53 - ?m) * 2 ^ ?m\<close> by (simp add: power_add del: power_numeral)
  finally show ?thesis .
qed simp

lemma binade_less:
  assumes "0 \<le> a" and "a < 2 ^ 1024"
  shows "binade a \<le> 2045"
proof (rule ccontr)
  assume "\<not> binade a \<le> 2045"
  then have "2 ^ 52 * spacing (binade a) \<le> a"
    using significand_lower [of a] assms(1) spacing_pos [of "binade a"] by (simp add: pos_le_divide_eq)
  moreover have "2 ^ 52 * spacing 2046 \<le> 2 ^ 52 * spacing (binade a)"
    unfolding spacing_def using \<open>\<not> binade a \<le> 2045\<close> by (intro mult_left_mono divide_right_mono power_increasing) simp_all
  moreover have "2 ^ 52 * spacing 2046 = 2 ^ 1024" by (simp add: spacing_def)
  ultimately show False using assms(2) by simp
qed


lemma is_float_int: "\<bar>n\<bar> < 2 ^ 53 \<Longrightarrow> round64 (of_int n) = Finite (of_int n)"
proof -
  assume n: "\<bar>n\<bar> < 2 ^ 53"
  then have "magnitude (of_nat (nat \<bar>n\<bar>) * 2 ^ 0) = of_nat (nat \<bar>n\<bar>) * 2 ^ 0"
    by (intro magnitude_exact) (simp only: nat_less_numeral_power_cancel_iff)
  then have mag: "magnitude (of_int \<bar>n\<bar>) = of_int \<bar>n\<bar>" by simp
  then have "signed_round (of_int n) = of_int n"
    by (cases "n < 0") (auto simp: signed_round_def)
  moreover have "(of_int \<bar>n\<bar> :: rat) < of_int (2 ^ 1024)"
    using n by (simp only: of_int_less_iff) (rule less_trans, assumption, simp)
  then have "\<bar>of_int n :: rat\<bar> < 2 ^ 1024" by simp
  ultimately show ?thesis by (simp add: round64_def)
qed

lemma max_float_of_nat: "(of_int max_float :: rat) = of_nat (2 ^ 53 - 1) * 2 ^ 971"
  by (simp add: max_float_def)

lemma round64_max_float: "round64 (of_int max_float) = Finite (of_int max_float)"
proof -
  have "magnitude (of_int max_float) = of_int max_float"
    unfolding max_float_of_nat by (rule magnitude_exact) simp
  moreover have "0 \<le> (of_int max_float :: rat)" "(of_int max_float :: rat) < 2 ^ 1024"
    by (simp_all add: max_float_def)
  ultimately show ?thesis by (simp add: round64_def signed_round_def)
qed

text \<open>Every finite float is at most \<open>max_float\<close>.\<close>

lemma magnitude_le_max_float:
  assumes "0 \<le> a" and "magnitude a < 2 ^ 1024"
  shows "magnitude a \<le> of_int max_float"
proof (cases "a < 2 ^ 1024")
  case True
  let ?k = "binade a" let ?j = "round_even (a / spacing ?k)"
  have k: "?k \<le> 2045" using binade_less [OF assms(1) True] .
  have mag: "magnitude a = of_int ?j * spacing ?k" by (simp add: magnitude_def)
  have top: "spacing 2045 = 2 ^ 971" by (simp add: spacing_def)
  show ?thesis
  proof (cases "?k = 2045")
    case True
    then have "of_int ?j * 2 ^ 971 < (2 ^ 53 * 2 ^ 971 :: rat)"
      using assms(2) mag top by (simp add: mult.commute)
    then have "(of_int ?j :: rat) < of_int (2 ^ 53)" by simp
    then have "?j \<le> 2 ^ 53 - 1" by (simp only: of_int_less_iff)
    then have "(of_int ?j :: rat) \<le> of_int (2 ^ 53 - 1)" by (simp only: of_int_le_iff)
    then have "of_int ?j * 2 ^ 971 \<le> of_int (2 ^ 53 - 1) * (2 ^ 971 :: rat)"
      by (rule mult_right_mono) simp
    with mag True top show ?thesis by (simp add: max_float_def)
  next
    case False
    with k have "?k \<le> 2044" by simp
    then have "spacing ?k \<le> spacing 2044"
      unfolding spacing_def by (intro divide_right_mono power_increasing) simp_all
    moreover have "?j \<le> round_even (2 ^ 53)"
      using significand_upper [OF assms(1)] by (intro round_even_mono) simp
    then have "(of_int ?j :: rat) \<le> 2 ^ 53"
      using round_even_of_int [of "2 ^ 53"] by (metis of_int_le_iff of_int_numeral of_int_power)
    moreover have "0 \<le> round_even (a / spacing ?k)"
      using round_even_mono [of 0 "a / spacing ?k"] round_even_of_int [of 0] assms(1) spacing_pos [of ?k] by simp
    ultimately have "magnitude a \<le> 2 ^ 53 * spacing 2044"
      unfolding mag using spacing_pos [of ?k] by (intro mult_mono) auto
    also have "\<dots> \<le> of_int max_float" by (simp add: spacing_def max_float_def)
    finally show ?thesis .
  qed
next
  case False
  then have "magnitude (of_nat 1 * 2 ^ 1024) \<le> magnitude a"
    by (intro magnitude_mono) simp_all
  with assms(2) show ?thesis using magnitude_exact [of 1 1024] by simp
qed

lemma finite_float_bound: "round64 q = Finite x \<Longrightarrow> \<bar>x\<bar> \<le> of_int max_float"
  using magnitude_le_max_float [of q] magnitude_le_max_float [of "- q"] magnitude_nonneg [of q] magnitude_nonneg [of "- q"]
  by (auto simp: round64_def signed_round_def split: if_splits)

text \<open>Rounding a finite float to decimals never overflows.\<close>

lemma round_digits_finite:
  assumes "\<bar>q\<bar> \<le> of_int max_float"
  obtains x where "round_digits n (Finite q) = Finite x"
proof -
  let ?r = "of_int (round_even (q * 10 ^ n)) / 10 ^ n :: rat"
  have up: "of_int (round_even (p * 10 ^ n)) / 10 ^ n \<le> (of_int m :: rat)" if "p \<le> of_int m" for p :: rat and m
  proof -
    have "round_even (p * 10 ^ n) \<le> round_even (of_int (m * 10 ^ n))"
      using that by (intro round_even_mono) simp
    then have "(of_int (round_even (p * 10 ^ n)) :: rat) \<le> of_int (m * 10 ^ n)"
      by (simp only: round_even_of_int of_int_le_iff)
    then show ?thesis by (simp add: divide_le_eq)
  qed
  have down: "of_int m \<le> (of_int (round_even (p * 10 ^ n)) / 10 ^ n :: rat)" if "of_int m \<le> p" for p :: rat and m
  proof -
    have "round_even (of_int (m * 10 ^ n)) \<le> round_even (p * 10 ^ n)"
      using that by (intro round_even_mono) simp
    then have "(of_int (m * 10 ^ n) :: rat) \<le> of_int (round_even (p * 10 ^ n))"
      by (simp only: round_even_of_int of_int_le_iff)
    then show ?thesis by (simp add: le_divide_eq)
  qed
  have "q \<le> of_int max_float" "of_int (- max_float) \<le> q" using assms by simp_all
  then have "?r \<le> of_int max_float" "of_int (- max_float) \<le> ?r" by (simp_all only: up down)
  then show ?thesis
    using round64_between [OF round64_minus [OF round64_max_float] round64_max_float, of ?r] that by auto
qed

end
