(* ===== verification/Py_Date.thy ===== *)
theory Py_Date
  imports Core_Validator
begin

text \<open>
  Writing a UTC datetime as text: \<open>isoformat(timespec="microseconds")\<close>, \<open>str.replace\<close>, and the proof that
  the validator reads back the instant that was written.
\<close>

section \<open>Calendar dates\<close>

definition year_length :: "int \<Rightarrow> int" where
  "year_length y = (if is_leap y then 366 else 365)"

function split_year :: "int \<Rightarrow> int \<Rightarrow> int \<times> int" where
  "split_year y d = (if d < year_length y then (y, d) else split_year (y + 1) (d - year_length y))"
  by pat_completeness auto
termination
  by (relation "measure (\<lambda>(y, d). nat d)") (auto simp: year_length_def split: if_splits)

declare split_year.simps [simp del]

fun split_month :: "int list \<Rightarrow> nat \<Rightarrow> int \<Rightarrow> nat \<times> int" where
  "split_month [] m d = (m, d)"
| "split_month (l # ls) m d = (if d < l then (m, d) else split_month ls (m + 1) (d - l))"

lemma div_pred:
  assumes "0 < (k :: int)"
  shows "y div k = (y - 1) div k + (if y mod k = 0 then 1 else 0)"
proof -
  define q r where "q = y div k" and "r = y mod k"
  have y: "y = r + q * k" and r: "0 \<le> r" "r < k" using assms by (simp_all add: q_def r_def)
  show ?thesis
  proof (cases "r = 0")
    case True
    then have "y - 1 = (k - 1) + (q - 1) * k" using y by (simp add: algebra_simps)
    then have "(y - 1) div k = q - 1" using assms by (simp only: div_mult_self1) simp
    with True show ?thesis using q_def r_def by simp
  next
    case False
    then have "y - 1 = (r - 1) + q * k" using y by simp
    then have "(y - 1) div k = q" using assms r False by (simp only: div_mult_self1) simp
    with False show ?thesis using q_def r_def by simp
  qed
qed

lemma multiples_of_400:
  "(y :: int) mod 400 = 0 \<Longrightarrow> y mod 100 = 0" "y mod 100 = 0 \<Longrightarrow> y mod 4 = 0"
  using dvd_trans [of 100 400 y] dvd_trans [of 4 100 y] by (simp_all add: mod_eq_0_iff_dvd)

lemma leap_day_sum:
  fixes y :: int
  assumes "a = a' + (if p then 1 else 0)" and "b = b' + (if q then 1 else 0)" and "c = c' + (if r then 1 else 0)"
    and "r \<Longrightarrow> q" and "q \<Longrightarrow> p"
  shows "y * 365 + a - b + c = (y - 1) * 365 + a' - b' + c' + (if p \<and> (\<not> q \<or> r) then 366 else 365)"
  using assms by (cases p; cases q; cases r) simp_all

lemma days_before_next_year: "days_before_year (y + 1) = days_before_year y + year_length y"
proof -
  have "days_before_year (y + 1) = y * 365 + y div 4 - y div 100 + y div 400"
    by (simp only: days_before_year_def add_diff_cancel_right')
  also have "\<dots> = (y - 1) * 365 + (y - 1) div 4 - (y - 1) div 100 + (y - 1) div 400
      + (if y mod 4 = 0 \<and> (\<not> y mod 100 = 0 \<or> y mod 400 = 0) then 366 else 365)"
    by (rule leap_day_sum) (simp_all only: div_pred [of 4 y] div_pred [of 100 y] div_pred [of 400 y] multiples_of_400 zero_less_numeral)
  finally show ?thesis by (simp only: days_before_year_def year_length_def is_leap_def)
qed

lemma year_length_pos: "0 < year_length y"
  by (simp add: year_length_def)

lemma split_year_correct:
  assumes "0 \<le> d" and "split_year y d = (y', r)"
  shows "y \<le> y' \<and> days_before_year y' + r = days_before_year y + d \<and> 0 \<le> r \<and> r < year_length y'"
  using assms
proof (induction y d rule: split_year.induct)
  case (1 y d)
  show ?case
  proof (cases "d < year_length y")
    case True
    with "1.prems" show ?thesis by (simp add: split_year.simps [of y d])
  next
    case False
    with "1.prems" have "split_year (y + 1) (d - year_length y) = (y', r)"
      by (simp add: split_year.simps [of y d])
    with "1.IH" [OF False] False show ?thesis by (simp add: days_before_next_year)
  qed
qed

lemma days_before_year_mono:
  assumes "y \<le> z"
  shows "days_before_year y \<le> days_before_year z"
  using assms
proof (induction rule: int_ge_induct)
  case (step i)
  then show ?case using year_length_pos [of i] by (simp add: days_before_next_year)
qed simp

lemma year_at_most_9999:
  assumes "days_before_year y + r < 3652059" and "0 \<le> r"
  shows "y \<le> 9999"
proof (rule ccontr)
  assume "\<not> y \<le> 9999"
  then have "days_before_year 10000 \<le> days_before_year y" by (intro days_before_year_mono) simp
  then show False using assms by (simp add: days_before_year_def)
qed

lemma split_month_correct:
  assumes "0 \<le> d" and "d < sum_list ls" and "split_month ls m d = (m', r)"
  shows "m \<le> m' \<and> m' - m < length ls \<and> sum_list (take (m' - m) ls) + r = d \<and> 0 \<le> r \<and> r < ls ! (m' - m)"
  using assms
proof (induction ls m d rule: split_month.induct)
  case (2 l ls m d)
  show ?case
  proof (cases "d < l")
    case True
    with 2 show ?thesis by simp
  next
    case False
    with 2 have ih: "m + 1 \<le> m' \<and> m' - (m + 1) < length ls \<and> sum_list (take (m' - (m + 1)) ls) + r = d - l
        \<and> 0 \<le> r \<and> r < ls ! (m' - (m + 1))" by simp
    then have "m + 1 \<le> m'" by simp
    then have "m' - m = Suc (m' - (m + 1))" by linarith
    with ih show ?thesis by simp
  qed
qed simp

lemma sum_month_lengths: "sum_list (month_lengths y) = year_length y"
  by (simp add: month_lengths_def year_length_def)

section \<open>Text\<close>

text \<open>A number in a field of fixed width, padded with zeros.\<close>

fun pad :: "nat \<Rightarrow> nat \<Rightarrow> string" where
  "pad 0 n = []"
| "pad (Suc w) n = pad w (n div 10) @ [char_of (48 + n mod 10)]"

fun py_replace :: "string \<Rightarrow> string \<Rightarrow> string \<Rightarrow> string" where
  "py_replace old new [] = []"
| "py_replace old new (c # s) =
     (if old \<noteq> [] \<and> take (length old) (c # s) = old then new @ py_replace old new (drop (length old - 1) s)
      else c # py_replace old new s)"

record civil =
  c_year :: int
  c_month :: nat
  c_day :: int
  c_time :: usec

definition civil_of :: "usec \<Rightarrow> civil" where
  "civil_of t =
     (let (y, d) = split_year 1 (t div 86400000000); (m, r) = split_month (month_lengths y) 1 d
      in \<lparr>c_year = y, c_month = m, c_day = r + 1, c_time = t mod 86400000000\<rparr>)"

text \<open>\<open>datetime.isoformat(timespec="microseconds")\<close> of a datetime in UTC.\<close>

definition isoformat_utc :: "usec \<Rightarrow> string" where
  "isoformat_utc t =
     (let c = civil_of t; u = nat (c_time c)
      in pad 4 (nat (c_year c)) @ ''-'' @ pad 2 (c_month c) @ ''-'' @ pad 2 (nat (c_day c)) @ ''T''
         @ pad 2 (u div 3600000000) @ '':'' @ pad 2 (u div 60000000 mod 60) @ '':''
         @ pad 2 (u div 1000000 mod 60) @ ''.'' @ pad 6 (u mod 1000000) @ ''+00:00'')"

lemma length_pad [simp]: "length (pad w n) = w"
  by (induction w arbitrary: n) simp_all

lemma pad_digits: "c \<in> set (pad w n) \<Longrightarrow> is_digit_c c"
  by (induction w arbitrary: n) auto

lemma nat_of_digits_pad [simp]: "nat_of_digits 0 (pad w n) = n mod 10 ^ w"
proof (induction w arbitrary: n)
  case (Suc w)
  then show ?case by (simp add: nat_of_digits_append mod_mult2_eq)
qed simp

lemma py_replace_skip:
  "old \<noteq> [] \<Longrightarrow> hd old \<notin> set p \<Longrightarrow> py_replace old new (p @ s) = p @ py_replace old new s"
proof (induction p)
  case (Cons c p)
  then have "take (length old) (c # p @ s) \<noteq> old" by (cases old) auto
  with Cons show ?case by simp
qed simp

lemma quotient_less:
  assumes "0 < (k :: int)" and "t < n * k"
  shows "t div k < n"
proof (rule ccontr)
  assume "\<not> t div k < n"
  then have "n * k \<le> t div k * k" using assms(1) by (intro mult_right_mono) simp_all
  moreover have "t div k * k \<le> t" using div_mult_mod_eq [of t k] pos_mod_sign [OF assms(1), of t] by linarith
  ultimately show False using assms(2) by linarith
qed

lemma civil_of_correct:
  assumes "in_datetime_range t"
  shows "1 \<le> c_year (civil_of t)" "c_year (civil_of t) \<le> 9999"
    "1 \<le> c_month (civil_of t)" "c_month (civil_of t) \<le> 12"
    "1 \<le> c_day (civil_of t)" "c_day (civil_of t) \<le> month_lengths (c_year (civil_of t)) ! (c_month (civil_of t) - 1)"
    "0 \<le> c_time (civil_of t)" "c_time (civil_of t) < 86400000000"
    "days (days_before_year (c_year (civil_of t)) + days_before_month (c_year (civil_of t)) (c_month (civil_of t))
       + c_day (civil_of t) - 1) + c_time (civil_of t) = t"
proof -
  obtain y d where yd: "split_year 1 (t div 86400000000) = (y, d)" by (cases "split_year 1 (t div 86400000000)")
  obtain m r where mr: "split_month (month_lengths y) 1 d = (m, r)" by (cases "split_month (month_lengths y) 1 d")
  have c: "civil_of t = \<lparr>c_year = y, c_month = m, c_day = r + 1, c_time = t mod 86400000000\<rparr>"
    using mr by (simp add: civil_of_def yd)
  have t: "0 \<le> t div 86400000000" "t div 86400000000 < 3652059"
    using assms by (auto simp: in_datetime_range_def datetime_end_def days_def intro: quotient_less)
  have y: "1 \<le> y" "days_before_year y + d = t div 86400000000" "0 \<le> d" "d < year_length y"
    using split_year_correct [OF t(1) yd] by (simp_all add: days_before_year_def)
  have m: "1 \<le> m" "m - 1 < 12" "sum_list (take (m - 1) (month_lengths y)) + r = d" "0 \<le> r"
      "r < month_lengths y ! (m - 1)"
    using split_month_correct [OF y(3) _ mr] y(4) by (simp_all add: sum_month_lengths) (simp add: month_lengths_def)
  show "1 \<le> c_year (civil_of t)" "1 \<le> c_month (civil_of t)" "c_month (civil_of t) \<le> 12"
    "1 \<le> c_day (civil_of t)" "c_day (civil_of t) \<le> month_lengths (c_year (civil_of t)) ! (c_month (civil_of t) - 1)"
    "0 \<le> c_time (civil_of t)" "c_time (civil_of t) < 86400000000"
    using y m by (simp_all add: c)
  show "c_year (civil_of t) \<le> 9999" using year_at_most_9999 [of y d] y t by (simp add: c)
  have "days_before_year y + days_before_month y m + (r + 1) - 1 = t div 86400000000"
    using y m by (simp add: days_before_month_def)
  then show "days (days_before_year (c_year (civil_of t)) + days_before_month (c_year (civil_of t)) (c_month (civil_of t))
       + c_day (civil_of t) - 1) + c_time (civil_of t) = t"
    by (simp add: c days_def)
qed


section \<open>Reading back\<close>

text \<open>The text with the offset written as \<open>Z\<close>, as the simulator sends it.\<close>

definition zulu :: "usec \<Rightarrow> string" where
  "zulu t = py_replace ''+00:00'' ''Z'' (isoformat_utc t)"

lemma digit_not_special: "is_digit_c c \<Longrightarrow> c \<noteq> CHR ''+'' \<and> c \<noteq> CHR ''.'' \<and> c \<noteq> CHR ''Z''"
  by (auto simp: is_digit_c_def less_eq_char_def)

lemma zulu_eq:
  "zulu t =
     (let c = civil_of t; u = nat (c_time c)
      in pad 4 (nat (c_year c)) @ ''-'' @ pad 2 (c_month c) @ ''-'' @ pad 2 (nat (c_day c)) @ ''T''
         @ pad 2 (u div 3600000000) @ '':'' @ pad 2 (u div 60000000 mod 60) @ '':''
         @ pad 2 (u div 1000000 mod 60) @ ''.'' @ pad 6 (u mod 1000000) @ ''Z'')"
proof -
  have skip: "py_replace ''+00:00'' ''Z'' (p @ s) = p @ py_replace ''+00:00'' ''Z'' s" if "CHR ''+'' \<notin> set p" for p s
    using that by (intro py_replace_skip) simp_all
  have "CHR ''+'' \<notin> set (pad w n)" for w n using pad_digits [of "CHR ''+''" w n] digit_not_special by blast
  then show ?thesis
    unfolding zulu_def isoformat_utc_def Let_def by (simp add: skip del: pad.simps)
qed

lemma match_pad: "match_template (replicate w (CHR ''d'') @ ts) (pad w n @ s) = match_template ts s"
proof -
  have "match_template (replicate (length p) (CHR ''d'') @ ts) (p @ s) = match_template ts s"
    if "\<forall>c \<in> set p. is_digit_c c" for p
    using that by (induction p) auto
  from this [of "pad w n"] pad_digits show ?thesis by auto
qed

lemma takeWhile_pad: "takeWhile is_digit_c (pad w n @ s) = pad w n @ takeWhile is_digit_c s"
  "dropWhile is_digit_c (pad w n @ s) = dropWhile is_digit_c s"
  by (simp_all add: pad_digits)

lemma fraction_usec_pad: "n < 1000000 \<Longrightarrow> fraction_usec (pad 6 n) = int n"
proof -
  have "foldl (\<lambda>a c. 10 * a + int (digit_val c)) (int a) ds = int (nat_of_digits a ds)" for a ds
  proof (induction ds arbitrary: a)
    case (Cons c ds)
    from Cons [of "10 * a + digit_val c"] show ?case by simp
  qed simp
  from this [of 0 "pad 6 n"] show "n < 1000000 \<Longrightarrow> fraction_usec (pad 6 n) = int n"
    by (simp add: fraction_usec_def del: pad.simps)
qed

lemma sexagesimal:
  "(u :: int) = s * 1000000 + f \<Longrightarrow> s = m * 60 + ss \<Longrightarrow> m = h * 60 + mm \<Longrightarrow>
   h * 3600000000 + mm * 60000000 + ss * 1000000 + f = u"
  by linarith

lemma time_of_day:
  assumes "(u :: nat) < 86400000000"
  obtains h m s f where "h = u div 3600000000" "m = u div 60000000 mod 60" "s = u div 1000000 mod 60" "f = u mod 1000000"
    and "h < 24" "m < 60" "s < 60" "f < 1000000"
    and "int h * 3600000000 + int m * 60000000 + int s * 1000000 + int f = int u"
proof
  have "u div 60000000 = u div 1000000 div 60" "u div 3600000000 = u div 60000000 div 60"
    by (simp_all add: div_mult2_eq [symmetric])
  then have split: "u = (u div 1000000) * 1000000 + u mod 1000000"
    and split2: "u div 1000000 = (u div 60000000) * 60 + u div 1000000 mod 60"
    and split3: "u div 60000000 = (u div 3600000000) * 60 + u div 60000000 mod 60"
    by (simp_all only: div_mult_mod_eq)
  have lift: "int a = int b * int n + int r" if "a = b * n + r" for a b n r :: nat
    using that by simp
  show "int (u div 3600000000) * 3600000000 + int (u div 60000000 mod 60) * 60000000
      + int (u div 1000000 mod 60) * 1000000 + int (u mod 1000000) = int u"
    by (rule sexagesimal [OF lift [OF split, unfolded of_nat_numeral] lift [OF split2, unfolded of_nat_numeral]
          lift [OF split3, unfolded of_nat_numeral]])
  show "u div 3600000000 < 24" using assms by (simp add: less_mult_imp_div_less)
qed simp_all

text \<open>The validator reads a written instant back as itself, for every instant of the range of years.\<close>

lemma iso_parse_zulu:
  assumes "in_datetime_range t"
  shows "timestamp_pattern (zulu t)" and "iso_parse (zulu t) = Some (DT t (Some 0))"
proof -
  define c u where "c = civil_of t" and "u = nat (c_time c)"
  note cs = civil_of_correct [OF assms, folded c_def]
  have uu: "u < 86400000000" "int u = c_time c" using cs(7,8) by (simp_all add: u_def)
  obtain hn mn sn fn where tod: "hn = u div 3600000000" "mn = u div 60000000 mod 60" "sn = u div 1000000 mod 60"
      "fn = u mod 1000000" "hn < 24" "mn < 60" "sn < 60" "fn < 1000000"
      "int hn * 3600000000 + int mn * 60000000 + int sn * 1000000 + int fn = int u"
    by (rule time_of_day [OF uu(1)])
  define Y M D h m s f where "Y = pad 4 (nat (c_year c))" and "M = pad 2 (c_month c)" and "D = pad 2 (nat (c_day c))"
    and "h = pad 2 hn" and "m = pad 2 mn" and "s = pad 2 sn" and "f = pad 6 fn"
  note fields = Y_def M_def D_def h_def m_def s_def f_def
  have len: "length Y = 4" "length M = 2" "length D = 2" "length h = 2" "length m = 2" "length s = 2" "length f = 6"
    by (simp_all only: fields length_pad)
  have z: "zulu t = Y @ ''-'' @ M @ ''-'' @ D @ ''T'' @ h @ '':'' @ m @ '':'' @ s @ ''.'' @ f @ ''Z''"
    by (simp only: zulu_eq Let_def fields c_def u_def tod(1-4))
  have head: "take 19 (zulu t) = Y @ ''-'' @ M @ ''-'' @ D @ ''T'' @ h @ '':'' @ m @ '':'' @ s"
    and rest: "drop 19 (zulu t) = ''.'' @ f @ ''Z''"
    by (simp_all add: z len)
  have tmpl: "''dddd-dd-ddTdd:dd:dd'' = replicate 4 (CHR ''d'') @ ''-'' @ replicate 2 (CHR ''d'') @ ''-''
      @ replicate 2 (CHR ''d'') @ ''T'' @ replicate 2 (CHR ''d'') @ '':'' @ replicate 2 (CHR ''d'') @ '':''
      @ replicate 2 (CHR ''d'')"
    by (simp add: numeral_eq_Suc)
  have "match_template ''dddd-dd-ddTdd:dd:dd'' (take 19 (zulu t))"
    unfolding head tmpl fields
    using match_pad [of 2 "[]" sn "[]"] by (simp add: match_pad del: pad.simps replicate.simps)
  moreover have Z: "\<not> is_digit_c (CHR ''Z'')" by (simp add: is_digit_c_def less_eq_char_def)
  then have frac: "takeWhile is_digit_c (f @ ''Z'') = f" "dropWhile is_digit_c (f @ ''Z'') = ''Z''"
    unfolding f_def takeWhile_pad by simp_all
  moreover have "f \<noteq> []" using len by auto
  ultimately show pattern: "timestamp_pattern (zulu t)"
    by (simp add: timestamp_pattern_def rest match_fraction_zone_def match_zone_def)
  have day: "c_day c \<le> 31"
  proof -
    have "\<forall>l \<in> set (month_lengths (c_year c)). l \<le> 31" by (simp add: month_lengths_def)
    moreover have "c_month c - 1 < length (month_lengths (c_year c))"
      using cs(3,4) by (simp add: month_lengths_def)
    ultimately show ?thesis using cs(6) nth_mem by fastforce
  qed
  have nums: "num_at (zulu t) 0 4 = nat (c_year c)" "num_at (zulu t) 5 2 = c_month c" "num_at (zulu t) 8 2 = nat (c_day c)"
      "num_at (zulu t) 11 2 = hn" "num_at (zulu t) 14 2 = mn" "num_at (zulu t) 17 2 = sn"
    unfolding num_at_def z using cs(1-5) day tod(5-7)
    by (simp_all add: len) (simp_all add: fields del: pad.simps)
  have "civil_to_usec (c_year c) (c_month c) (c_day c) (int hn) (int mn) (int sn) (int fn) = t"
    using tod(9) cs(9) uu(2) unfolding civil_to_usec_def by linarith
  then show "iso_parse (zulu t) = Some (DT t (Some 0))"
    using cs(1-6) tod(5-7) pattern fraction_usec_pad [OF tod(8), folded f_def]
    by (simp add: iso_parse_def nums rest frac zone_offset_def Let_def)
qed

end
