(* ===== verification/Simulator_Events.thy ===== *)
theory Simulator_Events
  imports Py_Float Py_Date Telemetry_Validation
begin

text \<open>
  \<open>simulator/events.py\<close>: temperature profiles, scenarios, and the events they generate. Numbers have the types
  the dataclasses declare, so the tests of the dynamic type are true here; ValueError is a message. Outside are the
  sine of the C library, the generator behind \<open>random.Random\<close>, UUID version 5 (a function of the JSON value it
  hashes) and the shortest decimal \<open>repr\<close> prints for a float: the fields of \<open>sim_env\<close>.
\<close>

section \<open>Profiles\<close>

record sim_env =
  se_sin :: "py_number \<Rightarrow> rat"
  se_random :: "int \<Rightarrow> nat \<Rightarrow> rat"
  se_uuid5 :: "pyval \<Rightarrow> string"
  se_repr :: "rat \<Rightarrow> rat"

definition SIMULATOR_VERSION :: string where "SIMULATOR_VERSION = ''1''"
definition MAX_COUNTER_sim :: int where "MAX_COUNTER_sim = 2 ^ 63 - 1"
definition MAX_EVENTS :: int where "MAX_EVENTS = 1000000"

definition identifier_check :: "string \<Rightarrow> string \<Rightarrow> (string, unit) result" where
  "identifier_check v name =
     (if \<not> (1 \<le> length v \<and> length v \<le> 128) \<or> CHR 0x00 \<in> set v
      then Inl (name @ '' must contain 1 to 128 characters without NUL'') else Inr ())"

definition integer :: "int \<Rightarrow> string \<Rightarrow> int \<Rightarrow> int \<Rightarrow> (string, unit) result" where
  "integer v name minimum maximum =
     (if \<not> (minimum \<le> v \<and> v \<le> maximum)
      then Inl (name @ '' must be an integer from '' @ digits_of_nat (nat minimum) @ '' to ''
                @ digits_of_nat (nat maximum)) else Inr ())"

record temperature_profile =
  pr_kind :: string
  pr_temperature :: py_number
  pr_step :: py_number
  pr_amplitude :: py_number
  pr_period :: int
  pr_noise :: py_number

definition finite_field :: "string \<times> py_number \<Rightarrow> (string, unit) result" where
  "finite_field f = (if isfinite (snd f) then Inr () else Inl (fst f @ '' must be finite''))"

definition TemperatureProfile :: "temperature_profile \<Rightarrow> (string, temperature_profile) result" where
  "TemperatureProfile p =
     (if pr_kind p \<notin> {''constant'', ''ramp'', ''sine''} then Inl ''profile must be constant, ramp or sine''
      else res_bind (res_map finite_field [(''temperature'', pr_temperature p), (''step'', pr_step p),
             (''amplitude'', pr_amplitude p), (''noise'', pr_noise p)]) (\<lambda>_.
        if fless (pr_amplitude p) (Finite 0) \<or> fless (pr_noise p) (Finite 0)
        then Inl ''amplitude and noise must be nonnegative''
        else res_bind (integer (pr_period p) ''period'' 1 MAX_EVENTS) (\<lambda>_. Inr p)))"

text \<open>\<open>math.tau\<close>, the float nearest to the circle constant.\<close>

definition tau :: py_number where
  "tau = round64 (6283185307179586476925286766559 / 10 ^ 30)"

definition baseline :: "sim_env \<Rightarrow> temperature_profile \<Rightarrow> int \<Rightarrow> py_number" where
  "baseline env p index =
     (if pr_kind p = ''ramp'' then fadd (pr_temperature p) (fmul (pr_step p) (float_of_int index))
      else if pr_kind p = ''sine''
      then fadd (pr_temperature p) (fmul (pr_amplitude p)
             (Finite (se_sin env (fdiv (fmul tau (float_of_int (index mod pr_period p))) (float_of_int (pr_period p))))))
      else pr_temperature p)"

section \<open>Scenarios\<close>

record scenario =
  sc_device_id :: string
  sc_run_id :: string
  sc_boot_id :: "string option"
  sc_seed :: int
  sc_count :: int
  sc_interval_ms :: int
  sc_start_time :: py_datetime
  sc_reboot_every :: int
  sc_profile :: temperature_profile

definition profile_bounds :: "sim_env \<Rightarrow> scenario \<Rightarrow> py_number list" where
  "profile_bounds env s =
     (if pr_kind (sc_profile s) = ''sine''
      then [fsub (pr_temperature (sc_profile s)) (pr_amplitude (sc_profile s)),
            fadd (pr_temperature (sc_profile s)) (pr_amplitude (sc_profile s))]
      else [baseline env (sc_profile s) 0, baseline env (sc_profile s) (sc_count s - 1)])"

definition with_noise :: "py_number \<Rightarrow> scenario \<Rightarrow> py_number list" where
  "with_noise v s = [fadd v (fmul (Finite (-1)) (pr_noise (sc_profile s))),
                     fadd v (fmul (Finite 1) (pr_noise (sc_profile s)))]"

text \<open>The try block: the start in UTC, if it and the last timestamp are representable.\<close>

definition scenario_start :: "scenario \<Rightarrow> py_datetime option" where
  "scenario_start s =
     (case astimezone_utc (sc_start_time s) of
        None \<Rightarrow> None
      | Some start \<Rightarrow>
          (let duration_ms = (sc_count s - 1) * sc_interval_ms s
           in case integer duration_ms ''scenario duration in ms'' 0 MAX_COUNTER_sim of
                Inl _ \<Rightarrow> None
              | Inr _ \<Rightarrow> if in_datetime_range (wall start + duration_ms * 1000) then Some start else None))"

definition Scenario :: "sim_env \<Rightarrow> scenario \<Rightarrow> (string, scenario) result" where
  "Scenario env s =
     res_bind (identifier_check (sc_device_id s) ''device_id'') (\<lambda>_.
     res_bind (identifier_check (sc_run_id s) ''run_id'') (\<lambda>_.
     res_bind (case sc_boot_id s of None \<Rightarrow> Inr () | Some b \<Rightarrow> identifier_check b ''boot_id'') (\<lambda>_.
     res_bind (integer (sc_count s) ''count'' 1 MAX_EVENTS) (\<lambda>_.
     res_bind (integer (sc_interval_ms s) ''interval_ms'' 1 MAX_COUNTER_sim) (\<lambda>_.
     res_bind (integer (sc_reboot_every s) ''reboot_every'' 0 MAX_EVENTS) (\<lambda>_.
       if \<not> is_aware (sc_start_time s) then Inl ''start_time must include a timezone''
       else (case scenario_start s of
               None \<Rightarrow> Inl ''scenario timestamps/counters exceed supported range''
             | Some start \<Rightarrow>
                 if list_all isfinite (concat (map (\<lambda>v. with_noise v s) (profile_bounds env s)))
                 then Inr (s\<lparr>sc_start_time := start\<rparr>)
                 else Inl ''profile generates nonfinite temperatures'')))))))"

section \<open>Events\<close>

definition boot_name :: "scenario \<Rightarrow> int \<Rightarrow> pyval" where
  "boot_name s number = PList [PStr SIMULATOR_VERSION, PStr (sc_run_id s), PStr (sc_device_id s),
     (case sc_boot_id s of None \<Rightarrow> PNone | Some b \<Rightarrow> PStr b), PInt number]"

definition boot_id :: "sim_env \<Rightarrow> scenario \<Rightarrow> int \<Rightarrow> string" where
  "boot_id env s number =
     (if number = 0 \<and> sc_boot_id s \<noteq> None then the (sc_boot_id s)
      else (let derived = se_uuid5 env (boot_name s number)
            in if Some derived = sc_boot_id s then ''reboot-'' @ derived else derived))"

definition noise_draw :: "sim_env \<Rightarrow> scenario \<Rightarrow> nat \<Rightarrow> py_number" where
  "noise_draw env s index =
     fmul (fsub (fmul (Finite 2) (Finite (se_random env (sc_seed s) index))) (Finite 1)) (pr_noise (sc_profile s))"

type_synonym event_dict = "(string \<times> pyval) list"

definition sample_time :: "scenario \<Rightarrow> nat \<Rightarrow> usec" where
  "sample_time s index = wall (sc_start_time s) + int index * sc_interval_ms s * 1000"

definition scenario_event :: "sim_env \<Rightarrow> scenario \<Rightarrow> nat \<Rightarrow> string \<Rightarrow> nat \<Rightarrow> event_dict" where
  "scenario_event env s index current_boot boot_start = [
     (''device_id'', PStr (sc_device_id s)),
     (''boot_id'', PStr current_boot),
     (''sequence_number'', PInt (int index - int boot_start)),
     (''measured_at'', PStr (zulu (sample_time s index))),
     (''device_uptime_ms'', PInt ((int index - int boot_start) * sc_interval_ms s)),
     (''gateway_received_at'', PStr (zulu (sample_time s index))),
     (''metric'', PStr ''temperature''),
     (''value'', PNum (round_digits 6 (fadd (baseline env (sc_profile s) (int index)) (noise_draw env s index)))),
     (''unit'', PStr ''celsius''),
     (''quality'', PDict [(''reading'', PStr ''valid''), (''clock'', PStr ''synchronised'')])]"

text \<open>The loop: the number, the identity and the first index of the current boot.\<close>

fun events_from :: "sim_env \<Rightarrow> scenario \<Rightarrow> nat list \<Rightarrow> int \<times> string \<times> nat \<Rightarrow> event_dict list" where
  "events_from env s [] st = []"
| "events_from env s (index # rest) (boot_number, current_boot, boot_start) =
     (let st = (if index \<noteq> 0 \<and> sc_reboot_every s \<noteq> 0 \<and> int index mod sc_reboot_every s = 0
                then (boot_number + 1, boot_id env s (boot_number + 1), index)
                else (boot_number, current_boot, boot_start))
      in scenario_event env s index (fst (snd st)) (snd (snd st)) # events_from env s rest st)"

definition generate_events :: "sim_env \<Rightarrow> scenario \<Rightarrow> event_dict list" where
  "generate_events env s = events_from env s [0..<nat (sc_count s)] (0, boot_id env s 0, 0)"

text \<open>\<open>islice\<close> until nothing is left.\<close>

function chunks :: "nat \<Rightarrow> 'a list \<Rightarrow> 'a list list" where
  "chunks n xs = (if take n xs = [] then [] else take n xs # chunks n (drop n xs))"
  by pat_completeness auto
termination
  by (relation "measure (\<lambda>(n, xs). length xs)") auto

declare chunks.simps [simp del]

definition batch_dict :: "event_dict list \<Rightarrow> event_dict" where
  "batch_dict batch = [(''schema_version'', PInt 1), (''events'', PList (map PDict batch))]"

definition batches :: "sim_env \<Rightarrow> scenario \<Rightarrow> int \<Rightarrow> (string, event_dict list list) result" where
  "batches env s batch_size =
     res_bind (integer batch_size ''batch_size'' 1 500) (\<lambda>_. Inr (chunks (nat batch_size) (generate_events env s)))"

text \<open>
  \<open>json.dumps(v, allow_nan=False)\<close>: the syntax tree of the text; \<open>None\<close> is the ValueError for a number that is not
  finite and the TypeError for a value JSON does not have.
\<close>

fun dumps :: "(rat \<Rightarrow> rat) \<Rightarrow> pyval \<Rightarrow> raw_json option"
  and dumps_list :: "(rat \<Rightarrow> rat) \<Rightarrow> pyval list \<Rightarrow> raw_json list option"
  and dumps_pairs :: "(rat \<Rightarrow> rat) \<Rightarrow> (string \<times> pyval) list \<Rightarrow> (string \<times> raw_json) list option" where
  "dumps repr PNone = Some RNull"
| "dumps repr (PBool b) = Some (RBool b)"
| "dumps repr (PInt n) = Some (RInt n)"
| "dumps repr (PNum (Finite q)) = Some (RFloat (Some (repr q)))"
| "dumps repr (PNum NonFinite) = None"
| "dumps repr (PStr t) = Some (RStr t)"
| "dumps repr (PTime d) = None"
| "dumps repr (PList xs) = map_option RArr (dumps_list repr xs)"
| "dumps repr (PDict ps) = map_option RObj (dumps_pairs repr ps)"
| "dumps_list repr [] = Some []"
| "dumps_list repr (x # xs) =
     (case dumps repr x of None \<Rightarrow> None | Some t \<Rightarrow> map_option ((#) t) (dumps_list repr xs))"
| "dumps_pairs repr [] = Some []"
| "dumps_pairs repr ((k, x) # ps) =
     (case dumps repr x of None \<Rightarrow> None | Some t \<Rightarrow> map_option ((#) (k, t)) (dumps_pairs repr ps))"

definition encode_batch :: "sim_env \<Rightarrow> event_dict list \<Rightarrow> raw_json option" where
  "encode_batch env batch = dumps (se_repr env) (PDict (batch_dict batch))"

section \<open>The generated sequence in closed form\<close>

text \<open>Boots are counted from 0; without reboots the division by 0 of HOL makes everything boot 0.\<close>

definition boot_length :: "scenario \<Rightarrow> nat" where
  "boot_length s = nat (sc_reboot_every s)"

definition event_at :: "sim_env \<Rightarrow> scenario \<Rightarrow> nat \<Rightarrow> event_dict" where
  "event_at env s i = scenario_event env s i (boot_id env s (int (i div boot_length s))) (i div boot_length s * boot_length s)"

definition boot_state :: "sim_env \<Rightarrow> scenario \<Rightarrow> nat \<Rightarrow> int \<times> string \<times> nat" where
  "boot_state env s i = (int (i div boot_length s), boot_id env s (int (i div boot_length s)),
     i div boot_length s * boot_length s)"

lemma reboot_condition:
  assumes "0 \<le> sc_reboot_every s"
  shows "Suc i \<noteq> 0 \<and> sc_reboot_every s \<noteq> 0 \<and> int (Suc i) mod sc_reboot_every s = 0
    \<longleftrightarrow> boot_length s \<noteq> 0 \<and> Suc i mod boot_length s = 0"
proof -
  have r: "sc_reboot_every s = int (boot_length s)" using assms by (simp add: boot_length_def)
  show ?thesis unfolding r by (simp only: of_nat_mod [symmetric] of_nat_eq_0_iff) simp
qed

lemma boot_state_Suc:
  assumes "0 \<le> sc_reboot_every s"
  shows "boot_state env s (Suc i) =
    (if Suc i \<noteq> 0 \<and> sc_reboot_every s \<noteq> 0 \<and> int (Suc i) mod sc_reboot_every s = 0
     then (fst (boot_state env s i) + 1, boot_id env s (fst (boot_state env s i) + 1), Suc i)
     else boot_state env s i)"
proof (cases "boot_length s \<noteq> 0 \<and> Suc i mod boot_length s = 0")
  case True
  then have "Suc i div boot_length s = Suc (i div boot_length s)" by (simp add: div_Suc)
  moreover have "Suc i div boot_length s * boot_length s = Suc i"
    using True div_mult_mod_eq [of "Suc i" "boot_length s"] by simp
  ultimately show ?thesis using True unfolding reboot_condition [OF assms] by (simp add: boot_state_def add.commute)
next
  case False
  then have "Suc i div boot_length s = i div boot_length s" by (cases "boot_length s = 0") (simp_all add: div_Suc)
  with False show ?thesis unfolding reboot_condition [OF assms] by (simp add: boot_state_def)
qed

lemma events_from_step:
  assumes "0 \<le> sc_reboot_every s"
  shows "events_from env s (Suc i # rest) (boot_state env s i) =
    scenario_event env s (Suc i) (fst (snd (boot_state env s (Suc i)))) (snd (snd (boot_state env s (Suc i))))
    # events_from env s rest (boot_state env s (Suc i))"
proof -
  obtain b c f where st: "boot_state env s i = (b, c, f)" by (cases "boot_state env s i")
  show ?thesis unfolding boot_state_Suc [OF assms, of env i] st by (simp only: events_from.simps Let_def fst_conv)
qed

lemma events_from_Suc:
  assumes "0 \<le> sc_reboot_every s"
  shows "events_from env s [Suc i..<n] (boot_state env s i) = map (event_at env s) [Suc i..<n]"
proof (induction "n - Suc i" arbitrary: i)
  case (Suc k)
  then have "[Suc i..<n] = Suc i # [Suc (Suc i)..<n]" by (simp add: upt_conv_Cons)
  with Suc show ?case using Suc(1) [of "Suc i"] Suc(2) events_from_step [OF assms, of env i]
    by (simp add: event_at_def boot_state_def del: upt_Suc)
qed simp

lemma generate_events_eq:
  assumes "0 \<le> sc_reboot_every s"
  shows "generate_events env s = map (event_at env s) [0..<nat (sc_count s)]"
proof (cases "nat (sc_count s)")
  case (Suc k)
  have "boot_state env s 0 = (0, boot_id env s 0, 0)" by (simp add: boot_state_def)
  moreover have "[0..<nat (sc_count s)] = 0 # [Suc 0..<nat (sc_count s)]" using Suc by (simp add: upt_conv_Cons)
  ultimately show ?thesis
    using events_from_Suc [OF assms, of env 0 "nat (sc_count s)"]
    by (simp add: generate_events_def event_at_def del: upt_Suc)
qed (simp add: generate_events_def)

section \<open>Constructed scenarios\<close>

definition uuid_char :: "char \<Rightarrow> bool" where
  "uuid_char c \<longleftrightarrow> c \<in> set ''0123456789abcdef-''"

text \<open>What the model relies on of the functions outside: ranges, and the format of a UUID.\<close>

definition sim_env_ok :: "sim_env \<Rightarrow> bool" where
  "sim_env_ok env \<longleftrightarrow>
     (\<forall>x. - 1 \<le> se_sin env x \<and> se_sin env x \<le> 1)
     \<and> (\<forall>seed n. 0 \<le> se_random env seed n \<and> se_random env seed n < 1)
     \<and> (\<forall>v. length (se_uuid5 env v) = 36 \<and> list_all uuid_char (se_uuid5 env v))"

text \<open>No two boots of the run derive the same UUID.\<close>

definition boots_distinct :: "sim_env \<Rightarrow> scenario \<Rightarrow> bool" where
  "boots_distinct env s \<longleftrightarrow> inj_on (\<lambda>k. se_uuid5 env (boot_name s (int k))) {..nat (sc_count s)}"

text \<open>The numbers of a scenario are Python floats.\<close>

definition profile_floats :: "temperature_profile \<Rightarrow> bool" where
  "profile_floats p \<longleftrightarrow> is_float (pr_temperature p) \<and> is_float (pr_step p) \<and> is_float (pr_amplitude p)
     \<and> is_float (pr_noise p)"

text \<open>A scenario as the constructor leaves it.\<close>

definition scenario_ok :: "scenario \<Rightarrow> bool" where
  "scenario_ok s \<longleftrightarrow>
     identifier_ok (sc_device_id s) \<and> opt_all identifier_ok (sc_boot_id s)
     \<and> 1 \<le> sc_count s \<and> 1 \<le> sc_interval_ms s \<and> 0 \<le> sc_reboot_every s
     \<and> sc_count s \<le> MAX_EVENTS \<and> (sc_count s - 1) * sc_interval_ms s \<le> MAX_COUNTER
     \<and> in_datetime_range (sample_time s 0) \<and> in_datetime_range (sample_time s (nat (sc_count s) - 1))"

lemma identifier_check_Inr: "identifier_check v name = Inr u \<longleftrightarrow> identifier_ok v"
  by (auto simp: identifier_check_def identifier_ok_def identifier_pattern_def MAX_IDENTIFIER_LENGTH_def)

lemma integer_Inr: "integer v name lo hi = Inr u \<longleftrightarrow> lo \<le> v \<and> v \<le> hi"
  by (auto simp: integer_def)

lemma integer_cases: "(\<exists>u. integer v name lo hi = Inr u) \<longleftrightarrow> lo \<le> v \<and> v \<le> hi"
  by (auto simp: integer_def)

lemma scenario_start_Some:
  "scenario_start s = Some d \<longleftrightarrow>
     in_datetime_range (instant (sc_start_time s)) \<and> d = DT (instant (sc_start_time s)) (Some 0)
     \<and> 0 \<le> (sc_count s - 1) * sc_interval_ms s \<and> (sc_count s - 1) * sc_interval_ms s \<le> MAX_COUNTER
     \<and> in_datetime_range (instant (sc_start_time s) + (sc_count s - 1) * sc_interval_ms s * 1000)"
  by (auto simp: scenario_start_def astimezone_utc_def integer_def MAX_COUNTER_def MAX_COUNTER_sim_def Let_def
      split: if_splits)

lemma Scenario_InrD:
  assumes "Scenario env s0 = Inr s"
  shows "scenario_ok s" and "s = s0\<lparr>sc_start_time := sc_start_time s\<rparr>"
    and "list_all isfinite (concat (map (\<lambda>v. with_noise v s0) (profile_bounds env s0)))"
    and "wall (sc_start_time s) = instant (sc_start_time s0)"
proof -
  obtain d where d: "scenario_start s0 = Some d" "s = s0\<lparr>sc_start_time := d\<rparr>"
    and fin: "list_all isfinite (concat (map (\<lambda>v. with_noise v s0) (profile_bounds env s0)))"
    and ids: "identifier_ok (sc_device_id s0)" "opt_all identifier_ok (sc_boot_id s0)"
    and ints: "1 \<le> sc_count s0" "sc_count s0 \<le> MAX_EVENTS" "1 \<le> sc_interval_ms s0" "0 \<le> sc_reboot_every s0"
    using assms by (auto simp: Scenario_def identifier_check_Inr integer_Inr split: if_splits option.splits)
  show "s = s0\<lparr>sc_start_time := sc_start_time s\<rparr>" by (simp add: d(2))
  show "list_all isfinite (concat (map (\<lambda>v. with_noise v s0) (profile_bounds env s0)))" by (rule fin)
  show "wall (sc_start_time s) = instant (sc_start_time s0)" using d by (auto simp: scenario_start_Some)
  have "int (nat (sc_count s0) - 1) = sc_count s0 - 1" using ints(1) by simp
  then show "scenario_ok s"
    using d ids ints unfolding scenario_ok_def sample_time_def by (auto simp: scenario_start_Some)
qed

lemma sample_time_range:
  assumes "scenario_ok s" and "i < nat (sc_count s)"
  shows "in_datetime_range (sample_time s i)"
proof -
  have "0 \<le> sc_interval_ms s" using assms(1) by (simp add: scenario_ok_def)
  then have "0 \<le> int i * sc_interval_ms s * 1000" by simp
  moreover have "int i \<le> int (nat (sc_count s) - 1)" using assms(2) by linarith
  then have "int i * sc_interval_ms s * 1000 \<le> int (nat (sc_count s) - 1) * sc_interval_ms s * 1000"
    using \<open>0 \<le> sc_interval_ms s\<close> by (intro mult_right_mono) simp_all
  moreover have "in_datetime_range (sample_time s 0)" "in_datetime_range (sample_time s (nat (sc_count s) - 1))"
    using assms(1) by (simp_all add: scenario_ok_def)
  ultimately show ?thesis by (simp add: in_datetime_range_def sample_time_def)
qed

lemma sequence_of_event: "int i - int (i div r) * int r = int (i mod r)"
  by (metis add_diff_cancel_left' div_mult_mod_eq of_nat_add of_nat_mult)

lemma uuid_format:
  assumes "sim_env_ok env"
  shows "length (se_uuid5 env v) = 36" "list_all uuid_char (se_uuid5 env v)"
    "se_uuid5 env v \<noteq> ''reboot-'' @ w"
proof -
  show len: "length (se_uuid5 env v) = 36" and chars: "list_all uuid_char (se_uuid5 env v)"
    using assms by (simp_all add: sim_env_ok_def)
  show "se_uuid5 env v \<noteq> ''reboot-'' @ w" using chars by (auto simp: uuid_char_def)
qed

lemma boot_id_ok:
  assumes "sim_env_ok env" and "scenario_ok s"
  shows "identifier_ok (boot_id env s k)"
proof -
  have no_nul: "CHR 0x00 \<notin> set (se_uuid5 env v)" for v
  proof
    assume "CHR 0x00 \<in> set (se_uuid5 env v)"
    then have "uuid_char (CHR 0x00)" using uuid_format(2) [OF assms(1), of v] by (simp add: list_all_iff)
    then show False by (simp add: uuid_char_def)
  qed
  then have "identifier_ok (se_uuid5 env v)" "identifier_ok (''reboot-'' @ se_uuid5 env v)" for v
    using uuid_format(1) [OF assms(1), of v]
    by (auto simp: identifier_ok_def identifier_pattern_def MAX_IDENTIFIER_LENGTH_def)
  then show ?thesis using assms(2) by (auto simp: boot_id_def Let_def scenario_ok_def)
qed

text \<open>Every reboot changes the identity, whatever the initial one is.\<close>

lemma boot_id_inj:
  assumes "sim_env_ok env" and "inj_on (\<lambda>k. se_uuid5 env (boot_name s (int k))) A"
  shows "inj_on (\<lambda>k. boot_id env s (int k)) A"
proof (rule inj_onI)
  let ?u = "\<lambda>k. se_uuid5 env (boot_name s (int k))"
  fix j k assume jk: "j \<in> A" "k \<in> A" "boot_id env s (int j) = boot_id env s (int k)"
  have u: "?u m = ?u n \<longleftrightarrow> m = n" if "m \<in> A" "n \<in> A" for m n
    using assms(2) that by (auto dest: inj_onD)
  note fmt = uuid_format(3) [OF assms(1)]
  have len: "''reboot-'' @ w \<noteq> w" for w :: string by (metis append_self_conv2 list.distinct(1))
  show "j = k"
    using jk(3) u [OF jk(1,2)] fmt len
    by (auto simp: boot_id_def Let_def split: if_splits dest: sym)
qed

section \<open>Generated values are finite\<close>

lemma float_op_between:
  assumes "float_op f (Finite a) (Finite u) = Finite p" and "float_op f (Finite b) (Finite w) = Finite q"
    and "f a u \<le> f x y" and "f x y \<le> f b w"
  obtains z where "float_op f (Finite x) (Finite y) = Finite z" and "p \<le> z" and "z \<le> q"
  using round64_between [of "f a u" p "f b w" q "f x y"] assms by auto

lemma float_op_Finite: "float_op f x y = Finite z \<Longrightarrow> \<exists>a b. x = Finite a \<and> y = Finite b"
  by (cases x; cases y) auto

lemma fmul_unit:
  assumes "is_float (Finite a)" and "0 \<le> a" and "- 1 \<le> u" and "u \<le> 1"
  obtains z where "fmul (Finite u) (Finite a) = Finite z" and "- a \<le> z" and "z \<le> a"
proof -
  have a: "round64 a = Finite a" using assms(1) by (simp add: is_float_def)
  have "u * a \<le> a" using mult_right_mono [OF assms(4,2)] by simp
  moreover have "- a \<le> u * a" using mult_right_mono [OF assms(3,2)] by simp
  ultimately show ?thesis
    using round64_between [OF round64_minus [OF a] a, of "u * a"] that by (auto simp: fmul_def)
qed

lemma fmul_commute: "fmul x y = fmul y x"
  by (cases x; cases y) (simp_all add: fmul_def mult.commute)

lemma small_int_float: "\<bar>n\<bar> \<le> MAX_EVENTS \<Longrightarrow> float_of_int n = Finite (of_int n)"
  by (simp add: float_of_int_def is_float_int MAX_EVENTS_def)

text \<open>The finite numbers of a profile that constructs.\<close>

lemma TemperatureProfile_Inr:
  assumes "TemperatureProfile p = Inr p'"
  obtains T S A N where "p' = p" and "pr_temperature p = Finite T" and "pr_step p = Finite S"
    and "pr_amplitude p = Finite A" and "pr_noise p = Finite N" and "0 \<le> A" and "0 \<le> N"
    and "1 \<le> pr_period p" and "pr_period p \<le> MAX_EVENTS"
    and "pr_kind p \<in> {''constant'', ''ramp'', ''sine''}"
proof -
  have "p' = p" "isfinite (pr_temperature p)" "isfinite (pr_step p)" "isfinite (pr_amplitude p)" "isfinite (pr_noise p)"
    and nn: "\<not> fless (pr_amplitude p) (Finite 0)" "\<not> fless (pr_noise p) (Finite 0)"
    and per: "1 \<le> pr_period p" "pr_period p \<le> MAX_EVENTS" "pr_kind p \<in> {''constant'', ''ramp'', ''sine''}"
    using assms by (auto simp: TemperatureProfile_def finite_field_def integer_Inr split: if_splits sum.splits)
  then show ?thesis
    using that by (cases "pr_temperature p"; cases "pr_step p"; cases "pr_amplitude p"; cases "pr_noise p")
      (auto simp: isfinite_def)
qed

lemma noise_between:
  assumes "sim_env_ok env" and "pr_noise (sc_profile s) = Finite N" and "is_float (Finite N)" and "0 \<le> N"
  obtains y where "noise_draw env s i = Finite y" and "- N \<le> y" and "y \<le> N"
proof -
  let ?r = "se_random env (sc_seed s) i"
  have r: "0 \<le> ?r" "?r < 1" using assms(1) by (simp_all add: sim_env_ok_def)
  have two: "round64 2 = Finite 2" "round64 1 = Finite 1" using is_float_int [of 2] is_float_int [of 1] by simp_all
  obtain a where a: "round64 (2 * ?r) = Finite a" "0 \<le> a" "a \<le> 2"
    using round64_between [OF round64_0 two(1), of "2 * ?r"] r by auto
  obtain b where b: "round64 (a - 1) = Finite b" "- 1 \<le> b" "b \<le> 1"
    using round64_between [OF round64_minus [OF two(2)] two(2), of "a - 1"] a by auto
  obtain y where "fmul (Finite b) (Finite N) = Finite y" "- N \<le> y" "y \<le> N"
    by (rule fmul_unit [OF assms(3,4) b(2,3)])
  moreover have "noise_draw env s i = fmul (Finite b) (Finite N)"
    using a(1) b(1) by (simp add: noise_draw_def assms(2) fmul_def fsub_def)
  ultimately show ?thesis using that by simp
qed

text \<open>Every baseline lies between the two bounds the constructor checks.\<close>

lemma ramp_between:
  assumes "fadd (Finite T) (fmul (Finite S) (Finite (of_int n))) = Finite hi" and "round64 T = Finite T"
    and "0 \<le> i" and "i \<le> n"
  obtains x where "fadd (Finite T) (fmul (Finite S) (Finite (of_int i))) = Finite x"
    and "min T hi \<le> x" and "x \<le> max T hi"
proof -
  obtain m where m: "round64 (S * of_int n) = Finite m" "round64 (T + m) = Finite hi"
    using assms(1) that by (cases "round64 (S * of_int n)") (auto simp: fadd_def fmul_def)
  have zero: "round64 (S * 0) = Finite 0" by simp
  have le: "(0 :: rat) \<le> of_int i" "(of_int i :: rat) \<le> of_int n" using assms(3,4) by simp_all
  have base: "round64 (T + 0) = Finite T" using assms(2) by simp
  show ?thesis
  proof (cases "0 \<le> S")
    case True
    then obtain k where k: "round64 (S * of_int i) = Finite k" "0 \<le> k" "k \<le> m"
      using round64_between [OF zero m(1), of "S * of_int i"] le by (auto simp: mult_left_mono)
    then obtain x where "round64 (T + k) = Finite x" "T \<le> x" "x \<le> hi"
      using round64_between [OF base m(2), of "T + k"] by auto
    with k show ?thesis using that [of x] by (auto simp: fadd_def fmul_def)
  next
    case False
    then obtain k where k: "round64 (S * of_int i) = Finite k" "m \<le> k" "k \<le> 0"
      using round64_between [OF m(1) zero, of "S * of_int i"] le False
      by (auto simp: mult_left_mono_neg mult_nonpos_nonneg)
    then obtain x where "round64 (T + k) = Finite x" "hi \<le> x" "x \<le> T"
      using round64_between [OF m(2) base, of "T + k"] by auto
    with k show ?thesis using that [of x] by (auto simp: fadd_def fmul_def)
  qed
qed


lemma isfinite_iff: "isfinite x \<longleftrightarrow> (\<exists>q. x = Finite q)"
  by (cases x) (simp_all add: isfinite_def)

lemma fadd_finite: "isfinite (fadd x y) \<Longrightarrow> isfinite x"
  by (cases x; cases y) (simp_all add: isfinite_def fadd_def)

text \<open>The bounds of the constructor, with the noise on both sides, enclose every sample.\<close>

lemma baseline_enclosed:
  assumes "sim_env_ok env" and "TemperatureProfile p = Inr p" and "profile_floats p" and "sc_profile s = p"
    and "0 \<le> i" and "i \<le> sc_count s - 1" and "sc_count s \<le> MAX_EVENTS"
    and "list_all isfinite (profile_bounds env s)"
  obtains x lo hi where "baseline env p i = Finite x" and "lo \<le> x" and "x \<le> hi"
    and "Finite lo \<in> set (profile_bounds env s)" and "Finite hi \<in> set (profile_bounds env s)"
proof -
  obtain T S A N where p: "pr_temperature p = Finite T" "pr_step p = Finite S" "pr_amplitude p = Finite A"
      "pr_noise p = Finite N" "0 \<le> A" and kind: "pr_kind p \<in> {''constant'', ''ramp'', ''sine''}"
    by (rule TemperatureProfile_Inr [OF assms(2)]) auto
  have fl: "round64 T = Finite T" "is_float (Finite A)" using assms(3) p by (simp_all add: profile_floats_def is_float_def)
  consider "pr_kind p = ''constant''" | "pr_kind p = ''ramp''" | "pr_kind p = ''sine''" using kind by auto
  then show ?thesis
  proof cases
    case 1
    then show ?thesis using that [of T T T] by (simp add: baseline_def profile_bounds_def assms(4) p)
  next
    case 2
    have ints: "float_of_int (sc_count s - 1) = Finite (of_int (sc_count s - 1))" "float_of_int i = Finite (of_int i)"
        "float_of_int 0 = Finite 0"
      using small_int_float [of "sc_count s - 1"] small_int_float [of i] assms(5-7) by (simp_all add: float_of_int_def)
    obtain hi where hi: "fadd (Finite T) (fmul (Finite S) (Finite (of_int (sc_count s - 1)))) = Finite hi"
      using assms(8) 2 by (auto simp: profile_bounds_def assms(4) baseline_def p ints isfinite_iff)
    have bounds: "profile_bounds env s = [Finite T, Finite hi]"
      using 2 hi fl(1) by (simp add: profile_bounds_def assms(4) baseline_def p ints fadd_def fmul_def)
    obtain x where x: "fadd (Finite T) (fmul (Finite S) (Finite (of_int i))) = Finite x" "min T hi \<le> x" "x \<le> max T hi"
      by (rule ramp_between [OF hi fl(1) assms(5,6)])
    then show ?thesis
      using that [of x "min T hi" "max T hi"] 2 by (auto simp: baseline_def p ints bounds min_def max_def)
  next
    case 3
    let ?u = "se_sin env (fdiv (fmul tau (float_of_int (i mod pr_period p))) (float_of_int (pr_period p)))"
    have "- 1 \<le> ?u" "?u \<le> 1" using assms(1) by (simp_all add: sim_env_ok_def)
    then obtain m where m: "fmul (Finite ?u) (Finite A) = Finite m" "- A \<le> m" "m \<le> A"
      by (rule fmul_unit [OF fl(2) p(5)])
    have bounds: "profile_bounds env s = [fsub (Finite T) (Finite A), fadd (Finite T) (Finite A)]"
      using 3 by (simp add: profile_bounds_def assms(4) p)
    then obtain lo hi where b: "round64 (T - A) = Finite lo" "round64 (T + A) = Finite hi"
      using assms(8) by (auto simp: isfinite_iff fsub_def fadd_def)
    obtain x where "round64 (T + m) = Finite x" "lo \<le> x" "x \<le> hi"
      using round64_between [OF b, of "T + m"] m by auto
    then show ?thesis
      using that [of x lo hi] 3 m(1) b bounds
      by (auto simp: baseline_def p fmul_commute [of "Finite A"] fadd_def fsub_def)
  qed
qed

lemma generated_value_finite:
  assumes "sim_env_ok env" and "TemperatureProfile p = Inr p" and "profile_floats p" and "sc_profile s = p"
    and "Scenario env s = Inr s'" and "i < nat (sc_count s)"
  obtains z where "round_digits 6 (fadd (baseline env p (int i)) (noise_draw env s i)) = Finite z"
proof -
  obtain N where N: "pr_noise p = Finite N" "0 \<le> N" by (rule TemperatureProfile_Inr [OF assms(2)]) auto
  have Nf: "is_float (Finite N)" "round64 N = Finite N" using assms(3) N by (simp_all add: profile_floats_def is_float_def)
  note made = Scenario_InrD [OF assms(5)]
  have s': "sc_count s' = sc_count s" using made(2) by (metis scenario.select_convs(5) scenario.surjective scenario.update_convs(7))
  then have count: "1 \<le> sc_count s" "sc_count s \<le> MAX_EVENTS" using made(1) by (simp_all add: scenario_ok_def)
  have noisy: "isfinite (fadd v (Finite (- N)))" "isfinite (fadd v (Finite N))" if "v \<in> set (profile_bounds env s)" for v
    using made(3) that Nf by (auto simp: list_all_iff with_noise_def assms(4) N fmul_def dest: round64_minus)
  have "list_all isfinite (profile_bounds env s)" using noisy fadd_finite by (auto simp: list_all_iff)
  then obtain x lo hi where x: "baseline env p (int i) = Finite x" "lo \<le> x" "x \<le> hi"
    and b: "Finite lo \<in> set (profile_bounds env s)" "Finite hi \<in> set (profile_bounds env s)"
    using baseline_enclosed [OF assms(1-4), of "int i"] assms(6) count by (auto simp: zless_nat_eq_int_zless)
  obtain y where y: "noise_draw env s i = Finite y" "- N \<le> y" "y \<le> N"
    using noise_between [OF assms(1), of s N] N Nf assms(4) by auto
  obtain p q where "fadd (Finite lo) (Finite (- N)) = Finite p" "fadd (Finite hi) (Finite N) = Finite q"
    using noisy(1) [OF b(1)] noisy(2) [OF b(2)] by (auto simp: isfinite_iff)
  then have "round64 (lo + - N) = Finite p" "round64 (hi + N) = Finite q" by (simp_all add: fadd_def)
  then obtain z where z: "round64 (x + y) = Finite z"
    using round64_between [of "lo + - N" p "hi + N" q "x + y"] x y by auto
  then obtain r where "round_digits 6 (Finite z) = Finite r"
    using round_digits_finite [OF finite_float_bound [OF z]] by blast
  with z x y show ?thesis using that by (simp add: fadd_def)
qed

section \<open>The server accepts what is generated\<close>

text \<open>The event the contract assigns to a sample.\<close>

definition wire_event :: "sim_env \<Rightarrow> scenario \<Rightarrow> nat \<Rightarrow> telemetry_event" where
  "wire_event env s i =
     \<lparr>ev_device_id = sc_device_id s, ev_boot_id = boot_id env s (int (i div boot_length s)),
      ev_sequence_number = int (i mod boot_length s), ev_measured_at = Some (sample_time s i),
      ev_device_uptime_ms = int (i mod boot_length s) * sc_interval_ms s,
      ev_gateway_received_at = sample_time s i, ev_metric = ''temperature'',
      ev_value = (case round_digits 6 (fadd (baseline env (sc_profile s) (int i)) (noise_draw env s i)) of
                    Finite q \<Rightarrow> se_repr env q | NonFinite \<Rightarrow> 0),
      ev_unit = ''celsius'', ev_quality = \<lparr>q_reading = ''valid'', q_clock = ''synchronised''\<rparr>\<rparr>"

text \<open>A scenario whose construction succeeded, in an environment as documented.\<close>

definition constructed :: "sim_env \<Rightarrow> scenario \<Rightarrow> bool" where
  "constructed env s \<longleftrightarrow> sim_env_ok env \<and> TemperatureProfile (sc_profile s) = Inr (sc_profile s)
     \<and> profile_floats (sc_profile s) \<and> (\<exists>s0. sc_profile s0 = sc_profile s \<and> Scenario env s0 = Inr s)"

lemma constructedD:
  assumes "constructed env s"
  shows "sim_env_ok env" and "scenario_ok s"
    and "i < nat (sc_count s) \<Longrightarrow>
      \<exists>q. round_digits 6 (fadd (baseline env (sc_profile s) (int i)) (noise_draw env s i)) = Finite q"
proof -
  obtain s0 where s0: "sc_profile s0 = sc_profile s" "Scenario env s0 = Inr s"
    and ok: "sim_env_ok env" "TemperatureProfile (sc_profile s) = Inr (sc_profile s)" "profile_floats (sc_profile s)"
    using assms by (auto simp: constructed_def)
  show "sim_env_ok env" "scenario_ok s" using ok Scenario_InrD(1) [OF s0(2)] by simp_all
  have same: "sc_count s0 = sc_count s" "noise_draw env s0 i = noise_draw env s i"
    using Scenario_InrD(2) [OF s0(2)] by (auto simp: noise_draw_def)
      (metis scenario.select_convs scenario.surjective scenario.update_convs(7))+
  show "i < nat (sc_count s) \<Longrightarrow>
      \<exists>q. round_digits 6 (fadd (baseline env (sc_profile s) (int i)) (noise_draw env s i)) = Finite q"
    using generated_value_finite [OF ok s0(1) s0(2), of i] same by auto
qed

lemma timestamp_zulu:
  assumes "in_datetime_range t"
  shows "check_timestamp core_check (PStr (zulu t)) = Inr t"
    and "check_nullable_timestamp core_check (PStr (zulu t)) = Inr (Some t)"
proof -
  have "is_aware (DT t (Some 0))" by (simp add: is_aware_def)
  then show "check_timestamp core_check (PStr (zulu t)) = Inr t"
    using iso_parse_zulu [OF assms] assms
    by (simp add: check_timestamp_def normalize_utc_def astimezone_utc_def)
  then show "check_nullable_timestamp core_check (PStr (zulu t)) = Inr (Some t)"
    by (simp add: check_nullable_timestamp_def)
qed

text \<open>What a generated event becomes on the wire and in the decoder of the server.\<close>

definition decoded_event :: "sim_env \<Rightarrow> scenario \<Rightarrow> nat \<Rightarrow> event_dict" where
  "decoded_event env s i = [
     (''device_id'', PStr (sc_device_id s)),
     (''boot_id'', PStr (ev_boot_id (wire_event env s i))),
     (''sequence_number'', PInt (ev_sequence_number (wire_event env s i))),
     (''measured_at'', PStr (zulu (sample_time s i))),
     (''device_uptime_ms'', PInt (ev_device_uptime_ms (wire_event env s i))),
     (''gateway_received_at'', PStr (zulu (sample_time s i))),
     (''metric'', PStr ''temperature''),
     (''value'', PNum (Finite (ev_value (wire_event env s i)))),
     (''unit'', PStr ''celsius''),
     (''quality'', PDict [(''reading'', PStr ''valid''), (''clock'', PStr ''synchronised'')])]"

lemma event_travels:
  assumes "constructed env s" and "i < nat (sc_count s)"
  obtains tree where "dumps (se_repr env) (PDict (event_at env s i)) = Some tree"
    and "load_value tree = Some (PDict (decoded_event env s i))"
proof -
  obtain q where q: "round_digits 6 (fadd (baseline env (sc_profile s) (int i)) (noise_draw env s i)) = Finite q"
    using constructedD(3) [OF assms] by blast
  show ?thesis
    by (rule that) (simp add: event_at_def scenario_event_def q sequence_of_event,
      simp add: decoded_event_def wire_event_def q sequence_of_event unique_object_eq)
qed

lemma scenario_counter_bounds:
  assumes "scenario_ok s" and "i < nat (sc_count s)"
  shows "counter_ok (int (i mod k))" and "counter_ok (int (i mod k) * sc_interval_ms s)"
proof -
  have i: "i mod k \<le> i" "int i \<le> sc_count s - 1" using assms(2) by simp_all
  have ok: "1 \<le> sc_interval_ms s" "sc_count s \<le> MAX_EVENTS" "(sc_count s - 1) * sc_interval_ms s \<le> MAX_COUNTER"
    using assms(1) by (simp_all add: scenario_ok_def)
  show "counter_ok (int (i mod k))"
  proof -
    have "int (i mod k) \<le> 1000000" using i ok(2) unfolding MAX_EVENTS_def by linarith
    then show ?thesis by (simp add: counter_ok_def MAX_COUNTER_def)
  qed
  have "int (i mod k) * sc_interval_ms s \<le> (sc_count s - 1) * sc_interval_ms s"
    using i ok(1) by (intro mult_right_mono; linarith)
  then have "int (i mod k) * sc_interval_ms s \<le> MAX_COUNTER" using ok(3) by (rule order_trans)
  then show "counter_ok (int (i mod k) * sc_interval_ms s)" using ok(1) by (simp add: counter_ok_def)
qed

lemma decoded_event_valid:
  assumes "constructed env s" and "i < nat (sc_count s)"
  shows "validate_event core_check (PDict (decoded_event env s i)) = Inr (wire_event env s i)"
proof -
  note ok = constructedD(1,2) [OF assms(1)]
  have "identifier_ok (sc_device_id s)" using ok(2) by (simp add: scenario_ok_def)
  moreover have "identifier_ok (boot_id env s (int (i div boot_length s)))" by (rule boot_id_ok [OF ok])
  moreover note scenario_counter_bounds [OF ok(2) assms(2)] timestamp_zulu [OF sample_time_range [OF ok(2) assms(2)]]
  ultimately show ?thesis
    by (simp add: core.validate_event_Inr_iff required_Inr_iff core.identifier_field core.counter_field core.literal_field decoded_event_def wire_event_def
        core.temperature_of_number core.validate_quality_Inr_iff ClockQuality_def event_fields_def)
qed

lemma batch_travels:
  assumes "constructed env s" and "\<forall>i \<in> set is. i < nat (sc_count s)"
  shows "\<exists>trees. dumps_list (se_repr env) (map (\<lambda>i. PDict (event_at env s i)) is) = Some trees
    \<and> load_values trees = Some (map (\<lambda>i. PDict (decoded_event env s i)) is)"
  using assms(2)
proof (induction "is")
  case (Cons i "is")
  then obtain trees where trees: "dumps_list (se_repr env) (map (\<lambda>i. PDict (event_at env s i)) is) = Some trees"
      "load_values trees = Some (map (\<lambda>i. PDict (decoded_event env s i)) is)" by auto
  obtain t where t: "dumps (se_repr env) (PDict (event_at env s i)) = Some t"
      "load_value t = Some (PDict (decoded_event env s i))"
    using event_travels [OF assms(1), of i] Cons.prems by auto
  show ?case unfolding list.map dumps_list.simps t(1) trees(1)
    by (intro exI [of _ "t # trees"]) (simp add: t(2) trees(2))
qed simp

text \<open>A batch of 1 to 500 generated events parses, each item to the event the contract assigns.\<close>

lemma batch_parses:
  assumes "constructed env s" and "\<forall>i \<in> set is. i < nat (sc_count s)" and "is \<noteq> []" and "length is \<le> 500"
  obtains tree where "encode_batch env (map (event_at env s) is) = Some tree"
    and "parse_telemetry_batch Some core_check tree =
      Inr \<lparr>vb_schema_version = 1, vb_items = map (\<lambda>i. Valid_item (wire_event env s i)) is\<rparr>"
proof -
  obtain trees where trees: "dumps_list (se_repr env) (map (\<lambda>i. PDict (event_at env s i)) is) = Some trees"
      "load_values trees = Some (map (\<lambda>i. PDict (decoded_event env s i)) is)"
    using batch_travels [OF assms(1,2)] by blast
  let ?tree = "RObj [(''schema_version'', RInt 1), (''events'', RArr trees)]"
  let ?xs = "map (\<lambda>i. PDict (decoded_event env s i)) is"
  have enc: "encode_batch env (map (event_at env s) is) = Some ?tree"
    using trees(1) by (simp add: encode_batch_def batch_dict_def o_def)
  have load: "load_value ?tree = Some (PDict [(''schema_version'', PInt 1), (''events'', PList ?xs)])"
    using trees(2) by (simp add: unique_object_eq)
  have env: "validate_envelope core_check (PDict [(''schema_version'', PInt 1), (''events'', PList ?xs)]) = Inr (1, ?xs)"
    using assms(3,4) by (simp add: validate_envelope_def required_def require_integer_version_def check_events_def
        extra_errors_def MAX_BATCH_SIZE_def not_less Suc_le_eq)
  have items: "res_map (validate_telemetry_item core_check) ?xs = Inr (map (\<lambda>i. Valid_item (wire_event env s i)) is)"
    using assms(2) by (simp add: res_map_Inr_iff list_all2_conv_all_nth validate_telemetry_item_def
        decoded_event_valid [OF assms(1)])
  show ?thesis
    by (rule that [OF enc]) (simp only: parse_telemetry_batch_def option.case load env sum.case prod.case items)
qed

section \<open>Batches\<close>

lemma chunks_Nil [simp]: "chunks n [] = []"
  by (subst chunks.simps) simp

lemma chunks_step: "0 < n \<Longrightarrow> xs \<noteq> [] \<Longrightarrow> chunks n xs = take n xs # chunks n (drop n xs)"
  by (subst chunks.simps) simp

lemma chunks_induct [consumes 1, case_names Nil step]:
  assumes "0 < n" and "0 < n \<Longrightarrow> P []" and "\<And>xs. 0 < n \<Longrightarrow> xs \<noteq> [] \<Longrightarrow> P (drop n xs) \<Longrightarrow> P xs"
  shows "P xs"
  using assms(1) by (induction "length xs" arbitrary: xs rule: less_induct) (metis assms diff_less length_drop length_greater_0_conv)

lemma concat_chunks: "0 < n \<Longrightarrow> concat (chunks n xs) = xs"
  by (induction xs rule: chunks_induct) (simp_all add: chunks_step)

lemma chunks_size: "0 < n \<Longrightarrow> c \<in> set (chunks n xs) \<Longrightarrow> c \<noteq> [] \<and> length c \<le> n \<and> set c \<subseteq> set xs"
  by (induction xs rule: chunks_induct) (auto simp: chunks_step dest: in_set_takeD in_set_dropD)

lemma chunks_map: "0 < n \<Longrightarrow> chunks n (map f xs) = map (map f) (chunks n xs)"
  by (induction xs rule: chunks_induct) (simp_all add: chunks_step take_map drop_map)

lemma length_chunks: "0 < n \<Longrightarrow> length (chunks n xs) = (length xs + (n - 1)) div n"
proof (induction xs rule: chunks_induct)
  case (step xs)
  define k where "k = length xs - 1"
  have len: "length xs = Suc k" using step(2) by (simp add: k_def)
  have "length xs + (n - 1) = k + n" using step(1) by (simp add: len)
  moreover have "(k + n) div n = Suc (k div n)" using step(1) by (simp only: div_add_self2)
  moreover have "(length (drop n xs) + (n - 1)) div n = k div n"
  proof (cases "n \<le> k")
    case True
    then have "length (drop n xs) + (n - 1) = k" using step(1) by (simp add: len)
    then show ?thesis by (simp only:)
  next
    case False
    then have "length (drop n xs) + (n - 1) < n" "k < n" using step(1) by (simp_all add: len)
    then show ?thesis by (simp only: div_less)
  qed
  moreover have "length (chunks n xs) = Suc (length (chunks n (drop n xs)))"
    unfolding chunks_step [OF step(1,2)] by (simp only: list.size add_Suc_right add_0_right)
  ultimately show ?case using step(3) by (simp only:)
qed simp

lemma batches_Inr:
  assumes "batches env s n = Inr bs" and "scenario_ok s"
  shows "1 \<le> n" and "n \<le> 500" and "bs = map (map (event_at env s)) (chunks (nat n) [0..<nat (sc_count s)])"
  using assms by (auto simp: batches_def integer_Inr scenario_ok_def generate_events_eq chunks_map)

section \<open>Properties\<close>


lemma event_at_get:
  "dict_get (event_at env s i) ''boot_id'' = PStr (boot_id env s (int (i div boot_length s)))"
  "dict_get (event_at env s i) ''sequence_number'' = PInt (int (i mod boot_length s))"
  "dict_get (event_at env s i) ''device_uptime_ms'' = PInt (int (i mod boot_length s) * sc_interval_ms s)"
  by (simp_all add: event_at_def scenario_event_def dict_get_def sequence_of_event)

lemma boot_id_eq_iff:
  assumes "sim_env_ok env" and "boots_distinct env s" and "i < nat (sc_count s)" and "j < nat (sc_count s)"
  shows "boot_id env s (int (i div boot_length s)) = boot_id env s (int (j div boot_length s))
    \<longleftrightarrow> i div boot_length s = j div boot_length s"
proof -
  have "inj_on (\<lambda>k. boot_id env s (int k)) {..nat (sc_count s)}"
    using boot_id_inj [OF assms(1)] assms(2) by (simp add: boots_distinct_def)
  moreover have "i div boot_length s \<le> i" "j div boot_length s \<le> j" by simp_all
  then have "i div boot_length s \<in> {..nat (sc_count s)}" "j div boot_length s \<in> {..nat (sc_count s)}"
    using assms(3,4) by (simp_all only: atMost_iff)
  ultimately show ?thesis by (rule inj_on_eq_iff)
qed

lemma event_at_reboot:
  assumes "boot_length s \<noteq> 0" and "Suc i mod boot_length s = 0"
  shows "Suc i div boot_length s = Suc (i div boot_length s)"
    and "dict_get (event_at env s (Suc i)) ''sequence_number'' = PInt 0"
    and "dict_get (event_at env s (Suc i)) ''device_uptime_ms'' = PInt 0"
proof -
  show "Suc i div boot_length s = Suc (i div boot_length s)" using assms by (simp only: div_Suc if_True simp_thms)
qed (use assms(2) in \<open>simp_all add: event_at_get\<close>)

lemma event_at_continues:
  assumes "\<not> (boot_length s \<noteq> 0 \<and> Suc i mod boot_length s = 0)"
  shows "dict_get (event_at env s (Suc i)) ''boot_id'' = dict_get (event_at env s i) ''boot_id''"
    and "\<exists>n u. dict_get (event_at env s i) ''sequence_number'' = PInt n
      \<and> dict_get (event_at env s (Suc i)) ''sequence_number'' = PInt (n + 1)
      \<and> dict_get (event_at env s i) ''device_uptime_ms'' = PInt u
      \<and> dict_get (event_at env s (Suc i)) ''device_uptime_ms'' = PInt (u + sc_interval_ms s)"
proof -
  have "Suc i div boot_length s = i div boot_length s" "Suc i mod boot_length s = Suc (i mod boot_length s)"
    using assms by (auto simp only: div_Suc mod_Suc split: if_splits)
  then show "dict_get (event_at env s (Suc i)) ''boot_id'' = dict_get (event_at env s i) ''boot_id''"
    and "\<exists>n u. dict_get (event_at env s i) ''sequence_number'' = PInt n
      \<and> dict_get (event_at env s (Suc i)) ''sequence_number'' = PInt (n + 1)
      \<and> dict_get (event_at env s i) ''device_uptime_ms'' = PInt u
      \<and> dict_get (event_at env s (Suc i)) ''device_uptime_ms'' = PInt (u + sc_interval_ms s)"
    by (simp_all add: event_at_get distrib_right)
qed

lemma event_identities_distinct:
  assumes "sim_env_ok env" and "boots_distinct env s"
  shows "distinct (map (\<lambda>i. (dict_get (event_at env s i) ''boot_id'', dict_get (event_at env s i) ''sequence_number''))
    [0..<nat (sc_count s)])"
proof -
  have "i = j" if "i < nat (sc_count s)" "j < nat (sc_count s)"
    "boot_id env s (int (i div boot_length s)) = boot_id env s (int (j div boot_length s))"
    "i mod boot_length s = j mod boot_length s" for i j
    using that boot_id_eq_iff [OF assms that(1,2)] div_mult_mod_eq [of i "boot_length s"]
      div_mult_mod_eq [of j "boot_length s"] by metis
  then show ?thesis by (auto simp: distinct_map event_at_get intro!: inj_onI)
qed

text \<open>
  C24. A constructed scenario yields exactly \<open>count\<close> events with pairwise distinct identities. The first has
  sequence number and uptime 0 and the given boot identity; each next one continues its boot (same identity, sequence
  number one higher, uptime one interval longer), except after every \<open>reboot_every\<close> events, where the identity
  changes and both start again from 0.
\<close>

theorem generated_identities:
  assumes "constructed env s" and "boots_distinct env s"
  shows "length (generate_events env s) = nat (sc_count s)
    \<and> distinct (map (\<lambda>e. (dict_get e ''boot_id'', dict_get e ''sequence_number'')) (generate_events env s))
    \<and> dict_get (generate_events env s ! 0) ''sequence_number'' = PInt 0
    \<and> (\<forall>b. sc_boot_id s = Some b \<longrightarrow> dict_get (generate_events env s ! 0) ''boot_id'' = PStr b)
    \<and> (\<forall>i. Suc i < nat (sc_count s) \<longrightarrow>
         (let e = generate_events env s ! i; e' = generate_events env s ! Suc i
          in if sc_reboot_every s \<noteq> 0 \<and> int (Suc i) mod sc_reboot_every s = 0
             then dict_get e' ''boot_id'' \<noteq> dict_get e ''boot_id'' \<and> dict_get e' ''sequence_number'' = PInt 0
               \<and> dict_get e' ''device_uptime_ms'' = PInt 0
             else dict_get e' ''boot_id'' = dict_get e ''boot_id''
               \<and> (\<exists>n u. dict_get e ''sequence_number'' = PInt n \<and> dict_get e' ''sequence_number'' = PInt (n + 1)
                    \<and> dict_get e ''device_uptime_ms'' = PInt u
                    \<and> dict_get e' ''device_uptime_ms'' = PInt (u + sc_interval_ms s))))"
proof -
  note ok = constructedD(1,2) [OF assms(1)]
  have r: "0 \<le> sc_reboot_every s" "1 \<le> sc_count s" using ok(2) by (simp_all add: scenario_ok_def)
  note es = generate_events_eq [OF r(1), of env]
  have at_i: "generate_events env s ! i = event_at env s i" if "i < nat (sc_count s)" for i
    using that by (simp add: es)
  have step: "let e = generate_events env s ! i; e' = generate_events env s ! Suc i
      in if sc_reboot_every s \<noteq> 0 \<and> int (Suc i) mod sc_reboot_every s = 0
         then dict_get e' ''boot_id'' \<noteq> dict_get e ''boot_id'' \<and> dict_get e' ''sequence_number'' = PInt 0
           \<and> dict_get e' ''device_uptime_ms'' = PInt 0
         else dict_get e' ''boot_id'' = dict_get e ''boot_id''
           \<and> (\<exists>n u. dict_get e ''sequence_number'' = PInt n \<and> dict_get e' ''sequence_number'' = PInt (n + 1)
                \<and> dict_get e ''device_uptime_ms'' = PInt u
                \<and> dict_get e' ''device_uptime_ms'' = PInt (u + sc_interval_ms s))" if i: "Suc i < nat (sc_count s)" for i
  proof (cases "boot_length s \<noteq> 0 \<and> Suc i mod boot_length s = 0")
    case True
    then have "sc_reboot_every s \<noteq> 0 \<and> int (Suc i) mod sc_reboot_every s = 0"
      using iffD2 [OF reboot_condition [OF r(1), of i] True] by blast
    moreover have "dict_get (event_at env s (Suc i)) ''boot_id'' \<noteq> dict_get (event_at env s i) ''boot_id''"
      using boot_id_eq_iff [OF ok(1) assms(2), of "Suc i" i] i event_at_reboot(1) [of s i] True
      by (simp only: event_at_get pyval.inject Suc_lessD n_not_Suc_n not_False_eq_True)
    ultimately show ?thesis
      using event_at_reboot(2,3) [of s i env] True i by (simp only: at_i Suc_lessD Let_def if_True simp_thms)
  next
    case False
    then have "\<not> (sc_reboot_every s \<noteq> 0 \<and> int (Suc i) mod sc_reboot_every s = 0)"
      using reboot_condition [OF r(1), of i] nat.distinct(2) [of i] by metis
    then show ?thesis
      using event_at_continues [OF False, of env] i by (simp only: at_i Suc_lessD Let_def if_False simp_thms)
  qed
  have "distinct (map (\<lambda>e. (dict_get e ''boot_id'', dict_get e ''sequence_number'')) (generate_events env s))"
    unfolding es map_map o_def by (rule event_identities_distinct [OF ok(1) assms(2)])
  moreover have "dict_get (generate_events env s ! 0) ''sequence_number'' = PInt 0"
    and boot0: "sc_boot_id s = Some b \<Longrightarrow> dict_get (generate_events env s ! 0) ''boot_id'' = PStr b" for b
    using r(2) by (simp_all add: at_i event_at_get boot_id_def)
  moreover have "length (generate_events env s) = nat (sc_count s)" by (simp add: es)
  ultimately show ?thesis by (intro conjI allI impI) (assumption | erule boot0 | erule step)+
qed

text \<open>A run of three readings with one reboot, in an environment as documented.\<close>

definition demo_uuid :: "pyval \<Rightarrow> string" where
  "demo_uuid v = (case v of PList [_, _, _, _, PInt n] \<Rightarrow> pad 36 (nat n) | _ \<Rightarrow> pad 36 0)"

definition demo_sim :: sim_env where
  "demo_sim = \<lparr>se_sin = (\<lambda>x. 0), se_random = (\<lambda>seed n. 1 / 2), se_uuid5 = demo_uuid, se_repr = (\<lambda>q. q)\<rparr>"

definition demo_profile :: temperature_profile where
  "demo_profile = \<lparr>pr_kind = ''constant'', pr_temperature = Finite 25, pr_step = Finite 0, pr_amplitude = Finite 5,
     pr_period = 60, pr_noise = Finite 0\<rparr>"

definition demo_scenario :: scenario where
  "demo_scenario = \<lparr>sc_device_id = ''d1'', sc_run_id = ''run-1'', sc_boot_id = Some ''boot-a'', sc_seed = 0, sc_count = 3,
     sc_interval_ms = 1000, sc_start_time = DT 63902908800000000 (Some 0), sc_reboot_every = 2,
     sc_profile = demo_profile\<rparr>"

lemma digit_uuid_char:
  assumes "is_digit_c c"
  shows "uuid_char c"
proof -
  have "48 \<le> (of_char c :: nat)" "(of_char c :: nat) \<le> 57"
    using assms by (simp_all add: is_digit_c_def less_eq_char_def)
  then have "(of_char c :: nat) \<in> set [48..<58]" unfolding set_upt atLeastLessThan_iff by linarith
  then have "char_of (of_char c :: nat) \<in> (char_of :: nat \<Rightarrow> char) ` set [48..<58]"
    by (rule imageI)
  then have "c \<in> (char_of :: nat \<Rightarrow> char) ` set [48..<58]" by simp
  moreover have "(char_of :: nat \<Rightarrow> char) ` set [48..<58] \<subseteq> set ''0123456789abcdef-''"
    by code_simp
  ultimately show ?thesis unfolding uuid_char_def by blast
qed

lemma pad_uuid: "length (pad 36 n) = 36" "list_all uuid_char (pad 36 n)"
  using pad_digits [of _ 36 n] digit_uuid_char by (auto simp: list_all_iff simp del: pad.simps)

lemma demo_sim_ok: "sim_env_ok demo_sim"
  unfolding sim_env_ok_def demo_sim_def demo_uuid_def
  by (auto simp: pad_uuid split: pyval.splits list.splits simp del: pad.simps)

lemma demo_floats: "round64 25 = Finite 25" "round64 5 = Finite 5"
  using is_float_int [of 25] is_float_int [of 5] by simp_all

lemma demo_profile_ok: "TemperatureProfile demo_profile = Inr demo_profile" "profile_floats demo_profile"
  by (simp_all add: TemperatureProfile_def demo_profile_def finite_field_def isfinite_def integer_def MAX_EVENTS_def
      profile_floats_def is_float_def demo_floats)

lemma demo_scenario_ok: "Scenario demo_sim demo_scenario = Inr demo_scenario"
  by (simp add: Scenario_def demo_scenario_def demo_profile_def identifier_check_def integer_def MAX_EVENTS_def
      MAX_COUNTER_sim_def is_aware_def scenario_start_def astimezone_utc_def in_datetime_range_def datetime_end_def
      days_def profile_bounds_def baseline_def with_noise_def fadd_def fmul_def isfinite_def demo_floats)

lemma demo_constructed: "constructed demo_sim demo_scenario"
  using demo_sim_ok demo_profile_ok demo_scenario_ok
  by (auto simp: constructed_def demo_scenario_def intro!: exI [of _ demo_scenario])

lemma demo_boots: "boots_distinct demo_sim demo_scenario"
  by (auto simp: boots_distinct_def demo_sim_def demo_uuid_def boot_name_def demo_scenario_def inj_on_def
      dest!: arg_cong [of _ _ "nat_of_digits 0"] simp del: pad.simps)

theorem generated_identities_witness:
  "length (generate_events demo_sim demo_scenario) = 3
   \<and> dict_get (generate_events demo_sim demo_scenario ! 0) ''boot_id'' = PStr ''boot-a''
   \<and> dict_get (generate_events demo_sim demo_scenario ! 2) ''boot_id''
       \<noteq> dict_get (generate_events demo_sim demo_scenario ! 1) ''boot_id''"
proof -
  note g = generated_identities [OF demo_constructed demo_boots]
  have demo: "nat (sc_count demo_scenario) = 3" "sc_reboot_every demo_scenario = 2" "sc_boot_id demo_scenario = Some ''boot-a''"
    by (simp_all add: demo_scenario_def)
  have "Suc 1 < nat (sc_count demo_scenario)" "sc_reboot_every demo_scenario \<noteq> 0 \<and> int (Suc 1) mod sc_reboot_every demo_scenario = 0"
    by (simp_all add: demo)
  then have "dict_get (generate_events demo_sim demo_scenario ! Suc 1) ''boot_id''
      \<noteq> dict_get (generate_events demo_sim demo_scenario ! 1) ''boot_id''"
    using g [THEN conjunct2, THEN conjunct2, THEN conjunct2, THEN conjunct2, THEN spec [of _ 1]]
    by (simp only: Let_def if_True simp_thms)
  moreover have "Suc 1 = 2" by simp
  ultimately show ?thesis using g demo by (simp only: simp_thms)
qed

text \<open>
  C25. The batches of a constructed scenario, for any size from 1 to 500, are the generated events in order,
  \<open>ceil (count / size)\<close> nonempty batches of at most that size. Every value is finite, so every batch encodes, and the
  server parses it into exactly the valid events the contract assigns to the samples, none rejected; the
  measurement of sample i is taken \<open>i * interval_ms\<close> after the start.
\<close>

theorem generated_batches_accepted:
  assumes "constructed env s" and "batches env s n = Inr bs"
  shows "concat bs = generate_events env s \<and> length bs = (nat (sc_count s) + (nat n - 1)) div nat n
    \<and> (\<forall>b \<in> set bs. 1 \<le> length b \<and> length b \<le> nat n)
    \<and> (\<exists>trees. list_all2 (\<lambda>b tree. encode_batch env b = Some tree) bs trees
         \<and> (\<exists>vbs. list_all2 (\<lambda>tree vb. parse_telemetry_batch Some core_check tree = Inr vb) trees vbs
              \<and> concat (map vb_items vbs) = map (\<lambda>i. Valid_item (wire_event env s i)) [0..<nat (sc_count s)]))
    \<and> (\<forall>i. ev_measured_at (wire_event env s i)
           = Some (wall (sc_start_time s) + int i * sc_interval_ms s * 1000))"
proof -
  note ok = constructedD(2) [OF assms(1)]
  note bs = batches_Inr [OF assms(2) ok]
  have n: "0 < nat n" "nat n \<le> 500" using bs(1,2) by simp_all
  let ?ids = "[0..<nat (sc_count s)]"
  have es: "generate_events env s = map (event_at env s) ?ids"
    using ok by (simp add: scenario_ok_def generate_events_eq)
  have idx: "c \<noteq> [] \<and> length c \<le> nat n \<and> (\<forall>i \<in> set c. i < nat (sc_count s))" if "c \<in> set (chunks (nat n) ?ids)" for c
    using chunks_size [OF n(1) that] by auto
  let ?sent = "\<lambda>c t. encode_batch env (map (event_at env s) c) = Some t
      \<and> parse_telemetry_batch Some core_check t =
          Inr \<lparr>vb_schema_version = 1, vb_items = map (\<lambda>i. Valid_item (wire_event env s i)) c\<rparr>"
  have "\<exists>t. ?sent c t" if c: "c \<in> set (chunks (nat n) ?ids)" for c
  proof -
    have "\<forall>i \<in> set c. i < nat (sc_count s)" "c \<noteq> []" "length c \<le> 500"
      using idx [OF c] n(2) by simp_all
    then show ?thesis by (rule batch_parses [OF assms(1)]) blast
  qed
  then have "\<forall>c \<in> set (chunks (nat n) ?ids). \<exists>t. ?sent c t" by blast
  then obtain tree where sent: "\<forall>c \<in> set (chunks (nat n) ?ids). ?sent c (tree c)"
    by (rule bchoice [THEN exE])
  define vb where "vb c = \<lparr>vb_schema_version = 1, vb_items = map (\<lambda>i. Valid_item (wire_event env s i)) c\<rparr>" for c
  have "list_all2 (\<lambda>b tree. encode_batch env b = Some tree) bs (map tree (chunks (nat n) ?ids))"
    unfolding bs(3) list_all2_map1 list_all2_map2 using sent by (intro list.rel_refl_strong) blast
  moreover have "list_all2 (\<lambda>tree vb. parse_telemetry_batch Some core_check tree = Inr vb)
      (map tree (chunks (nat n) ?ids)) (map vb (chunks (nat n) ?ids))"
    unfolding vb_def list_all2_map1 list_all2_map2 using sent by (intro list.rel_refl_strong) blast
  moreover have "concat (map vb_items (map vb (chunks (nat n) ?ids))) =
      map (\<lambda>i. Valid_item (wire_event env s i)) (concat (chunks (nat n) ?ids))"
    by (simp add: vb_def map_concat o_def)
  moreover have "concat bs = generate_events env s" "concat (chunks (nat n) ?ids) = ?ids"
    by (simp_all add: bs(3) es concat_chunks [OF n(1)] map_concat [symmetric])
  moreover have "length bs = (nat (sc_count s) + (nat n - 1)) div nat n"
    using length_chunks [OF n(1), of ?ids] by (simp add: bs(3))
  moreover have "\<forall>b \<in> set bs. 1 \<le> length b \<and> length b \<le> nat n"
    using idx by (auto simp: bs(3) Suc_le_eq)
  moreover have "\<forall>i. ev_measured_at (wire_event env s i) = Some (wall (sc_start_time s) + int i * sc_interval_ms s * 1000)"
    by (simp add: wire_event_def sample_time_def)
  ultimately show ?thesis
    by (intro conjI exI [of _ "map tree (chunks (nat n) ?ids)"] exI [of _ "map vb (chunks (nat n) ?ids)"])
      (assumption | simp only:)+
qed

theorem generated_batches_accepted_witness:
  "\<exists>bs. batches demo_sim demo_scenario 2 = Inr bs \<and> length bs = 2
     \<and> concat bs = generate_events demo_sim demo_scenario"
proof -
  obtain bs where bs: "batches demo_sim demo_scenario 2 = Inr bs" by (auto simp: batches_def integer_def)
  from generated_batches_accepted [OF demo_constructed bs] bs show ?thesis by (auto simp: demo_scenario_def)
qed

end
