(* ===== verification/Send_Batch.thy ===== *)
theory Send_Batch
  imports Simulator_Events Ingestion
begin

text \<open>
  \<open>simulator/send_batch.py\<close>: the client of the ingestion endpoint. It sends a batch once and reports an item
  confirmed only on a complete, ordered response. Every exception \<open>classify_response\<close> raises is a ValueError, here
  its message. URL parsing and the HTTP exchange are outside: \<open>split\<close> is \<open>urlsplit\<close>, \<open>post\<close> one exchange up to the
  decoded JSON body of the reply.
\<close>

section \<open>Comparing values\<close>

fun py_numeric :: "pyval \<Rightarrow> rat option" where
  "py_numeric (PBool b) = Some (of_bool b)"
| "py_numeric (PInt n) = Some (of_int n)"
| "py_numeric (PNum (Finite q)) = Some q"
| "py_numeric _ = None"

text \<open>
  \<open>==\<close> on decoded JSON: numbers and booleans by value, lists elementwise, objects by member. A number that is not
  finite is taken as NaN, which equals nothing.
\<close>

lemma size_zip_element: "(u, v) \<in> set (zip xs ys) \<Longrightarrow> size u < Suc (size_list size xs)"
  by (auto dest!: set_zip_leftD size_list_estimation' [of _ _ "size u" size] simp: less_Suc_eq_le)

lemma size_member: "(k, v) \<in> set d \<Longrightarrow> size v < Suc (size_list (size_prod f size) d)"
  by (rule le_imp_less_Suc, rule size_list_estimation') auto

function py_eq :: "pyval \<Rightarrow> pyval \<Rightarrow> bool" where
  "py_eq a b =
     (case (a, b) of
        (PList xs, PList ys) \<Rightarrow> length xs = length ys \<and> (\<forall>p \<in> set (zip xs ys). py_eq (fst p) (snd p))
      | (PDict d, PDict e) \<Rightarrow> length d = length e
          \<and> (\<forall>p \<in> set d. case map_of e (fst p) of None \<Rightarrow> False | Some w \<Rightarrow> py_eq (snd p) w)
      | (PNum NonFinite, _) \<Rightarrow> False
      | _ \<Rightarrow> (case (py_numeric a, py_numeric b) of (Some p, Some q) \<Rightarrow> p = q | _ \<Rightarrow> a = b))"
  by pat_completeness auto
termination
  by (relation "measure (\<lambda>(a, b). size a)") (auto intro: size_zip_element size_member)

declare py_eq.simps [simp del]

fun same_type :: "pyval \<Rightarrow> pyval \<Rightarrow> bool" where
  "same_type PNone PNone = True"
| "same_type (PBool _) (PBool _) = True"
| "same_type (PInt _) (PInt _) = True"
| "same_type (PNum _) (PNum _) = True"
| "same_type (PStr _) (PStr _) = True"
| "same_type (PTime _) (PTime _) = True"
| "same_type (PList _) (PList _) = True"
| "same_type (PDict _) (PDict _) = True"
| "same_type _ _ = False"

section \<open>Classifying a response\<close>

definition same_field :: "event_dict \<Rightarrow> event_dict \<Rightarrow> string \<Rightarrow> bool" where
  "same_field source r field =
     (case map_of r field of
        None \<Rightarrow> False
      | Some v \<Rightarrow> py_eq v (dict_get source field) \<and> same_type v (dict_get source field))"

definition classify_item :: "event_dict \<Rightarrow> pyval \<Rightarrow> (string, string) result" where
  "classify_item source item =
     (case item of
        PDict r \<Rightarrow>
          if \<not> list_all (same_field source r) [''device_id'', ''boot_id'', ''sequence_number'']
          then Inl ''Response identity/order mismatch''
          else (case dict_get r ''outcome'' of
                  PStr out \<Rightarrow>
                    if out \<notin> {''accepted'', ''duplicate'', ''rejected''} then Inl ''Unknown item outcome''
                    else if out = ''rejected''
                    then (case dict_get r ''reason'' of
                            PStr reason \<Rightarrow> if reason = '''' then Inl ''Rejection missing a reason''
                                            else Inr (out @ '':'' @ reason)
                          | _ \<Rightarrow> Inl ''Rejection missing a reason'')
                    else if dict_get r ''reason'' \<noteq> PNone then Inl ''Contradictory item response'' else Inr out
                | _ \<Rightarrow> Inl ''Unknown item outcome'')
      | _ \<Rightarrow> Inl ''Malformed item response'')"

definition classify_response :: "event_dict list \<Rightarrow> pyval \<Rightarrow> (string, string list) result" where
  "classify_response events response =
     (case response of
        PDict d \<Rightarrow>
          (case (dict_get d ''batch_id'', dict_get d ''results'') of
             (PStr batch_id, PList results) \<Rightarrow>
               if batch_id = '''' \<or> length results \<noteq> length events then Inl ''Incomplete batch response''
               else res_map (\<lambda>p. classify_item (fst p) (snd p)) (zip events results)
           | _ \<Rightarrow> Inl ''Incomplete batch response'')
      | _ \<Rightarrow> Inl ''Malformed batch response'')"

section \<open>Sending\<close>

record url_parts =
  up_scheme :: string
  up_hostname :: "string option"
  up_username :: "string option"
  up_password :: "string option"
  up_query :: string
  up_fragment :: string
  up_port_ok :: bool

text \<open>\<open>urlsplit\<close> raises ValueError itself on some texts: \<open>None\<close>.\<close>

definition validate_target :: "(string \<Rightarrow> url_parts option) \<Rightarrow> string \<Rightarrow> string \<Rightarrow> (string, unit) result" where
  "validate_target split base_url token =
     (case split base_url of
        None \<Rightarrow> Inl ''Invalid URL''
      | Some u \<Rightarrow>
          if up_scheme u \<notin> {''http'', ''https''} \<or> up_hostname u \<in> {None, Some ''''}
             \<or> up_username u \<noteq> None \<or> up_password u \<noteq> None \<or> up_query u \<noteq> '''' \<or> up_fragment u \<noteq> ''''
          then Inl ''API_BASE_URL must be an HTTP(S) URL without credentials/query''
          else if \<not> up_port_ok u then Inl ''API_BASE_URL must have a valid port''
          else if token = '''' \<or> py_startswith token ''replace-with-''
          then Inl ''Set GATEWAY_API_KEY to a provisioned test credential''
          else Inr ())"

definition rstrip_slash :: "string \<Rightarrow> string" where
  "rstrip_slash s = rev (dropWhile (\<lambda>c. c = CHR ''/'') (rev s))"

text \<open>\<open>post url token body\<close>: the decoded reply, or \<open>Inl\<close> an error of transport, status or JSON.\<close>

definition post_batch :: "(string \<Rightarrow> string \<Rightarrow> 'body \<Rightarrow> (string, pyval) result) \<Rightarrow> string \<Rightarrow> string \<Rightarrow> 'body
    \<Rightarrow> event_dict list \<Rightarrow> (string, pyval \<times> string list) result" where
  "post_batch post base_url token body events =
     res_bind (post (rstrip_slash base_url @ ''/v1/telemetry/batches'') token body) (\<lambda>response.
       res_bind (classify_response events response) (\<lambda>outcomes. Inr (response, outcomes)))"

text \<open>The summary that is printed, and the exit status; \<open>parser.error\<close> exits with 2 before anything is sent.\<close>

record send_report =
  sb_exit :: nat
  sb_sent :: bool
  sb_outcomes :: "string list"
  sb_counts :: "string \<Rightarrow> nat"
  sb_unconfirmed :: nat

definition usage_error :: send_report where
  "usage_error = \<lparr>sb_exit = 2, sb_sent = False, sb_outcomes = [], sb_counts = (\<lambda>_. 0), sb_unconfirmed = 0\<rparr>"

fun is_object :: "pyval \<Rightarrow> bool" where
  "is_object (PDict d) = True"
| "is_object _ = False"

text \<open>The events of a fixture; \<open>None\<close> for every exception and failed test of the second try block.\<close>

definition fixture_events :: "pyval option \<Rightarrow> event_dict list option" where
  "fixture_events payload =
     (case payload of
        Some (PDict d) \<Rightarrow>
          (case map_of d ''events'' of
             Some (PList events) \<Rightarrow>
               if 1 \<le> length events \<and> length events \<le> 500 \<and> list_all is_object events
               then Some (map dict_or_empty events) else None
           | _ \<Rightarrow> None)
      | _ \<Rightarrow> None)"

definition send_batch_main :: "(string \<Rightarrow> url_parts option) \<Rightarrow> (string \<Rightarrow> string \<Rightarrow> 'body \<Rightarrow> (string, pyval) result)
    \<Rightarrow> string \<Rightarrow> string \<Rightarrow> 'body \<Rightarrow> pyval option \<Rightarrow> string option \<Rightarrow> send_report" where
  "send_batch_main split post base_url token body payload expect =
     (case validate_target split base_url token of
        Inl _ \<Rightarrow> usage_error
      | Inr _ \<Rightarrow>
          (case fixture_events payload of
             None \<Rightarrow> usage_error
           | Some events \<Rightarrow>
               (case post_batch post base_url token body events of
                  Inl _ \<Rightarrow> \<lparr>sb_exit = 1, sb_sent = True, sb_outcomes = [], sb_counts = (\<lambda>_. 0),
                            sb_unconfirmed = length events\<rparr>
                | Inr (response, outcomes) \<Rightarrow>
                    (let counts = (\<lambda>c. length (filter (\<lambda>out. py_partition_fst (CHR '':'') out = c) outcomes));
                         success = (case expect of
                           Some text \<Rightarrow> outcomes = py_split_on (CHR '','') text
                         | None \<Rightarrow> counts ''rejected'' = 0)
                     in \<lparr>sb_exit = (if success then 0 else 1), sb_sent = True, sb_outcomes = outcomes,
                         sb_counts = counts, sb_unconfirmed = 0\<rparr>))))"

section \<open>What a classified response says\<close>

lemma py_eq_simps [simp]:
  "py_eq (PStr a) (PStr b) \<longleftrightarrow> a = b" "py_eq (PInt m) (PInt n) \<longleftrightarrow> m = n" "py_eq PNone PNone"
  "py_eq PNone (PStr b) \<longleftrightarrow> False" "py_eq PNone (PInt n) \<longleftrightarrow> False"
  by (subst py_eq.simps; simp)+

text \<open>One result confirms an event under an outcome: the identity is the event's, the outcome fits its reason.\<close>

definition confirms :: "event_dict \<Rightarrow> pyval \<Rightarrow> string \<Rightarrow> bool" where
  "confirms source item out \<longleftrightarrow>
     (\<exists>r. item = PDict r \<and> list_all (same_field source r) [''device_id'', ''boot_id'', ''sequence_number'']
        \<and> (out \<in> {''accepted'', ''duplicate''} \<and> dict_get r ''outcome'' = PStr out \<and> dict_get r ''reason'' = PNone
           \<or> (\<exists>reason. reason \<noteq> '''' \<and> out = ''rejected:'' @ reason \<and> dict_get r ''outcome'' = PStr ''rejected''
                \<and> dict_get r ''reason'' = PStr reason)))"

lemma classify_item_iff: "classify_item source item = Inr out \<longleftrightarrow> confirms source item out"
proof (cases item)
  case (PDict r)
  show ?thesis
  proof (cases "list_all (same_field source r) [''device_id'', ''boot_id'', ''sequence_number'']")
    case True
    then show ?thesis
      by (cases "dict_get r ''outcome''"; cases "dict_get r ''reason''") (auto simp: classify_item_def confirms_def PDict)
  next
    case False
    then show ?thesis unfolding classify_item_def confirms_def PDict by auto
  qed
qed (simp_all add: classify_item_def confirms_def)

lemma res_map_zip_iff:
  "length xs = length ys \<Longrightarrow>
   res_map (\<lambda>p. f (fst p) (snd p)) (zip xs ys) = Inr zs \<longleftrightarrow>
     length zs = length xs \<and> (\<forall>i < length xs. f (xs ! i) (ys ! i) = Inr (zs ! i))"
  by (auto simp: res_map_Inr_iff list_all2_conv_all_nth)

lemma classify_response_iff:
  "classify_response events response = Inr outs \<longleftrightarrow>
     (\<exists>d batch_id results. response = PDict d \<and> dict_get d ''batch_id'' = PStr batch_id \<and> batch_id \<noteq> ''''
        \<and> dict_get d ''results'' = PList results \<and> length results = length events \<and> length outs = length events
        \<and> (\<forall>i < length events. confirms (events ! i) (results ! i) (outs ! i)))"
proof (cases response)
  case (PDict d)
  then show ?thesis
    by (cases "dict_get d ''batch_id''"; cases "dict_get d ''results''")
       (auto simp: classify_response_def res_map_zip_iff classify_item_iff)
qed (simp_all add: classify_response_def)

text \<open>The category of an outcome, as the summary counts it.\<close>

lemma confirms_category:
  "confirms source item out \<Longrightarrow> py_partition_fst (CHR '':'') out \<in> {''accepted'', ''duplicate'', ''rejected''}"
  "confirms source item out \<Longrightarrow> py_partition_fst (CHR '':'') out \<noteq> ''rejected'' \<Longrightarrow> out \<in> {''accepted'', ''duplicate''}"
  by (auto simp: confirms_def py_partition_fst_def)

lemma count_categories:
  assumes "\<forall>x \<in> set xs. f x \<in> {a, b, c}" and "distinct [a, b, c]"
  shows "length (filter (\<lambda>x. f x = a) xs) + length (filter (\<lambda>x. f x = b) xs) + length (filter (\<lambda>x. f x = c) xs) = length xs"
  using assms by (induction xs) auto

section \<open>The server's responses\<close>

fun outcome_name :: "outcome \<Rightarrow> string" where
  "outcome_name Accepted = ''accepted''"
| "outcome_name Duplicate = ''duplicate''"
| "outcome_name Rejected = ''rejected''"

fun item_reason_name :: "item_reason \<Rightarrow> string" where
  "item_reason_name Unknown_device = ''unknown_device''"
| "item_reason_name Wrong_gateway = ''wrong_gateway''"
| "item_reason_name Invalid_metric = ''invalid_metric''"
| "item_reason_name Invalid_unit = ''invalid_unit''"
| "item_reason_name Value_out_of_range = ''value_out_of_range''"
| "item_reason_name Malformed_value = ''malformed_value''"
| "item_reason_name Identity_conflict = ''identity_conflict''"

definition nullable_str :: "string option \<Rightarrow> pyval" where
  "nullable_str v = (case v of None \<Rightarrow> PNone | Some t \<Rightarrow> PStr t)"

definition nullable_int :: "int option \<Rightarrow> pyval" where
  "nullable_int v = (case v of None \<Rightarrow> PNone | Some n \<Rightarrow> PInt n)"

text \<open>The JSON of a response, with \<open>response_model_exclude_unset\<close>: a reason is there only when it was given.\<close>

definition item_json :: "response_item \<Rightarrow> event_dict" where
  "item_json r = [(''device_id'', nullable_str (ri_device_id r)), (''boot_id'', nullable_str (ri_boot_id r)),
     (''sequence_number'', nullable_int (ri_sequence_number r)), (''outcome'', PStr (outcome_name (ri_outcome r)))]
     @ (case ri_reason r of None \<Rightarrow> [] | Some reason \<Rightarrow> [(''reason'', PStr (item_reason_name reason))])"

definition response_json :: "batch_response \<Rightarrow> pyval" where
  "response_json br = PDict [(''batch_id'', PStr (br_batch_id br)),
     (''results'', PList (map (\<lambda>r. PDict (item_json r)) (br_results br)))]"

definition outcome_text :: "response_item \<Rightarrow> string" where
  "outcome_text r = outcome_name (ri_outcome r)
     @ (case ri_reason r of None \<Rightarrow> '''' | Some reason \<Rightarrow> '':'' @ item_reason_name reason)"

text \<open>The identity of the result is the one the source states, field by field.\<close>

definition same_identity :: "event_dict \<Rightarrow> response_item \<Rightarrow> bool" where
  "same_identity source r \<longleftrightarrow> dict_get source ''device_id'' = nullable_str (ri_device_id r)
     \<and> dict_get source ''boot_id'' = nullable_str (ri_boot_id r)
     \<and> dict_get source ''sequence_number'' = nullable_int (ri_sequence_number r)"

lemma nullable_eq [simp]:
  "py_eq (nullable_str v) (nullable_str v)" "same_type (nullable_str v) (nullable_str v)"
  "py_eq (nullable_int m) (nullable_int m)" "same_type (nullable_int m) (nullable_int m)"
  by (simp_all add: nullable_str_def nullable_int_def split: option.splits)

lemma item_reason_name_not_Nil [simp]: "item_reason_name reason \<noteq> ''''"
  by (cases reason) simp_all

lemma server_item_confirms:
  assumes "same_identity source r" and "response_item_ok r"
  shows "confirms source (PDict (item_json r)) (outcome_text r)"
proof -
  have "list_all (same_field source (item_json r)) [''device_id'', ''boot_id'', ''sequence_number'']"
    using assms(1) by (simp add: same_field_def item_json_def same_identity_def)
  moreover have "dict_get (item_json r) ''outcome'' = PStr (outcome_name (ri_outcome r))"
    "dict_get (item_json r) ''reason'' =
       (case ri_reason r of None \<Rightarrow> PNone | Some reason \<Rightarrow> PStr (item_reason_name reason))"
    by (simp_all add: item_json_def dict_get_def split: option.splits)
  ultimately show ?thesis
    using assms(2) unfolding confirms_def response_item_ok_iff outcome_text_def
    by (cases "ri_outcome r") (auto split: if_splits option.splits)
qed

lemma server_response_classified:
  assumes "list_all2 same_identity events (br_results br)" and "list_all response_item_ok (br_results br)"
    and "identifier_ok (br_batch_id br)"
  shows "classify_response events (response_json br) = Inr (map outcome_text (br_results br))"
proof -
  have "length (br_results br) = length events" using assms(1) by (simp add: list_all2_lengthD)
  moreover have "br_batch_id br \<noteq> ''''" using assms(3) by (auto simp: identifier_ok_def)
  moreover have "confirms (events ! i) (PDict (item_json (br_results br ! i))) (outcome_text (br_results br ! i))"
    if "i < length events" for i
    using that assms(1,2) \<open>length (br_results br) = length events\<close>
    by (intro server_item_confirms) (auto simp: list_all2_conv_all_nth list_all_length)
  ultimately show ?thesis
    by (simp add: classify_response_iff response_json_def dict_get_def)
qed

section \<open>Properties\<close>


definition demo_url :: "string \<Rightarrow> url_parts option" where
  "demo_url u = Some \<lparr>up_scheme = ''http'', up_hostname = Some ''127.0.0.1'', up_username = None, up_password = None,
     up_query = '''', up_fragment = '''', up_port_ok = True\<rparr>"

definition demo_fixture :: pyval where
  "demo_fixture = PDict [(''schema_version'', PInt 1), (''events'', PList [PDict [(''device_id'', PStr ''d1''),
     (''boot_id'', PStr ''b''), (''sequence_number'', PInt 0)]])]"

definition demo_reply :: "string \<Rightarrow> string \<Rightarrow> unit \<Rightarrow> (string, pyval) result" where
  "demo_reply url token body = Inr (response_json \<lparr>br_batch_id = ''x'', br_results = [\<lparr>ri_device_id = Some ''d1'',
     ri_boot_id = Some ''b'', ri_sequence_number = Some 0, ri_outcome = Accepted, ri_reason = None\<rparr>]\<rparr>)"


text \<open>
  A result with a null identity field under an event that states the field, as the server sends it for an event
  whose identity it cannot read, makes the client refuse the whole response, also the results of the other events.
\<close>

theorem null_identity_refused:
  assumes "i < length events" and "ri_device_id (br_results br ! i) = None"
    and "dict_get (events ! i) ''device_id'' \<noteq> PNone"
  shows "\<not> is_ok (classify_response events (response_json br))"
proof
  assume "is_ok (classify_response events (response_json br))"
  then obtain outs where "classify_response events (response_json br) = Inr outs" by (auto simp: is_ok_iff)
  then have "length (br_results br) = length events"
    and "\<forall>i < length events. confirms (events ! i) (map (\<lambda>r. PDict (item_json r)) (br_results br) ! i) (outs ! i)"
    by (auto simp: classify_response_iff response_json_def dict_get_def)
  then have "confirms (events ! i) (PDict (item_json (br_results br ! i))) (outs ! i)" using assms(1) by simp
  then have "same_field (events ! i) (item_json (br_results br ! i)) ''device_id''" by (auto simp: confirms_def)
  then have "same_type PNone (dict_get (events ! i) ''device_id'')"
    using assms(2) by (simp add: same_field_def item_json_def nullable_str_def)
  with assms(3) show False by (cases "dict_get (events ! i) ''device_id''") simp_all
qed

text \<open>Two events, the second with an empty device id: the server stores the first and nulls the second's identity.\<close>

theorem null_identity_refused_witness:
  "\<exists>r. validate_telemetry_item core_check (PDict [(''device_id'', PStr '''')]) = Inr (Rejected_item r)
     \<and> \<not> is_ok (classify_response [[(''device_id'', PStr ''d1'')], [(''device_id'', PStr '''')]]
          (response_json \<lparr>br_batch_id = ''x'', br_results = [\<lparr>ri_device_id = Some ''d1'', ri_boot_id = None,
             ri_sequence_number = None, ri_outcome = Accepted, ri_reason = None\<rparr>, r]\<rparr>))"
proof -
  let ?r = "\<lparr>ri_device_id = None, ri_boot_id = None, ri_sequence_number = None, ri_outcome = Rejected,
    ri_reason = Some Malformed_value\<rparr>"
  have "validate_telemetry_item core_check (PDict [(''device_id'', PStr '''')]) = Inr (Rejected_item ?r)" by code_simp
  moreover have "\<not> is_ok (classify_response [[(''device_id'', PStr ''d1'')], [(''device_id'', PStr '''')]]
          (response_json \<lparr>br_batch_id = ''x'', br_results = [\<lparr>ri_device_id = Some ''d1'', ri_boot_id = None,
             ri_sequence_number = None, ri_outcome = Accepted, ri_reason = None\<rparr>, ?r]\<rparr>))"
    by (rule null_identity_refused [where i = 1]) (simp_all add: dict_get_def)
  ultimately show ?thesis by blast
qed

end
