(* ===== verification/Mqtt_Transport.thy ===== *)
theory Mqtt_Transport
  imports Simulator_Events
begin

text \<open>
  \<open>simulator/mqtt_transport.py\<close>: the message of one reading, the checks of the MQTT target, and the publisher with
  its single connection attempt. The MQTT client library is outside: \<open>mqtt_client\<close> holds what its calls return and
  how they change the world; every exception it may raise is an OSError, ValueError, RuntimeError or TypeError, all
  \<open>Failed\<close>, or a keyboard interrupt.
\<close>

section \<open>Messages\<close>

datatype interruption = Interrupted | Failed

text \<open>\<open>dict.update\<close> with one pair: a known key keeps its place.\<close>

fun dict_set :: "string \<Rightarrow> pyval \<Rightarrow> event_dict \<Rightarrow> event_dict" where
  "dict_set k v [] = [(k, v)]"
| "dict_set k v ((j, w) # d) = (if j = k then (k, v) # d else (j, w) # dict_set k v d)"

definition device_message :: "sim_env \<Rightarrow> event_dict \<Rightarrow> raw_json option" where
  "device_message env event =
     dumps (se_repr env) (PDict (fold (\<lambda>(k, v). dict_set k v)
       (filter (\<lambda>p. fst p \<noteq> ''gateway_received_at'') event) [(''schema_version'', PInt 1)]))"

section \<open>The target\<close>

definition drop_suffix_char :: "char \<Rightarrow> string \<Rightarrow> string" where
  "drop_suffix_char c s = (if s \<noteq> '''' \<and> last s = c then butlast s else s)"

text \<open>The password file as decoded text, \<open>None\<close> when it cannot be read.\<close>

definition validate_mqtt_target :: "string \<Rightarrow> string \<Rightarrow> int \<Rightarrow> string \<Rightarrow> string option \<Rightarrow> (string, string) result" where
  "validate_mqtt_target device_id host port username password_file =
     (if list_ex (\<lambda>c. c \<in> set device_id) ''/+#''
      then Inl ''MQTT device_id must be one topic level without /, + or #''
      else if host = '''' \<or> list_ex py_isspace host
      then Inl ''mqtt_host must be a nonempty hostname without whitespace''
      else if \<not> (1 \<le> port \<and> port \<le> 65535) then Inl ''mqtt_port must be from 1 to 65535''
      else if username = '''' \<or> CHR 0x00 \<in> set username
      then Inl ''mqtt_username must be nonempty and contain no NUL''
      else case password_file of
        None \<Rightarrow> Inl ''Cannot read MQTT password file''
      | Some text \<Rightarrow>
          (let password = (if text \<noteq> '''' \<and> last text = CHR 0x0A
                           then drop_suffix_char (CHR 0x0D) (butlast text) else text)
           in if password = '''' \<or> CHR 0x0A \<in> set password \<or> CHR 0x0D \<in> set password
              then Inl ''MQTT password file must contain one nonempty line''
              else Inr password))"

section \<open>The publisher\<close>

text \<open>
  \<open>mc_connect\<close>: the return code of \<open>connect\<close>; \<open>mc_wait\<close>: starting the loop and waiting for the acknowledgement,
  \<open>None\<close> on a timeout, else the reason code; \<open>mc_publish\<close>: the return code of a QoS 1 publish; \<open>mc_acked\<close>: waiting
  for the acknowledgement and whether it came.
\<close>

record 'w mqtt_client =
  mc_connect :: "'w \<Rightarrow> (interruption, int) result \<times> 'w"
  mc_wait :: "'w \<Rightarrow> (interruption, int option) result \<times> 'w"
  mc_publish :: "string \<Rightarrow> raw_json \<Rightarrow> 'w \<Rightarrow> (interruption, int) result \<times> 'w"
  mc_acked :: "'w \<Rightarrow> (interruption, bool) result \<times> 'w"
  mc_disconnect :: "'w \<Rightarrow> 'w"

text \<open>The state of a publisher: whether it has started, and the world.\<close>

type_synonym 'w publisher = "bool \<times> 'w"

definition MQTT_ERR_SUCCESS :: int where "MQTT_ERR_SUCCESS = 0"

definition ensure_connected :: "'w mqtt_client \<Rightarrow> 'w publisher \<Rightarrow> (interruption, unit) result \<times> 'w publisher" where
  "ensure_connected mc st =
     (if fst st then (Inr (), st)
      else (case mc_connect mc (snd st) of
              (Inl x, w) \<Rightarrow> (Inl x, True, w)
            | (Inr rc, w) \<Rightarrow>
                if rc \<noteq> MQTT_ERR_SUCCESS then (Inl Failed, True, w)
                else (case mc_wait mc w of
                        (Inl x, w') \<Rightarrow> (Inl x, True, w')
                      | (Inr None, w') \<Rightarrow> (Inl Failed, True, w')
                      | (Inr (Some reason), w') \<Rightarrow>
                          if reason \<noteq> 0 then (Inl Failed, True, w') else (Inr (), True, w'))))"

definition device_topic :: "string \<Rightarrow> string" where
  "device_topic device_id = ''equipment/'' @ device_id @ ''/telemetry''"

fun str_of :: "pyval \<Rightarrow> string" where
  "str_of (PStr s) = s"
| "str_of _ = ''''"

definition mqtt_publish :: "sim_env \<Rightarrow> 'w mqtt_client \<Rightarrow> event_dict \<Rightarrow> 'w publisher
    \<Rightarrow> (interruption, unit) result \<times> 'w publisher" where
  "mqtt_publish env mc event st =
     (case ensure_connected mc st of
        (Inl x, st') \<Rightarrow> (Inl x, st')
      | (Inr _, st') \<Rightarrow>
          (case device_message env event of
             None \<Rightarrow> (Inl Failed, st')
           | Some message \<Rightarrow>
               (case mc_publish mc (device_topic (str_of (dict_get event ''device_id''))) message (snd st') of
                  (Inl x, w) \<Rightarrow> (Inl x, fst st', w)
                | (Inr rc, w) \<Rightarrow>
                    if rc \<noteq> MQTT_ERR_SUCCESS then (Inl Failed, fst st', w)
                    else (case mc_acked mc w of
                            (Inl x, w') \<Rightarrow> (Inl x, fst st', w')
                          | (Inr acked, w') \<Rightarrow> (if acked then Inr () else Inl Failed, fst st', w')))))"

definition close_publisher :: "'w mqtt_client \<Rightarrow> 'w publisher \<Rightarrow> 'w publisher" where
  "close_publisher mc st = (if fst st then (fst st, mc_disconnect mc (snd st)) else st)"

section \<open>Properties\<close>

lemma dict_set_fresh: "k \<notin> fst ` set d \<Longrightarrow> dict_set k v d = d @ [(k, v)]"
  by (induction k v d rule: dict_set.induct) auto

lemma fold_dict_set_fresh:
  "distinct (map fst ps) \<Longrightarrow> fst ` set ps \<inter> fst ` set d = {} \<Longrightarrow> fold (\<lambda>(k, v). dict_set k v) ps d = d @ ps"
  by (induction ps arbitrary: d) (auto simp: dict_set_fresh)

definition without_gateway_time :: "event_dict \<Rightarrow> event_dict" where
  "without_gateway_time d = filter (\<lambda>p. fst p \<noteq> ''gateway_received_at'') d"

lemma dumps_pairs_filter:
  assumes "dumps_pairs r ps = Some qs"
  shows "dumps_pairs r (filter (\<lambda>p. P (fst p)) ps) = Some (filter (\<lambda>p. P (fst p)) qs)"
  using assms by (induction ps arbitrary: qs) (auto split: option.splits)

lemma load_pairs_filter:
  assumes "load_pairs ps = Some qs"
  shows "load_pairs (filter (\<lambda>p. P (fst p)) ps) = Some (filter (\<lambda>p. P (fst p)) qs)"
  using assms by (induction ps arbitrary: qs) (auto split: option.splits)

text \<open>
  The MQTT message of a generated reading decodes to schema version 1 and the members of the event, in order and
  with the values the HTTP batch has, except the gateway's receipt time, which is the gateway's to set: with it
  put back, the members are those of the valid event.
\<close>

theorem device_message_contract:
  assumes "constructed env s" and "i < nat (sc_count s)"
  shows "\<exists>tree. device_message env (event_at env s i) = Some tree
    \<and> load_value tree = Some (PDict ((''schema_version'', PInt 1) # without_gateway_time (decoded_event env s i)))
    \<and> ''gateway_received_at'' \<notin> fst ` set (without_gateway_time (decoded_event env s i))
    \<and> (\<exists>rest. mset (decoded_event env s i) =
          mset (without_gateway_time (decoded_event env s i)) + {# (''gateway_received_at'', PStr rest) #})
    \<and> validate_event core_check (PDict (decoded_event env s i)) = Inr (wire_event env s i)"
proof -
  obtain tree where tree: "dumps (se_repr env) (PDict (event_at env s i)) = Some tree"
      "load_value tree = Some (PDict (decoded_event env s i))"
    by (rule event_travels [OF assms])
  then obtain qs where qs: "dumps_pairs (se_repr env) (event_at env s i) = Some qs" "tree = RObj qs" by auto
  have load: "load_pairs qs = Some (decoded_event env s i)"
    using tree(2) qs(2) by (auto simp: unique_object_eq split: option.splits if_splits)
  let ?P = "\<lambda>k. k \<noteq> ''gateway_received_at''"
  have "distinct (map fst (filter (\<lambda>p. ?P (fst p)) (event_at env s i)))"
    "fst ` set (filter (\<lambda>p. ?P (fst p)) (event_at env s i)) \<inter> fst ` set [(''schema_version'', PInt 1)] = {}"
    by (simp_all add: event_at_def scenario_event_def)
  then have "fold (\<lambda>(k, v). dict_set k v) (filter (\<lambda>p. ?P (fst p)) (event_at env s i)) [(''schema_version'', PInt 1)]
      = (''schema_version'', PInt 1) # filter (\<lambda>p. ?P (fst p)) (event_at env s i)"
    by (subst fold_dict_set_fresh) simp_all
  then have msg: "device_message env (event_at env s i) =
      Some (RObj ((''schema_version'', RInt 1) # filter (\<lambda>p. ?P (fst p)) qs))"
    using dumps_pairs_filter [OF qs(1), of ?P] by (simp add: device_message_def)
  have "load_value (RObj ((''schema_version'', RInt 1) # filter (\<lambda>p. ?P (fst p)) qs)) =
      Some (PDict ((''schema_version'', PInt 1) # without_gateway_time (decoded_event env s i)))"
    using load_pairs_filter [OF load, of ?P]
    by (simp add: without_gateway_time_def unique_object_eq) (auto simp: decoded_event_def)
  with msg show ?thesis
    using decoded_event_valid [OF assms]
    by (intro exI [of _ "RObj ((''schema_version'', RInt 1) # filter (\<lambda>p. ?P (fst p)) qs)"] conjI)
      (auto simp: without_gateway_time_def decoded_event_def)
qed

theorem device_message_contract_witness:
  "\<exists>tree. device_message demo_sim (event_at demo_sim demo_scenario 1) = Some tree
     \<and> load_value tree = Some (PDict ((''schema_version'', PInt 1)
          # without_gateway_time (decoded_event demo_sim demo_scenario 1)))"
  using device_message_contract [OF demo_constructed, of 1] by (auto simp: demo_scenario_def)

lemma mqtt_password_line:
  assumes "password = (if text \<noteq> '''' \<and> last text = CHR 0x0A then drop_suffix_char (CHR 0x0D) (butlast text) else text)"
  shows "text \<in> {password, password @ [CHR 0x0A], password @ [CHR 0x0D, CHR 0x0A]}"
proof (cases "text \<noteq> '''' \<and> last text = CHR 0x0A")
  case True
  then have t: "text = butlast text @ [CHR 0x0A]" by (metis append_butlast_last_id)
  show ?thesis
  proof (cases "butlast text \<noteq> '''' \<and> last (butlast text) = CHR 0x0D")
    case cr: True
    then have "butlast text = butlast (butlast text) @ [CHR 0x0D]" by (metis append_butlast_last_id)
    then have "text = butlast (butlast text) @ [CHR 0x0D, CHR 0x0A]" using t by (metis append_Cons append_Nil append_assoc)
    moreover have "password = butlast (butlast text)" using assms True cr by (simp add: drop_suffix_char_def)
    ultimately show ?thesis by blast
  next
    case False
    with assms True have "password = butlast text" by (simp add: drop_suffix_char_def)
    with t show ?thesis by blast
  qed
qed (use assms in auto)

text \<open>
  A target that passes the checks publishes under exactly the three topic levels the broker's access rule
  \<open>equipment/%u/telemetry\<close> has for the device, free of wildcards; the password is the one nonempty line of the file,
  without its line end; the port is a TCP port.
\<close>

theorem mqtt_target_safe:
  assumes "validate_mqtt_target device_id host port username password_file = Inr password"
  shows "py_split_on (CHR ''/'') (device_topic device_id) = [''equipment'', device_id, ''telemetry'']
    \<and> CHR ''+'' \<notin> set (device_topic device_id) \<and> CHR ''#'' \<notin> set (device_topic device_id)
    \<and> 1 \<le> port \<and> port \<le> 65535 \<and> CHR 0x00 \<notin> set username \<and> password \<noteq> ''''
    \<and> CHR 0x0A \<notin> set password \<and> CHR 0x0D \<notin> set password
    \<and> (\<exists>text. password_file = Some text
         \<and> text \<in> {password, password @ [CHR 0x0A], password @ [CHR 0x0D, CHR 0x0A]})"
proof -
  obtain line where t: "password_file = Some line"
    and dev: "CHR ''/'' \<notin> set device_id" "CHR ''+'' \<notin> set device_id" "CHR ''#'' \<notin> set device_id"
    and rest: "1 \<le> port" "port \<le> 65535" "CHR 0x00 \<notin> set username"
    and pw: "password = (if line \<noteq> '''' \<and> last line = CHR 0x0A then drop_suffix_char (CHR 0x0D) (butlast line) else line)"
      "password \<noteq> ''''" "CHR 0x0A \<notin> set password" "CHR 0x0D \<notin> set password"
    using assms by (auto simp: validate_mqtt_target_def Let_def split: if_splits option.splits)
  have "py_split_on (CHR ''/'') (device_topic device_id)
      = ''equipment'' # py_split_on (CHR ''/'') (device_id @ CHR ''/'' # ''telemetry'')"
    by (simp add: device_topic_def)
  also have "\<dots> = [''equipment'', device_id, ''telemetry'']"
    using py_split_on_append [OF dev(1), of "''telemetry''"] by (simp only:) simp
  finally have topic: "py_split_on (CHR ''/'') (device_topic device_id) = [''equipment'', device_id, ''telemetry'']" .
  from mqtt_password_line [OF pw(1)] topic t dev rest pw(2-4) show ?thesis by (auto simp: device_topic_def)
qed

theorem mqtt_target_safe_witness:
  "validate_mqtt_target ''d1'' ''localhost'' 1883 ''d1'' (Some ''correct horse'') = Inr ''correct horse''
   \<and> py_split_on (CHR ''/'') (device_topic ''d1'') = [''equipment'', ''d1'', ''telemetry'']"
proof -
  have v: "validate_mqtt_target ''d1'' ''localhost'' 1883 ''d1'' (Some ''correct horse'') = Inr ''correct horse''"
    by (simp add: validate_mqtt_target_def py_isspace_def)
  from mqtt_target_safe [OF this] v show ?thesis by blast
qed

end
