(* ===== verification/Simulate.thy ===== *)
theory Simulate
  imports Send_Batch Mqtt_Transport
begin

text \<open>
  \<open>simulator/simulate.py\<close>: delivery of a scenario in batches over HTTP or reading by reading over MQTT. The clock, the
  sleep, the sender and the output are functions on a world. They may be interrupted by the keyboard or raise one of
  the exceptions the loops catch; any other exception comes only from the loop itself.
\<close>

section \<open>The summary\<close>

record summary =
  su_planned :: int
  su_generated :: int
  su_sent :: int
  su_emitted :: int
  su_counts :: "string \<Rightarrow> int option"
  su_reasons :: "string \<Rightarrow> int option"
  su_acked :: int
  su_unconfirmed :: int
  su_unsent :: int
  su_failures :: int
  su_lag :: py_number
  su_cancelled :: bool
  su_duration :: py_number
  su_rate :: py_number

definition initial_counts :: "string \<Rightarrow> int option" where
  "initial_counts = [''accepted'' \<mapsto> 0, ''duplicate'' \<mapsto> 0, ''rejected'' \<mapsto> 0]"

definition initial_summary :: "int \<Rightarrow> summary" where
  "initial_summary planned = \<lparr>su_planned = planned, su_generated = 0, su_sent = 0, su_emitted = 0,
     su_counts = initial_counts, su_reasons = Map.empty, su_acked = 0, su_unconfirmed = 0, su_unsent = planned,
     su_failures = 0, su_lag = Finite 0, su_cancelled = False, su_duration = Finite 0, su_rate = Finite 0\<rparr>"

section \<open>Pacing\<close>

record 'w runtime =
  rt_clock :: "'w \<Rightarrow> py_number \<times> 'w"
  rt_sleep :: "py_number \<Rightarrow> 'w \<Rightarrow> (interruption, unit) result \<times> 'w"

definition true_div :: "int \<Rightarrow> int \<Rightarrow> py_number" where
  "true_div a b = round64 (of_int a / of_int b)"

text \<open>Sleep until the deadline of the reading, then record how late it is.\<close>

definition pace :: "'w runtime \<Rightarrow> bool \<Rightarrow> py_number \<Rightarrow> int \<Rightarrow> scenario \<Rightarrow> summary \<Rightarrow> 'w
    \<Rightarrow> (interruption, summary) result \<times> 'w" where
  "pace rt paced started position s su w =
     (if \<not> paced then (Inr su, w)
      else (let deadline = fadd started (true_div (position * sc_interval_ms s) 1000);
                (now, w1) = rt_clock rt w
            in case rt_sleep rt (fmax (Finite 0) (fsub deadline now)) w1 of
                 (Inl x, w2) \<Rightarrow> (Inl x, w2)
               | (Inr _, w2) \<Rightarrow>
                   (let (late, w3) = rt_clock rt w2
                    in (Inr (su\<lparr>su_lag := fmax (su_lag su) (fsub late deadline)\<rparr>), w3))))"

section \<open>Batches over HTTP\<close>

type_synonym 'w sender = "raw_json \<Rightarrow> event_dict list \<Rightarrow> 'w \<Rightarrow> (interruption, string list) result \<times> 'w"

text \<open>How the try block ends: normally, by an exception that is caught, or by the KeyError of an unknown category.\<close>

datatype run_end = Completed | Stopped interruption | Key_error

fun tally :: "string list \<Rightarrow> summary \<Rightarrow> run_end \<times> summary" where
  "tally [] su = (Completed, su)"
| "tally (out # outs) su =
     (let category = py_partition_fst (CHR '':'') out; reason = py_partition_snd (CHR '':'') out
      in case su_counts su category of
           None \<Rightarrow> (Key_error, su)
         | Some n \<Rightarrow>
             (let su = su\<lparr>su_counts := (su_counts su)(category \<mapsto> n + 1)\<rparr>;
                  su = (if category = ''rejected''
                        then su\<lparr>su_reasons := (su_reasons su)(reason \<mapsto>
                               (case su_reasons su reason of None \<Rightarrow> 0 | Some k \<Rightarrow> k) + 1)\<rparr> else su)
              in tally outs su))"

definition send_one :: "'w runtime \<Rightarrow> bool \<Rightarrow> py_number \<Rightarrow> scenario \<Rightarrow> 'w sender \<Rightarrow> raw_json \<Rightarrow> event_dict list
    \<Rightarrow> summary \<Rightarrow> 'w \<Rightarrow> run_end \<times> summary \<times> 'w" where
  "send_one rt paced started s send body events su w =
     (case pace rt paced started (su_generated su - 1) s su w of
        (Inl x, w1) \<Rightarrow> (Stopped x, su, w1)
      | (Inr su1, w1) \<Rightarrow>
          (let batch_len = int (length events);
               su2 = su1\<lparr>su_sent := su_sent su1 + batch_len, su_unconfirmed := su_unconfirmed su1 + batch_len\<rparr>
           in case send body events w1 of
                (Inl x, w2) \<Rightarrow> (Stopped x, su2, w2)
              | (Inr outcomes, w2) \<Rightarrow>
                  (case tally outcomes su2 of
                     (Completed, su3) \<Rightarrow> (Completed, su3\<lparr>su_unconfirmed := su_unconfirmed su3 - batch_len\<rparr>, w2)
                   | (stop, su3) \<Rightarrow> (stop, su3, w2))))"

text \<open>Without a sender the encoded batch goes to the output, if there is one.\<close>

definition emit_one :: "(raw_json \<Rightarrow> 'w \<Rightarrow> (interruption, unit) result \<times> 'w) option \<Rightarrow> raw_json \<Rightarrow> int
    \<Rightarrow> summary \<Rightarrow> 'w \<Rightarrow> run_end \<times> summary \<times> 'w" where
  "emit_one emit body batch_len su w =
     (case emit of
        None \<Rightarrow> (Completed, su\<lparr>su_emitted := su_emitted su + batch_len\<rparr>, w)
      | Some out \<Rightarrow>
          (case out body w of
             (Inl x, w') \<Rightarrow> (Stopped x, su, w')
           | (Inr _, w') \<Rightarrow> (Completed, su\<lparr>su_emitted := su_emitted su + batch_len\<rparr>, w')))"

fun run_batches :: "sim_env \<Rightarrow> 'w runtime \<Rightarrow> bool \<Rightarrow> py_number \<Rightarrow> scenario \<Rightarrow> 'w sender option
    \<Rightarrow> (raw_json \<Rightarrow> 'w \<Rightarrow> (interruption, unit) result \<times> 'w) option \<Rightarrow> event_dict list list \<Rightarrow> summary \<Rightarrow> 'w
    \<Rightarrow> run_end \<times> summary \<times> 'w" where
  "run_batches env rt paced started s send emit [] su w = (Completed, su, w)"
| "run_batches env rt paced started s send emit (batch # rest) su w =
     (let batch_len = int (length batch); su1 = su\<lparr>su_generated := su_generated su + batch_len\<rparr>
      in case encode_batch env batch of
           None \<Rightarrow> (Stopped Failed, su1, w)
         | Some body \<Rightarrow>
             (case (case send of None \<Rightarrow> emit_one emit body batch_len su1 w
                               | Some post \<Rightarrow> send_one rt paced started s post body batch su1 w) of
                (Completed, su2, w2) \<Rightarrow> run_batches env rt paced started s send emit rest su2 w2
              | stop \<Rightarrow> stop))"

text \<open>The except clauses and the figures computed at the end; \<open>None\<close> when the KeyError leaves the function.\<close>

definition finish :: "'w runtime \<Rightarrow> py_number \<Rightarrow> (summary \<Rightarrow> int) \<Rightarrow> run_end \<times> summary \<times> 'w \<Rightarrow> summary option \<times> 'w" where
  "finish rt started confirmed r =
     (case r of (stop, su, w) \<Rightarrow>
        if stop = Key_error then (None, w)
        else (let su1 = (if stop = Stopped Interrupted then su\<lparr>su_cancelled := True\<rparr>
                         else if stop = Stopped Failed then su\<lparr>su_failures := su_failures su + 1\<rparr> else su);
                  (now, w') = rt_clock rt w;
                  elapsed = fmax (Finite 0) (fsub now started)
              in (Some (su1\<lparr>su_unsent := su_planned su1 - su_sent su1, su_duration := round_digits 6 elapsed,
                    su_rate := (if elapsed = Finite 0 then Finite 0
                                else round_digits 3 (fdiv (float_of_int (confirmed su1)) elapsed)),
                    su_lag := round_digits 6 (su_lag su1)\<rparr>), w')))"

definition run_scenario :: "sim_env \<Rightarrow> 'w runtime \<Rightarrow> scenario \<Rightarrow> int \<Rightarrow> 'w sender option
    \<Rightarrow> (raw_json \<Rightarrow> 'w \<Rightarrow> (interruption, unit) result \<times> 'w) option \<Rightarrow> bool \<Rightarrow> 'w
    \<Rightarrow> (string, summary option) result \<times> 'w" where
  "run_scenario env rt s batch_size send emit paced w =
     (case batches env s batch_size of
        Inl message \<Rightarrow> (Inl message, w)
      | Inr bs \<Rightarrow>
          (let (started, w1) = rt_clock rt w;
               (su, w2) = finish rt started su_sent
                 (run_batches env rt paced started s send emit bs (initial_summary (sc_count s)) w1)
           in (Inr su, w2)))"

section \<open>Readings over MQTT\<close>

fun run_readings :: "'w runtime \<Rightarrow> bool \<Rightarrow> py_number \<Rightarrow> scenario \<Rightarrow> (event_dict \<Rightarrow> 'w \<Rightarrow> (interruption, unit) result \<times> 'w)
    \<Rightarrow> nat \<Rightarrow> event_dict list \<Rightarrow> summary \<Rightarrow> 'w \<Rightarrow> run_end \<times> summary \<times> 'w" where
  "run_readings rt paced started s publish index [] su w = (Completed, su, w)"
| "run_readings rt paced started s publish index (event # rest) su w =
     (let su1 = su\<lparr>su_generated := su_generated su + 1\<rparr>
      in case pace rt paced started (int index) s su1 w of
           (Inl x, w1) \<Rightarrow> (Stopped x, su1, w1)
         | (Inr su2, w1) \<Rightarrow>
             (let su3 = su2\<lparr>su_sent := su_sent su2 + 1, su_unconfirmed := su_unconfirmed su2 + 1\<rparr>
              in case publish event w1 of
                   (Inl x, w2) \<Rightarrow> (Stopped x, su3, w2)
                 | (Inr _, w2) \<Rightarrow>
                     run_readings rt paced started s publish (Suc index) rest
                       (su3\<lparr>su_acked := su_acked su3 + 1, su_unconfirmed := su_unconfirmed su3 - 1\<rparr>) w2))"

definition run_mqtt_scenario :: "sim_env \<Rightarrow> 'w runtime \<Rightarrow> scenario \<Rightarrow> (event_dict \<Rightarrow> 'w \<Rightarrow> (interruption, unit) result \<times> 'w)
    \<Rightarrow> bool \<Rightarrow> 'w \<Rightarrow> summary option \<times> 'w" where
  "run_mqtt_scenario env rt s publish paced w =
     (let (started, w1) = rt_clock rt w
      in finish rt started su_acked
           (run_readings rt paced started s publish 0 (generate_events env s) (initial_summary (sc_count s)) w1))"

section \<open>The command line\<close>

datatype run_mode = Generate_mode | Http_mode | Mqtt_mode

text \<open>The exit status of \<open>main\<close>.\<close>

definition simulate_exit :: "run_mode \<Rightarrow> summary \<Rightarrow> nat" where
  "simulate_exit mode su =
     (let failed = (su_failures su \<noteq> 0 \<or> su_unconfirmed su \<noteq> 0
                    \<or> (mode \<noteq> Mqtt_mode \<and> su_counts su ''rejected'' \<noteq> Some 0))
      in if su_cancelled su then 130 else if failed then 1 else 0)"

section \<open>The HTTP sender\<close>

text \<open>The HTTP sender of \<open>main\<close>: \<open>post_batch\<close>, whose ValueError for an unusable response is caught by the loop.\<close>

definition http_send :: "(string \<Rightarrow> string \<Rightarrow> raw_json \<Rightarrow> 'w \<Rightarrow> (interruption, pyval) result \<times> 'w) \<Rightarrow> string \<Rightarrow> string \<Rightarrow> 'w sender" where
  "http_send post base_url token body events w =
     (case post (rstrip_slash base_url @ ''/v1/telemetry/batches'') token body w of
        (Inl x, w') \<Rightarrow> (Inl x, w')
      | (Inr response, w') \<Rightarrow>
          (case classify_response events response of
             Inl _ \<Rightarrow> (Inl Failed, w') | Inr outcomes \<Rightarrow> (Inr outcomes, w')))"

end
