(* ===== verification/Run_Accounts.thy ===== *)
theory Run_Accounts
  imports Simulate
begin

text \<open>
  What the figures of \<open>simulator/simulate.py\<close> promise: every delivered reading is counted once, what a result
  leaves open stays unconfirmed, and exit status 0 means that the whole scenario was confirmed.
\<close>

section \<open>Worlds that record what was sent\<close>

definition recorded_rt :: "'w runtime \<Rightarrow> ('w \<times> 'e list) runtime" where
  "recorded_rt rt = \<lparr>rt_clock = (\<lambda>st. case rt_clock rt (fst st) of (t, w) \<Rightarrow> (t, w, snd st)),
     rt_sleep = (\<lambda>t st. case rt_sleep rt t (fst st) of (r, w) \<Rightarrow> (r, w, snd st))\<rparr>"

definition recorded_send :: "'w sender \<Rightarrow> ('w \<times> event_dict list list) sender" where
  "recorded_send send body events st = (case send body events (fst st) of (r, w) \<Rightarrow> (r, w, snd st @ [events]))"

definition recorded_publish :: "(event_dict \<Rightarrow> 'w \<Rightarrow> (interruption, unit) result \<times> 'w)
    \<Rightarrow> event_dict \<Rightarrow> 'w \<times> event_dict list \<Rightarrow> (interruption, unit) result \<times> 'w \<times> event_dict list" where
  "recorded_publish publish event st = (case publish event (fst st) of (r, w) \<Rightarrow> (r, w, snd st @ [event]))"

lemma recorded_rt_keeps [simp]:
  "snd (snd (rt_clock (recorded_rt rt) st)) = snd st"
  "snd (snd (rt_sleep (recorded_rt rt) t st)) = snd st"
  by (simp_all add: recorded_rt_def split: prod.splits)

lemma recorded_send_logs [simp]: "snd (snd (recorded_send send body events st)) = snd st @ [events]"
  by (simp add: recorded_send_def split: prod.splits)

lemma recorded_publish_logs [simp]: "snd (snd (recorded_publish publish event st)) = snd st @ [event]"
  by (simp add: recorded_publish_def split: prod.splits)

section \<open>The books\<close>

definition known :: "string \<Rightarrow> bool" where
  "known out \<longleftrightarrow> py_partition_fst (CHR '':'') out \<in> {''accepted'', ''duplicate'', ''rejected''}"

definition reason_total :: "(string \<Rightarrow> int option) \<Rightarrow> int" where
  "reason_total m = (\<Sum>r \<in> dom m. the (m r))"

text \<open>\<open>n\<close> readings are counted, each under one category, and the reasons add up to the rejections.\<close>

definition booked :: "summary \<Rightarrow> int \<Rightarrow> bool" where
  "booked su n \<longleftrightarrow> finite (dom (su_reasons su))
     \<and> (\<exists>a d. su_counts su = [''accepted'' \<mapsto> a, ''duplicate'' \<mapsto> d, ''rejected'' \<mapsto> reason_total (su_reasons su)]
          \<and> 0 \<le> a \<and> 0 \<le> d \<and> 0 \<le> reason_total (su_reasons su) \<and> a + d + reason_total (su_reasons su) = n)"

lemma bookedI:
  assumes "finite (dom (su_reasons su))" and "0 \<le> a" and "0 \<le> d" and "0 \<le> reason_total (su_reasons su)"
    and "su_counts su = [''accepted'' \<mapsto> a, ''duplicate'' \<mapsto> d, ''rejected'' \<mapsto> reason_total (su_reasons su)]"
    and "a + d + reason_total (su_reasons su) = n"
  shows "booked su n"
  unfolding booked_def using assms by blast

lemma booked_initial: "booked (initial_summary n) 0"
  by (rule bookedI [of _ 0 0]) (simp_all add: initial_summary_def initial_counts_def reason_total_def)

definition books_only :: "summary \<Rightarrow> summary \<Rightarrow> bool" where
  "books_only su su' \<longleftrightarrow> su' = su\<lparr>su_counts := su_counts su', su_reasons := su_reasons su'\<rparr>"

lemma books_only_refl: "books_only su su"
  by (simp add: books_only_def)

lemma books_only_trans: "books_only a b \<Longrightarrow> books_only b c \<Longrightarrow> books_only a c"
  by (cases a; cases b; cases c) (simp add: books_only_def)

lemma books_onlyD:
  assumes "books_only su su'"
  shows "su_planned su' = su_planned su" "su_generated su' = su_generated su" "su_sent su' = su_sent su"
    "su_unconfirmed su' = su_unconfirmed su" "su_failures su' = su_failures su" "su_cancelled su' = su_cancelled su"
  by (subst assms [unfolded books_only_def], simp)+

definition bump :: "(string \<Rightarrow> int option) \<Rightarrow> string \<Rightarrow> string \<Rightarrow> int option" where
  "bump m x = m(x \<mapsto> (case m x of None \<Rightarrow> 0 | Some k \<Rightarrow> k) + 1)"

lemma finite_bump [simp]: "finite (dom (bump m x)) = finite (dom m)"
  by (simp add: bump_def)

lemma reason_total_bump:
  assumes "finite (dom m)"
  shows "reason_total (bump m x) = reason_total m + 1"
proof -
  have rest: "(\<Sum>r \<in> dom m - {x}. the ((m(x \<mapsto> v)) r)) = (\<Sum>r \<in> dom m - {x}. the (m r))" for v
    by (intro sum.cong) auto
  show ?thesis
  proof (cases "m x")
    case None
    then have "dom m - {x} = dom m" by (auto simp: domIff)
    with None rest [of 1] assms show ?thesis
      by (simp add: bump_def reason_total_def sum.insert_remove)
  next
    case (Some k)
    then have "insert x (dom m) = dom m" "x \<in> dom m" by auto
    with Some rest [of "k + 1"] assms show ?thesis
      by (simp add: bump_def reason_total_def sum.remove [of "dom m" x])
  qed
qed

lemma tally_step:
  assumes "known out" and "booked su n"
  shows "\<exists>su'. tally (out # outs) su = tally outs su' \<and> booked su' (n + 1) \<and> books_only su su'"
proof -
  let ?reason = "py_partition_snd (CHR '':'') out" and ?R = "reason_total (su_reasons su)"
  obtain a d where fin: "finite (dom (su_reasons su))" and nonneg: "0 \<le> a" "0 \<le> d" "0 \<le> ?R" and sum: "a + d + ?R = n"
    and counts: "su_counts su = [''accepted'' \<mapsto> a, ''duplicate'' \<mapsto> d, ''rejected'' \<mapsto> ?R]"
    using assms(2) unfolding booked_def by blast
  consider "py_partition_fst (CHR '':'') out = ''accepted''" | "py_partition_fst (CHR '':'') out = ''duplicate''"
    | "py_partition_fst (CHR '':'') out = ''rejected''" using assms(1) unfolding known_def by blast
  then show ?thesis
  proof cases
    case 1
    let ?su = "su\<lparr>su_counts := (su_counts su)(''accepted'' \<mapsto> a + 1)\<rparr>"
    have "tally (out # outs) su = tally outs ?su" using 1 counts by (simp add: Let_def)
    moreover have "booked ?su (n + 1)"
      by (rule bookedI [of _ "a + 1" d]) (use fin nonneg sum counts in \<open>auto simp: fun_eq_iff\<close>)
    ultimately show ?thesis by (intro exI [of _ ?su]) (simp add: books_only_def)
  next
    case 2
    let ?su = "su\<lparr>su_counts := (su_counts su)(''duplicate'' \<mapsto> d + 1)\<rparr>"
    have "tally (out # outs) su = tally outs ?su" using 2 counts by (simp add: Let_def)
    moreover have "booked ?su (n + 1)"
      by (rule bookedI [of _ a "d + 1"]) (use fin nonneg sum counts in \<open>auto simp: fun_eq_iff\<close>)
    ultimately show ?thesis by (intro exI [of _ ?su]) (simp add: books_only_def)
  next
    case 3
    let ?su = "su\<lparr>su_counts := (su_counts su)(''rejected'' \<mapsto> ?R + 1), su_reasons := bump (su_reasons su) ?reason\<rparr>"
    have "tally (out # outs) su = tally outs ?su" using 3 counts by (simp add: Let_def bump_def)
    moreover have "booked ?su (n + 1)"
      by (rule bookedI [of _ a d]) (use fin nonneg sum counts in \<open>auto simp: fun_eq_iff reason_total_bump\<close>)
    ultimately show ?thesis by (intro exI [of _ ?su]) (simp add: books_only_def)
  qed
qed

lemma tally_known:
  assumes "\<forall>out \<in> set outs. known out" and "booked su n"
  shows "\<exists>su'. tally outs su = (Completed, su') \<and> booked su' (n + int (length outs)) \<and> books_only su su'"
  using assms
proof (induction outs arbitrary: su n)
  case Nil
  then show ?case by (simp add: books_only_refl)
next
  case (Cons out outs)
  then obtain su1 where one: "tally (out # outs) su = tally outs su1" "booked su1 (n + 1)" "books_only su su1"
    using tally_step [of out su n outs] by auto
  moreover have "\<forall>x \<in> set outs. known x" using Cons.prems(1) by simp
  ultimately obtain su2 where "tally outs su1 = (Completed, su2)" "booked su2 (n + 1 + int (length outs))" "books_only su1 su2"
    using Cons.IH [of su1 "n + 1"] by blast
  then show ?case using one by (auto intro!: exI [of _ su2] intro: books_only_trans simp: algebra_simps)
qed

section \<open>Delivery of batches\<close>

lemma pace_frame:
  assumes "pace rt paced started position s su w = (Inr su', w')"
  shows "\<exists>lag. su' = su\<lparr>su_lag := lag\<rparr>"
  using assms by (auto simp: pace_def Let_def split: if_splits prod.splits sum.splits intro: exI [of _ "su_lag su"])

lemma booked_frame [simp]:
  "booked (su\<lparr>su_lag := x\<rparr>) n = booked su n" "booked (su\<lparr>su_sent := i\<rparr>) n = booked su n"
  "booked (su\<lparr>su_unconfirmed := i\<rparr>) n = booked su n" "booked (su\<lparr>su_generated := i\<rparr>) n = booked su n"
  by (simp_all add: booked_def)

text \<open>What the loop relies on: a result has one known outcome per event, and clock and sleep send nothing.\<close>

locale traced_sender =
  fixes rt :: "'w runtime" and send :: "'w sender" and log :: "'w \<Rightarrow> event_dict list list"
  assumes complete: "send body events w = (Inr outcomes, w') \<Longrightarrow> length outcomes = length events"
    and categories: "send body events w = (Inr outcomes, w') \<Longrightarrow> \<forall>out \<in> set outcomes. known out"
    and send_logs: "log (snd (send body events w)) = log w @ [events]"
    and clock_keeps: "log (snd (rt_clock rt w)) = log w"
    and sleep_keeps: "log (snd (rt_sleep rt t w)) = log w"
begin

lemma pace_keeps: "log (snd (pace rt paced started position s su w)) = log w"
  using clock_keeps sleep_keeps
  by (auto simp: pace_def Let_def split: prod.splits sum.splits) (metis snd_conv)+

text \<open>What one batch does to the books and the log.\<close>

lemma send_one_accounts:
  assumes "send_one rt paced started s send body events su w = (stop, su', w')"
    and "booked su (su_sent su)" and "su_unconfirmed su = 0"
  shows "stop \<noteq> Key_error \<and> su_planned su' = su_planned su \<and> su_failures su' = su_failures su
    \<and> su_cancelled su' = su_cancelled su \<and> booked su' (su_sent su' - su_unconfirmed su')
    \<and> (stop = Completed \<and> su_unconfirmed su' = 0 \<and> su_sent su' = su_sent su + int (length events) \<and> log w' = log w @ [events]
       \<or> stop \<noteq> Completed \<and> su_unconfirmed su' = 0 \<and> su_sent su' = su_sent su \<and> log w' = log w
       \<or> stop \<noteq> Completed \<and> su_unconfirmed su' = int (length events) \<and> su_sent su' = su_sent su + int (length events)
         \<and> log w' = log w @ [events])"
proof -
  obtain p w1 where p: "pace rt paced started (su_generated su - 1) s su w = (p, w1)" by (rule prod.exhaust)
  have w1: "log w1 = log w" using pace_keeps [of paced started "su_generated su - 1" s su w] p by simp
  show ?thesis
  proof (cases p)
    case (Inl x)
    then have "stop = Stopped x" "su' = su" "w' = w1" using assms(1) p by (simp_all add: send_one_def)
    then show ?thesis using assms(2,3) w1 by simp
  next
    case (Inr su1)
    then obtain lag where su1: "su1 = su\<lparr>su_lag := lag\<rparr>" using pace_frame [OF p [unfolded Inr]] by (elim exE)
    let ?n = "int (length events)"
    let ?su2 = "su1\<lparr>su_sent := su_sent su1 + ?n, su_unconfirmed := su_unconfirmed su1 + ?n\<rparr>"
    obtain r w2 where r: "send body events w1 = (r, w2)" by (rule prod.exhaust)
    have w2: "log w2 = log w @ [events]" using send_logs [of body events w1] r w1 by simp
    show ?thesis
    proof (cases r)
      case (Inl x)
      then have "stop = Stopped x" "su' = ?su2" "w' = w2" using assms(1) p Inr r by (simp_all add: send_one_def Let_def)
      then show ?thesis using assms(2,3) w2 by (simp add: su1)
    next
      case outs: (Inr outs)
      have "booked ?su2 (su_sent su)" using assms(2) by (simp add: su1)
      then obtain su3 where su3: "tally outs ?su2 = (Completed, su3)" "booked su3 (su_sent su + ?n)" "books_only ?su2 su3"
        using tally_known [of outs ?su2 "su_sent su"] categories [of body events w1 outs w2] complete [of body events w1 outs w2] r outs
        by auto
      then have "stop = Completed" "su' = su3\<lparr>su_unconfirmed := su_unconfirmed su3 - ?n\<rparr>" "w' = w2"
        using assms(1) p Inr r outs by (simp_all add: send_one_def Let_def)
      then show ?thesis using assms(3) su3(2) w2 books_onlyD [OF su3(3)] by (simp add: su1)
    qed
  qed
qed

text \<open>The loop hands the batches over once and in order, up to the one that stops it.\<close>

lemma run_batches_accounts:
  assumes "run_batches env rt paced started s (Some send) emit bs su w = (stop, su', w')"
    and "booked su (su_sent su)" and "su_unconfirmed su = 0"
  shows "stop \<noteq> Key_error \<and> su_planned su' = su_planned su \<and> su_failures su' = su_failures su
    \<and> su_cancelled su' = su_cancelled su \<and> booked su' (su_sent su' - su_unconfirmed su')
    \<and> (\<exists>sent. length sent \<le> length bs \<and> sent = take (length sent) bs \<and> log w' = log w @ sent
        \<and> su_sent su' = su_sent su + int (length (concat sent))
        \<and> (su_unconfirmed su' = 0 \<or> sent \<noteq> [] \<and> su_unconfirmed su' = int (length (last sent)))
        \<and> (stop = Completed \<longrightarrow> sent = bs \<and> su_unconfirmed su' = 0))"
  using assms
proof (induction bs arbitrary: su w)
  case Nil
  then show ?case by simp
next
  case (Cons batch rest)
  let ?su1 = "su\<lparr>su_generated := su_generated su + int (length batch)\<rparr>"
  show ?case
  proof (cases "encode_batch env batch")
    case None
    then have "stop = Stopped Failed" "su' = ?su1" "w' = w" using Cons.prems(1) by (simp_all add: Let_def)
    then show ?thesis using Cons.prems(2,3) by (auto intro: exI [of _ "[]"])
  next
    case (Some body)
    obtain stop1 su2 w2 where one: "send_one rt paced started s send body batch ?su1 w = (stop1, su2, w2)"
      by (metis prod.exhaust)
    have acc: "stop1 \<noteq> Key_error \<and> su_planned su2 = su_planned su \<and> su_failures su2 = su_failures su
      \<and> su_cancelled su2 = su_cancelled su \<and> booked su2 (su_sent su2 - su_unconfirmed su2)
      \<and> (stop1 = Completed \<and> su_unconfirmed su2 = 0 \<and> su_sent su2 = su_sent su + int (length batch) \<and> log w2 = log w @ [batch]
       \<or> stop1 \<noteq> Completed \<and> su_unconfirmed su2 = 0 \<and> su_sent su2 = su_sent su \<and> log w2 = log w
       \<or> stop1 \<noteq> Completed \<and> su_unconfirmed su2 = int (length batch) \<and> su_sent su2 = su_sent su + int (length batch)
         \<and> log w2 = log w @ [batch])"
      using send_one_accounts [OF one] Cons.prems(2,3) by simp
    show ?thesis
    proof (cases "stop1 = Completed")
      case True
      then have step: "run_batches env rt paced started s (Some send) emit rest su2 w2 = (stop, su', w')"
        using Cons.prems(1) Some one by (simp add: Let_def)
      have "booked su2 (su_sent su2)" "su_unconfirmed su2 = 0" using True acc by auto
      from Cons.IH [OF step this] obtain ds where ds: "length ds \<le> length rest" "ds = take (length ds) rest" "log w' = log w2 @ ds"
          "su_sent su' = su_sent su2 + int (length (concat ds))"
          "su_unconfirmed su' = 0 \<or> ds \<noteq> [] \<and> su_unconfirmed su' = int (length (last ds))"
          "stop = Completed \<longrightarrow> ds = rest \<and> su_unconfirmed su' = 0"
        and keep: "stop \<noteq> Key_error" "su_planned su' = su_planned su2" "su_failures su' = su_failures su2"
          "su_cancelled su' = su_cancelled su2" "booked su' (su_sent su' - su_unconfirmed su')"
        by blast
      have new: "su_sent su2 = su_sent su + int (length batch)" "log w2 = log w @ [batch]" using True acc by auto
      show ?thesis
        by (intro conjI exI [of _ "batch # ds"]) (use acc keep ds new in \<open>auto\<close>)
    next
      case False
      then have "stop = stop1" "su' = su2" "w' = w2" using Cons.prems(1) Some one by (cases stop1; simp add: Let_def)+
      then show ?thesis using False acc by (auto intro: exI [of _ "[]"] exI [of _ "[batch]"])
    qed
  qed
qed

end

section \<open>The end of a run\<close>

lemma finish_frame:
  assumes "stop \<noteq> Key_error"
  shows "\<exists>su' w'. finish rt started confirmed (stop, su, w) = (Some su', w') \<and> w' = snd (rt_clock rt w)
    \<and> su_planned su' = su_planned su \<and> su_generated su' = su_generated su \<and> su_sent su' = su_sent su
    \<and> su_emitted su' = su_emitted su \<and> su_acked su' = su_acked su \<and> su_unconfirmed su' = su_unconfirmed su
    \<and> su_counts su' = su_counts su \<and> su_reasons su' = su_reasons su
    \<and> su_unsent su' = su_planned su - su_sent su
    \<and> su_cancelled su' = (stop = Stopped Interrupted \<or> su_cancelled su)
    \<and> su_failures su' = su_failures su + (if stop = Stopped Failed then 1 else 0)"
  using assms by (simp add: finish_def Let_def split: prod.split)

lemma finish_recorded:
  assumes "stop \<noteq> Key_error" and "finish (recorded_rt rt) started confirmed (stop, su, w) = (r, w', sent)"
  obtains su' where "r = Some su'" and "sent = snd w" and "su_sent su' = su_sent su" and "su_acked su' = su_acked su"
    and "su_unconfirmed su' = su_unconfirmed su" and "su_counts su' = su_counts su" and "su_reasons su' = su_reasons su"
    and "su_unsent su' = su_planned su - su_sent su"
proof -
  obtain su' v where v: "finish (recorded_rt rt) started confirmed (stop, su, w) = (Some su', v)" "v = snd (rt_clock (recorded_rt rt) w)"
    "su_sent su' = su_sent su" "su_acked su' = su_acked su" "su_unconfirmed su' = su_unconfirmed su"
    "su_counts su' = su_counts su" "su_reasons su' = su_reasons su" "su_unsent su' = su_planned su - su_sent su"
    using finish_frame [OF assms(1), of "recorded_rt rt" started confirmed su w] by blast
  have "v = (w', sent)" "r = Some su'" using v(1) assms(2) by simp_all
  moreover have "snd v = snd w" using v(2) by simp
  ultimately show ?thesis using that v(3-) by simp
qed

lemma exit_zero:
  assumes "stop \<noteq> Key_error" and "\<not> su_cancelled su" and "su_failures su = 0"
    and "finish rt started confirmed (stop, su, w) = (Some su', w')" and "simulate_exit mode su' = 0"
  shows "stop = Completed" and "su_unconfirmed su = 0" and "mode \<noteq> Mqtt_mode \<Longrightarrow> su_counts su ''rejected'' = Some 0"
proof -
  have f: "su_cancelled su' = (stop = Stopped Interrupted \<or> su_cancelled su)"
    "su_failures su' = su_failures su + (if stop = Stopped Failed then 1 else 0)"
    "su_unconfirmed su' = su_unconfirmed su" "su_counts su' = su_counts su"
    using finish_frame [OF assms(1), of rt started confirmed su w] assms(4) by auto
  have e: "\<not> su_cancelled su'" "su_failures su' = 0" "su_unconfirmed su' = 0" "mode \<noteq> Mqtt_mode \<Longrightarrow> su_counts su' ''rejected'' = Some 0"
    using assms(5) by (auto simp: simulate_exit_def Let_def split: if_splits)
  show "stop = Completed"
  proof (cases stop)
    case (Stopped x)
    then show ?thesis using f e(1,2) assms(3) by (cases x) simp_all
  qed (use assms(1) in simp_all)
  show "su_unconfirmed su = 0" "mode \<noteq> Mqtt_mode \<Longrightarrow> su_counts su ''rejected'' = Some 0" using e f by simp_all
qed

lemma booked_counts:
  assumes "booked su n"
  obtains a d r where "su_counts su = [''accepted'' \<mapsto> a, ''duplicate'' \<mapsto> d, ''rejected'' \<mapsto> r]" "0 \<le> a" "0 \<le> d" "0 \<le> r"
    "a + d + r = n" "r = reason_total (su_reasons su)"
  using assms unfolding booked_def by blast

lemma initial_summary_simps [simp]:
  "su_planned (initial_summary n) = n" "su_sent (initial_summary n) = 0" "su_unconfirmed (initial_summary n) = 0"
  "su_failures (initial_summary n) = 0" "su_cancelled (initial_summary n) = False" "su_acked (initial_summary n) = 0"
  "su_generated (initial_summary n) = 0"
  by (simp_all add: initial_summary_def)

text \<open>A usable response has one known outcome for every event of the batch.\<close>

lemma http_send_outcomes:
  assumes "http_send post base token body events w = (Inr outcomes, w')"
  shows "length outcomes = length events" and "\<forall>out \<in> set outcomes. known out"
proof -
  obtain response where "classify_response events response = Inr outcomes"
    using assms by (auto simp: http_send_def split: prod.splits sum.splits)
  then obtain results :: "pyval list" where len: "length outcomes = length events"
    and each: "\<forall>i < length events. confirms (events ! i) (results ! i) (outcomes ! i)"
    unfolding classify_response_iff by blast
  show "length outcomes = length events" by (rule len)
  have "known (outcomes ! i)" if "i < length outcomes" for i
    using confirms_category(1) each that len unfolding known_def by metis
  then show "\<forall>out \<in> set outcomes. known out" by (simp add: all_set_conv_all_nth)
qed

interpretation http: traced_sender "recorded_rt rt" "recorded_send (http_send post base token)" snd
  for rt :: "'w runtime" and post base token
proof
  fix body events w outcomes w'
  assume "recorded_send (http_send post base token) body events w = (Inr outcomes, w')"
  then obtain v where "http_send post base token body events (fst w) = (Inr outcomes, v)"
    by (auto simp: recorded_send_def split: prod.splits)
  note outcomes = http_send_outcomes [OF this]
  show "length outcomes = length events" by (rule outcomes(1))
  show "\<forall>out \<in> set outcomes. known out" by (rule outcomes(2))
qed simp_all

lemma run_scenario_unfold:
  assumes "run_scenario env rt s n send emit paced w = (Inr r, w')"
  obtains started w1 bs stop su w2 where "batches env s n = Inr bs" and "rt_clock rt w = (started, w1)"
    and "run_batches env rt paced started s send emit bs (initial_summary (sc_count s)) w1 = (stop, su, w2)"
    and "finish rt started su_sent (stop, su, w2) = (r, w')"
proof -
  obtain bs where bs: "batches env s n = Inr bs" using assms by (auto simp: run_scenario_def split: sum.splits)
  obtain started w1 where c: "rt_clock rt w = (started, w1)" by (rule prod.exhaust)
  obtain stop su w2 where r: "run_batches env rt paced started s send emit bs (initial_summary (sc_count s)) w1 = (stop, su, w2)"
    by (metis prod.exhaust)
  then have "finish rt started su_sent (stop, su, w2) = (r, w')"
    using assms bs c by (simp add: run_scenario_def split: prod.splits)
  with bs c r show ?thesis by (rule that)
qed

section \<open>Delivery of readings\<close>

text \<open>Readings are published once and in order, and at most the last of them is left without an acknowledgement.\<close>

lemma pace_recorded [simp]:
  "snd (snd (pace (recorded_rt rt) paced started position s su st)) = snd st"
  by (auto simp: pace_def Let_def split: prod.splits sum.splits) (metis recorded_rt_keeps snd_conv)+

lemma run_readings_accounts:
  assumes "run_readings (recorded_rt rt) paced started s (recorded_publish publish) index es su st = (stop, su', st')"
    and "su_acked su = su_sent su" and "su_unconfirmed su = 0"
  shows "stop \<noteq> Key_error \<and> su_planned su' = su_planned su \<and> su_failures su' = su_failures su
    \<and> su_cancelled su' = su_cancelled su \<and> su_acked su' + su_unconfirmed su' = su_sent su'
    \<and> 0 \<le> su_unconfirmed su' \<and> su_unconfirmed su' \<le> 1
    \<and> (\<exists>sent. length sent \<le> length es \<and> sent = take (length sent) es \<and> snd st' = snd st @ sent
        \<and> su_sent su' = su_sent su + int (length sent)
        \<and> (stop = Completed \<longrightarrow> sent = es \<and> su_unconfirmed su' = 0))"
  using assms
proof (induction es arbitrary: su st index)
  case Nil
  then show ?case by simp
next
  case (Cons e es)
  let ?su1 = "su\<lparr>su_generated := su_generated su + 1\<rparr>"
  obtain p st1 where p: "pace (recorded_rt rt) paced started (int index) s ?su1 st = (p, st1)" by (rule prod.exhaust)
  then have st1: "snd st1 = snd st" using pace_recorded [of rt paced started "int index" s ?su1 st] by simp
  show ?case
  proof (cases p)
    case (Inl x)
    then have "stop = Stopped x" "su' = ?su1" "st' = st1" using Cons.prems(1) p by (simp_all add: Let_def)
    then show ?thesis using Cons.prems(2,3) st1 by simp
  next
    case (Inr su2)
    then obtain lag where su2: "su2 = ?su1\<lparr>su_lag := lag\<rparr>" using pace_frame [OF p [unfolded Inr]] by (elim exE)
    let ?su3 = "su2\<lparr>su_sent := su_sent su2 + 1, su_unconfirmed := su_unconfirmed su2 + 1\<rparr>"
    let ?su4 = "?su3\<lparr>su_acked := su_acked ?su3 + 1, su_unconfirmed := su_unconfirmed ?su3 - 1\<rparr>"
    obtain r st2 where r: "recorded_publish publish e st1 = (r, st2)" by (rule prod.exhaust)
    then have st2: "snd st2 = snd st @ [e]" using recorded_publish_logs [of publish e st1] st1 by simp
    show ?thesis
    proof (cases r)
      case (Inl x)
      then have "stop = Stopped x" "su' = ?su3" "st' = st2" using Cons.prems(1) p Inr r by (simp_all add: Let_def)
      then show ?thesis using Cons.prems(2,3) st2 by (auto simp: su2 intro: exI [of _ "[e]"])
    next
      case ok: (Inr u)
      then have step: "run_readings (recorded_rt rt) paced started s (recorded_publish publish) (Suc index) es ?su4 st2 = (stop, su', st')"
        using Cons.prems(1) p Inr r by (simp add: Let_def)
      have "su_acked ?su4 = su_sent ?su4" "su_unconfirmed ?su4 = 0" using Cons.prems(2,3) by (simp_all add: su2)
      from Cons.IH [OF step this] obtain sent where sent: "length sent \<le> length es" "sent = take (length sent) es"
          "snd st' = snd st2 @ sent" "su_sent su' = su_sent ?su4 + int (length sent)"
          "stop = Completed \<longrightarrow> sent = es \<and> su_unconfirmed su' = 0"
        and keep: "stop \<noteq> Key_error" "su_planned su' = su_planned ?su4" "su_failures su' = su_failures ?su4"
          "su_cancelled su' = su_cancelled ?su4" "su_acked su' + su_unconfirmed su' = su_sent su'"
          "0 \<le> su_unconfirmed su'" "su_unconfirmed su' \<le> 1"
        by blast
      show ?thesis
        by (intro conjI exI [of _ "e # sent"]) (use keep sent st2 in \<open>auto simp: su2\<close>)
    qed
  qed
qed

section \<open>Recording changes nothing\<close>

lemma pace_recorded_fst:
  "pace (recorded_rt rt) paced started position s su (w, l) =
     (case pace rt paced started position s su w of (r, w') \<Rightarrow> (r, w', l))"
  by (simp add: pace_def recorded_rt_def Let_def split: prod.split sum.split)

lemma send_one_recorded:
  "\<exists>l'. send_one (recorded_rt rt) paced started s (recorded_send send) body events su (w, l) =
     (case send_one rt paced started s send body events su w of (stop, su', w') \<Rightarrow> (stop, su', w', l'))"
  by (auto simp: send_one_def pace_recorded_fst recorded_send_def Let_def split: prod.split sum.split run_end.split)

lemma run_batches_recorded:
  "\<exists>l'. run_batches env (recorded_rt rt) paced started s (Some (recorded_send send)) emit' bs su (w, l) =
     (case run_batches env rt paced started s (Some send) emit bs su w of (stop, su', w') \<Rightarrow> (stop, su', w', l'))"
proof (induction bs arbitrary: su w l)
  case (Cons batch rest)
  let ?su = "su\<lparr>su_generated := su_generated su + int (length batch)\<rparr>"
  show ?case
  proof (cases "encode_batch env batch")
    case (Some body)
    obtain stop su1 w1 where one: "send_one rt paced started s send body batch ?su w = (stop, su1, w1)" by (metis prod.exhaust)
    then obtain l1 where "send_one (recorded_rt rt) paced started s (recorded_send send) body batch ?su (w, l) = (stop, su1, w1, l1)"
      using send_one_recorded [of rt paced started s send body batch ?su w l] by auto
    with one Some Cons.IH [of su1 w1 l1] show ?thesis by (cases stop) (simp_all add: Let_def)
  qed (simp add: Let_def)
qed simp

lemma finish_recorded_fst:
  "finish (recorded_rt rt) started confirmed (stop, su, w, l) =
     (case finish rt started confirmed (stop, su, w) of (r, w') \<Rightarrow> (r, w', l))"
  by (simp add: finish_def recorded_rt_def Let_def split: prod.split)

lemma run_scenario_recorded:
  "\<exists>l'. run_scenario env (recorded_rt rt) s n (Some (recorded_send send)) emit' paced (w, l) =
     (case run_scenario env rt s n (Some send) emit paced w of (r, w') \<Rightarrow> (r, w', l'))"
proof (cases "batches env s n")
  case (Inr bs)
  obtain started w1 where c: "rt_clock rt w = (started, w1)" by (rule prod.exhaust)
  then have c': "rt_clock (recorded_rt rt) (w, l) = (started, w1, l)" by (simp add: recorded_rt_def)
  obtain stop su w2 where r: "run_batches env rt paced started s (Some send) emit bs (initial_summary (sc_count s)) w1 = (stop, su, w2)"
    by (metis prod.exhaust)
  then obtain l2 where "run_batches env (recorded_rt rt) paced started s (Some (recorded_send send)) emit' bs
      (initial_summary (sc_count s)) (w1, l) = (stop, su, w2, l2)"
    using run_batches_recorded [of env rt paced started s send emit' bs "initial_summary (sc_count s)" w1 l emit] by auto
  with Inr c c' r show ?thesis by (auto simp: run_scenario_def finish_recorded_fst split: prod.split)
qed (simp add: run_scenario_def)

lemma run_readings_recorded:
  "\<exists>l'. run_readings (recorded_rt rt) paced started s (recorded_publish publish) index es su (w, l) =
     (case run_readings rt paced started s publish index es su w of (stop, su', w') \<Rightarrow> (stop, su', w', l'))"
proof (induction es arbitrary: su w l index)
  case (Cons e es)
  let ?su = "su\<lparr>su_generated := su_generated su + 1\<rparr>"
  obtain p w1 where p: "pace rt paced started (int index) s ?su w = (p, w1)" by (rule prod.exhaust)
  show ?case
  proof (cases p)
    case (Inr su2)
    obtain r w2 where r: "publish e w1 = (r, w2)" by (rule prod.exhaust)
    then have "recorded_publish publish e (w1, l) = (r, w2, l @ [e])" by (simp add: recorded_publish_def)
    with p Inr r show ?thesis by (cases r) (simp_all add: pace_recorded_fst Let_def Cons.IH)
  qed (use p in \<open>simp add: pace_recorded_fst Let_def\<close>)
qed simp

lemma run_mqtt_recorded:
  "\<exists>l'. run_mqtt_scenario env (recorded_rt rt) s (recorded_publish publish) paced (w, l) =
     (case run_mqtt_scenario env rt s publish paced w of (r, w') \<Rightarrow> (r, w', l'))"
proof -
  obtain started w1 where c: "rt_clock rt w = (started, w1)" by (rule prod.exhaust)
  then have c': "rt_clock (recorded_rt rt) (w, l) = (started, w1, l)" by (simp add: recorded_rt_def)
  obtain stop su w2 where r: "run_readings rt paced started s publish 0 (generate_events env s) (initial_summary (sc_count s)) w1
    = (stop, su, w2)" by (metis prod.exhaust)
  then obtain l2 where "run_readings (recorded_rt rt) paced started s (recorded_publish publish) 0 (generate_events env s)
      (initial_summary (sc_count s)) (w1, l) = (stop, su, w2, l2)"
    using run_readings_recorded [of rt paced started s publish 0 "generate_events env s" "initial_summary (sc_count s)" w1 l] by auto
  with c c' r show ?thesis by (auto simp: run_mqtt_scenario_def finish_recorded_fst split: prod.split)
qed

lemma http_figures:
  assumes "scenario_ok s"
    and "run_scenario env (recorded_rt rt) s n (Some (recorded_send (http_send post base token))) emit paced (w, []) = (Inr r, w', sent)"
  shows "\<exists>su a d k. r = Some su
    \<and> sent = take (length sent) (chunks (nat n) (generate_events env s))
    \<and> su_sent su = int (length (concat sent)) \<and> su_sent su + su_unsent su = sc_count s
    \<and> su_counts su = [''accepted'' \<mapsto> a, ''duplicate'' \<mapsto> d, ''rejected'' \<mapsto> k] \<and> 0 \<le> a \<and> 0 \<le> d \<and> 0 \<le> k
    \<and> a + d + k + su_unconfirmed su = su_sent su \<and> k = (\<Sum>x \<in> dom (su_reasons su). the (su_reasons su x))
    \<and> 0 \<le> su_unconfirmed su \<and> su_unconfirmed su \<le> n
    \<and> (simulate_exit Http_mode su = 0 \<longrightarrow>
         concat sent = generate_events env s \<and> su_unsent su = 0 \<and> k = 0 \<and> a + d = sc_count s)"
proof -
  obtain started w1 bs stop su w2 where bs: "batches env s n = Inr bs"
    and clock: "rt_clock (recorded_rt rt) (w, []) = (started, w1)"
    and run: "run_batches env (recorded_rt rt) paced started s (Some (recorded_send (http_send post base token))) emit bs
      (initial_summary (sc_count s)) w1 = (stop, su, w2)"
    and fin: "finish (recorded_rt rt) started su_sent (stop, su, w2) = (r, w', sent)"
    using run_scenario_unfold [OF assms(2)] by metis
  have n: "1 \<le> n" and bs_eq: "bs = chunks (nat n) (generate_events env s)"
    using bs by (auto simp: batches_def integer_Inr)
  have gen: "length (generate_events env s) = nat (sc_count s)" "0 \<le> sc_count s"
    using assms(1) by (simp_all add: scenario_ok_def generate_events_eq)
  have w1: "snd w1 = []" using arg_cong [OF clock, of "\<lambda>x. snd (snd x)"] by simp
  note accounts = http.run_batches_accounts [OF run, unfolded initial_summary_simps, OF booked_initial refl]
  from accounts obtain ds where
    keep: "stop \<noteq> Key_error" "su_planned su = sc_count s" "su_failures su = 0" "\<not> su_cancelled su"
      "booked su (su_sent su - su_unconfirmed su)"
    and ds: "length ds \<le> length bs" "ds = take (length ds) bs" "snd w2 = ds" "su_sent su = int (length (concat ds))"
      "su_unconfirmed su = 0 \<or> ds \<noteq> [] \<and> su_unconfirmed su = int (length (last ds))"
      "stop = Completed \<longrightarrow> ds = bs \<and> su_unconfirmed su = 0"
    unfolding w1 append_Nil add_0 by blast
  obtain a d k where books: "su_counts su = [''accepted'' \<mapsto> a, ''duplicate'' \<mapsto> d, ''rejected'' \<mapsto> k]" "0 \<le> a" "0 \<le> d" "0 \<le> k"
    "a + d + k = su_sent su - su_unconfirmed su" "k = reason_total (su_reasons su)"
    using booked_counts [OF keep(5)] by metis
  obtain su' where su': "r = Some su'" "sent = snd w2" "su_sent su' = su_sent su" "su_unconfirmed su' = su_unconfirmed su"
    "su_counts su' = su_counts su" "su_reasons su' = su_reasons su" "su_unsent su' = sc_count s - su_sent su"
    using finish_recorded [OF keep(1) fin] keep(2) by metis
  have sent: "sent = ds" using su'(2) ds(3) by simp
  have "length (last ds) \<le> nat n" if "ds \<noteq> []"
  proof -
    have "last ds \<in> set bs" using that ds(2) last_in_set set_take_subset by (metis subsetD)
    then show ?thesis using chunks_size [of "nat n" "last ds"] n unfolding bs_eq by simp
  qed
  then have bound: "0 \<le> su_unconfirmed su \<and> su_unconfirmed su \<le> n" using ds(5) n by auto
  have success: "concat sent = generate_events env s \<and> su_unsent su' = 0 \<and> k = 0 \<and> a + d = sc_count s"
    if zero: "simulate_exit Http_mode su' = 0"
  proof -
    note z = exit_zero [OF keep(1,4,3) fin [unfolded su'(1)] zero]
    have "concat ds = generate_events env s" using ds(6) z(1) n by (simp add: bs_eq concat_chunks)
    moreover have "k = 0" using z(3) books(1) by simp
    ultimately show ?thesis using ds(4) z(2) books(5) gen su'(7) by (simp add: sent)
  qed
  have figures: "sent = take (length sent) (chunks (nat n) (generate_events env s))"
    "su_sent su' = int (length (concat sent))" "su_sent su' + su_unsent su' = sc_count s"
    "su_counts su' = [''accepted'' \<mapsto> a, ''duplicate'' \<mapsto> d, ''rejected'' \<mapsto> k]"
    "a + d + k + su_unconfirmed su' = su_sent su'" "k = (\<Sum>x \<in> dom (su_reasons su'). the (su_reasons su' x))"
    "0 \<le> su_unconfirmed su'" "su_unconfirmed su' \<le> n"
    using ds(2,4) books(1,5,6) su' bound by (simp_all add: sent bs_eq reason_total_def)
  show ?thesis
    by (intro exI [of _ su'] exI [of _ a] exI [of _ d] exI [of _ k] conjI su'(1) figures books(2-4) impI success)
qed

lemma mqtt_figures:
  fixes w :: 'w
  assumes "scenario_ok s"
    and "run_mqtt_scenario env (recorded_rt rt) s (recorded_publish publish) paced (w, []) = (r, w', sent)"
  shows "\<exists>su. r = Some su \<and> sent = take (length sent) (generate_events env s)
    \<and> su_sent su = int (length sent) \<and> su_sent su + su_unsent su = sc_count s
    \<and> su_acked su + su_unconfirmed su = su_sent su \<and> 0 \<le> su_unconfirmed su \<and> su_unconfirmed su \<le> 1
    \<and> (simulate_exit Mqtt_mode su = 0 \<longrightarrow>
         sent = generate_events env s \<and> su_unsent su = 0 \<and> su_acked su = sc_count s)"
proof -
  obtain started and w1 :: "'w \<times> event_dict list"
    where clock: "rt_clock (recorded_rt rt) (w, []) = (started, w1)" by (rule prod.exhaust)
  obtain stop su w2 where run: "run_readings (recorded_rt rt) paced started s (recorded_publish publish) 0 (generate_events env s)
      (initial_summary (sc_count s)) w1 = (stop, su, w2)" by (metis prod.exhaust)
  then have fin: "finish (recorded_rt rt) started su_acked (stop, su, w2) = (r, w', sent)"
    using assms(2) clock by (simp add: run_mqtt_scenario_def)
  have gen: "length (generate_events env s) = nat (sc_count s)" "0 \<le> sc_count s"
    using assms(1) by (simp_all add: scenario_ok_def generate_events_eq)
  have w1: "snd w1 = []" using arg_cong [OF clock, of "\<lambda>x. snd (snd x)"] by simp
  note accounts = run_readings_accounts [OF run, unfolded initial_summary_simps, OF refl refl]
  from accounts obtain ds where
    keep: "stop \<noteq> Key_error" "su_planned su = sc_count s" "su_failures su = 0" "\<not> su_cancelled su"
      "su_acked su + su_unconfirmed su = su_sent su" "0 \<le> su_unconfirmed su" "su_unconfirmed su \<le> 1"
    and ds: "ds = take (length ds) (generate_events env s)" "snd w2 = ds" "su_sent su = int (length ds)"
      "stop = Completed \<longrightarrow> ds = generate_events env s \<and> su_unconfirmed su = 0"
    unfolding w1 append_Nil add_0 by blast
  obtain su' where su': "r = Some su'" "sent = snd w2" "su_sent su' = su_sent su" "su_acked su' = su_acked su"
    "su_unconfirmed su' = su_unconfirmed su" "su_unsent su' = sc_count s - su_sent su"
    using finish_recorded [OF keep(1) fin] keep(2) by metis
  have success: "sent = generate_events env s \<and> su_unsent su' = 0 \<and> su_acked su' = sc_count s"
    if zero: "simulate_exit Mqtt_mode su' = 0"
  proof -
    have "stop = Completed" by (rule exit_zero(1) [OF keep(1,4,3) fin [unfolded su'(1)] zero])
    then show ?thesis using ds keep(5) gen su' by simp
  qed
  have figures: "sent = take (length sent) (generate_events env s)" "su_sent su' = int (length sent)"
    "su_sent su' + su_unsent su' = sc_count s" "su_acked su' + su_unconfirmed su' = su_sent su'"
    "0 \<le> su_unconfirmed su'" "su_unconfirmed su' \<le> 1"
    using ds(1,3) keep(5-7) su' by (simp_all add: ds(2))
  show ?thesis by (intro exI [of _ su'] conjI su'(1) figures impI success)
qed

section \<open>Properties\<close>

text \<open>
  C26. An HTTP run accounts for every reading. It hands the batches of the scenario to the sender once and in order, up
  to the one that stops it. What was sent is confirmed under exactly one category or unconfirmed, at most the last
  batch is unconfirmed, the reasons add up to the rejections, and the rest is unsent. Exit status 0 means that every
  batch was sent and every reading was confirmed as accepted or duplicate.
\<close>
theorem http_run_accounts:
  assumes "constructed env s"
    and "run_scenario env (recorded_rt rt) s n (Some (recorded_send (http_send post base token))) emit paced (w, []) = (Inr r, w', sent)"
  shows "\<exists>su a d k. r = Some su
    \<and> sent = take (length sent) (chunks (nat n) (generate_events env s))
    \<and> su_sent su = int (length (concat sent)) \<and> su_sent su + su_unsent su = sc_count s
    \<and> su_counts su = [''accepted'' \<mapsto> a, ''duplicate'' \<mapsto> d, ''rejected'' \<mapsto> k] \<and> 0 \<le> a \<and> 0 \<le> d \<and> 0 \<le> k
    \<and> a + d + k + su_unconfirmed su = su_sent su \<and> k = (\<Sum>x \<in> dom (su_reasons su). the (su_reasons su x))
    \<and> 0 \<le> su_unconfirmed su \<and> su_unconfirmed su \<le> n
    \<and> (simulate_exit Http_mode su = 0 \<longrightarrow>
         concat sent = generate_events env s \<and> su_unsent su = 0 \<and> k = 0 \<and> a + d = sc_count s)"
  by (rule http_figures [OF constructedD(2) [OF assms(1)] assms(2)])

definition demo_rt :: "unit runtime" where
  "demo_rt = \<lparr>rt_clock = (\<lambda>w. (Finite 0, w)), rt_sleep = (\<lambda>t w. (Inr (), w))\<rparr>"

text \<open>A server that answers every batch with the same response.\<close>

definition demo_post :: "pyval \<Rightarrow> string \<Rightarrow> string \<Rightarrow> raw_json \<Rightarrow> unit \<Rightarrow> (interruption, pyval) result \<times> unit" where
  "demo_post response url token body w = (Inr response, w)"

theorem http_run_accounts_witness:
  "\<exists>su sent. run_scenario demo_sim (recorded_rt demo_rt) demo_scenario 2
       (Some (recorded_send (http_send (demo_post PNone) ''http://127.0.0.1:8000/api'' ''token''))) None True ((), [])
       = (Inr (Some su), (), sent)
     \<and> sent = take (length sent) (chunks 2 (generate_events demo_sim demo_scenario)) \<and> su_sent su + su_unsent su = 3"
proof -
  let ?send = "Some (recorded_send (http_send (demo_post PNone) ''http://127.0.0.1:8000/api'' ''token''))"
  obtain bs where "batches demo_sim demo_scenario 2 = Inr bs" by (auto simp: batches_def integer_def)
  then have "\<exists>r p. run_scenario demo_sim (recorded_rt demo_rt) demo_scenario 2 ?send None True ((), []) = (Inr r, p)"
    by (simp add: run_scenario_def split: prod.split)
  then obtain r w sent where run: "run_scenario demo_sim (recorded_rt demo_rt) demo_scenario 2 ?send None True ((), []) = (Inr r, w, sent)"
    by (metis prod.exhaust)
  from http_run_accounts [OF demo_constructed run] run show ?thesis by (auto simp: demo_scenario_def)
qed

text \<open>
  C27. An MQTT run accounts for every reading. It publishes the readings of the scenario once and in order, up to the
  one that stops it. A published reading is acknowledged or, for at most the last one, unconfirmed, and the rest is
  unsent. Exit status 0 means that the broker acknowledged every reading of the scenario.
\<close>
theorem mqtt_run_accounts:
  fixes w :: 'w
  assumes "constructed env s"
    and "run_mqtt_scenario env (recorded_rt rt) s (recorded_publish publish) paced (w, []) = (r, w', sent)"
  shows "\<exists>su. r = Some su \<and> sent = take (length sent) (generate_events env s)
    \<and> su_sent su = int (length sent) \<and> su_sent su + su_unsent su = sc_count s
    \<and> su_acked su + su_unconfirmed su = su_sent su \<and> 0 \<le> su_unconfirmed su \<and> su_unconfirmed su \<le> 1
    \<and> (simulate_exit Mqtt_mode su = 0 \<longrightarrow>
         sent = generate_events env s \<and> su_unsent su = 0 \<and> su_acked su = sc_count s)"
  by (rule mqtt_figures [OF constructedD(2) [OF assms(1)] assms(2)])

theorem mqtt_run_accounts_witness:
  "\<exists>su sent. run_mqtt_scenario demo_sim (recorded_rt demo_rt) demo_scenario (recorded_publish (\<lambda>event w. (Inr (), w))) False ((), [])
       = (Some su, (), sent)
     \<and> sent = take (length sent) (generate_events demo_sim demo_scenario) \<and> su_sent su + su_unsent su = 3"
proof -
  let ?publish = "recorded_publish (\<lambda>event w. (Inr (), w))"
  obtain r w sent where run: "run_mqtt_scenario demo_sim (recorded_rt demo_rt) demo_scenario ?publish False ((), []) = (r, w, sent)"
    by (metis prod.exhaust)
  from mqtt_run_accounts [OF demo_constructed run] run show ?thesis by (auto simp: demo_scenario_def)
qed

end
