(* ===== verification/Simulate_Main.thy ===== *)
theory Simulate_Main
  imports Run_Accounts
begin

text \<open>
  The command line of \<open>simulator/simulate.py\<close>: validation of the arguments, choice of the transport, delivery and
  exit status. The options are given as argparse leaves them, the start time as \<open>fromisoformat\<close> does.
\<close>

section \<open>Arguments and environment\<close>

record sim_args =
  sa_device_id :: string
  sa_run_id :: string
  sa_boot_id :: "string option"
  sa_seed :: int
  sa_count :: int
  sa_interval_ms :: int
  sa_start_time :: "py_datetime option"
  sa_reboot_every :: int
  sa_profile :: temperature_profile
  sa_batch_size :: int
  sa_mode :: run_mode
  sa_fast :: bool
  sa_api_base_url :: "string option"
  sa_mqtt_host :: string
  sa_mqtt_port :: int
  sa_mqtt_username :: "string option"
  sa_mqtt_password_file :: "string option"
  sa_timeout :: py_number

text \<open>\<open>me_read\<close> is the content of the password file, if it can be read; \<open>me_paho\<close> says whether the client is installed.\<close>

record 'w main_env =
  me_rt :: "'w runtime"
  me_print :: "raw_json \<Rightarrow> 'w \<Rightarrow> (interruption, unit) result \<times> 'w"
  me_split :: "string \<Rightarrow> url_parts option"
  me_post :: "string \<Rightarrow> string \<Rightarrow> raw_json \<Rightarrow> 'w \<Rightarrow> (interruption, pyval) result \<times> 'w"
  me_token :: string
  me_read :: "string \<Rightarrow> string option"
  me_paho :: bool
  me_client :: "string \<Rightarrow> string \<Rightarrow> 'w mqtt_client"

definition or_default :: "string option \<Rightarrow> string \<Rightarrow> string" where
  "or_default v d = (case v of None \<Rightarrow> d | Some s \<Rightarrow> if s = '''' then d else s)"

text \<open>The defaults of the options, in an environment without the variables they fall back on.\<close>

definition default_args :: "string \<Rightarrow> string \<Rightarrow> sim_args" where
  "default_args device_id run_id = \<lparr>sa_device_id = device_id, sa_run_id = run_id, sa_boot_id = None, sa_seed = 0,
     sa_count = 10, sa_interval_ms = 1000, sa_start_time = Some (DT 63902908800000000 (Some 0)), sa_reboot_every = 0,
     sa_profile = \<lparr>pr_kind = ''constant'', pr_temperature = Finite 25, pr_step = round64 (1 / 10),
       pr_amplitude = Finite 5, pr_period = 60, pr_noise = Finite 0\<rparr>,
     sa_batch_size = 100, sa_mode = Generate_mode, sa_fast = False, sa_api_base_url = None,
     sa_mqtt_host = ''127.0.0.1'', sa_mqtt_port = 1883, sa_mqtt_username = None, sa_mqtt_password_file = None,
     sa_timeout = Finite 30\<rparr>"

definition base_url_of :: "sim_args \<Rightarrow> string" where
  "base_url_of a = or_default (sa_api_base_url a) ''http://127.0.0.1:8000/api''"

definition mqtt_username_of :: "sim_args \<Rightarrow> string" where
  "mqtt_username_of a = or_default (sa_mqtt_username a) (sa_device_id a)"

section \<open>The checks before anything is delivered\<close>

definition args_scenario :: "sim_env \<Rightarrow> sim_args \<Rightarrow> (string, scenario) result" where
  "args_scenario env a =
     (case sa_start_time a of
        None \<Rightarrow> Inl ''Invalid isoformat string''
      | Some start \<Rightarrow>
          res_bind (TemperatureProfile (sa_profile a)) (\<lambda>profile.
            Scenario env \<lparr>sc_device_id = sa_device_id a, sc_run_id = sa_run_id a, sc_boot_id = sa_boot_id a,
              sc_seed = sa_seed a, sc_count = sa_count a, sc_interval_ms = sa_interval_ms a, sc_start_time = start,
              sc_reboot_every = sa_reboot_every a, sc_profile = profile\<rparr>))"

definition check_timeout :: "py_number \<Rightarrow> (string, unit) result" where
  "check_timeout t =
     (if \<not> isfinite t \<or> \<not> (fless (Finite 0) t \<and> \<not> fless (Finite 300) t)
      then Inl ''timeout must be finite and between 0 (exclusive) and 300'' else Inr ())"

definition check_target :: "'w main_env \<Rightarrow> sim_args \<Rightarrow> (string, string option) result" where
  "check_target me a =
     (case sa_mode a of
        Generate_mode \<Rightarrow> Inr None
      | Http_mode \<Rightarrow> res_bind (validate_target (me_split me) (base_url_of a) (me_token me)) (\<lambda>_. Inr None)
      | Mqtt_mode \<Rightarrow>
          (case sa_mqtt_password_file a of
             None \<Rightarrow> Inl ''MQTT_PASSWORD_FILE or --mqtt-password-file is required''
           | Some file \<Rightarrow>
               res_bind (validate_mqtt_target (sa_device_id a) (sa_mqtt_host a) (sa_mqtt_port a) (mqtt_username_of a) (me_read me file))
                 (\<lambda>password. Inr (Some password))))"

definition check_args :: "sim_env \<Rightarrow> 'w main_env \<Rightarrow> sim_args \<Rightarrow> (string, scenario \<times> string option) result" where
  "check_args env me a =
     res_bind (args_scenario env a) (\<lambda>s.
       res_bind (integer (sa_batch_size a) ''batch_size'' 1 500) (\<lambda>_.
         res_bind (check_timeout (sa_timeout a)) (\<lambda>_.
           res_bind (check_target me a) (\<lambda>password. Inr (s, password)))))"

section \<open>The run\<close>

text \<open>The clock and the sleep do not touch the rest of the state, here that of the MQTT publisher.\<close>

definition publisher_rt :: "'w runtime \<Rightarrow> ('p \<times> 'w) runtime" where
  "publisher_rt rt = \<lparr>rt_clock = (\<lambda>st. case rt_clock rt (snd st) of (t, w) \<Rightarrow> (t, fst st, w)),
     rt_sleep = (\<lambda>t st. case rt_sleep rt t (snd st) of (r, w) \<Rightarrow> (r, fst st, w))\<rparr>"

text \<open>How the process ends: a usage error (status 2), a summary and its status, or an exception that is not caught.\<close>

datatype main_end = Usage string | Ran summary nat | Uncaught

definition ran :: "run_mode \<Rightarrow> summary option \<Rightarrow> main_end" where
  "ran mode r = (case r of None \<Rightarrow> Uncaught | Some su \<Rightarrow> Ran su (simulate_exit mode su))"

definition run_mqtt :: "sim_env \<Rightarrow> 'w main_env \<Rightarrow> sim_args \<Rightarrow> scenario \<Rightarrow> string \<Rightarrow> 'w \<Rightarrow> main_end \<times> 'w" where
  "run_mqtt env me a s password w =
     (if \<not> me_paho me
      then (Usage ''MQTT mode requires paho-mqtt; install simulator/requirements.txt'', w)
      else (let client = me_client me (mqtt_username_of a) password;
                (r, st) = run_mqtt_scenario env (publisher_rt (me_rt me)) s (mqtt_publish env client) (\<not> sa_fast a) (False, w)
            in (ran Mqtt_mode r, snd (close_publisher client st))))"

definition simulate_main :: "sim_env \<Rightarrow> 'w main_env \<Rightarrow> sim_args \<Rightarrow> 'w \<Rightarrow> main_end \<times> 'w" where
  "simulate_main env me a w =
     (case check_args env me a of
        Inl message \<Rightarrow> (Usage message, w)
      | Inr (s, password) \<Rightarrow>
          if sa_mode a = Mqtt_mode then run_mqtt env me a s (the password) w
          else (let send = (if sa_mode a = Http_mode then Some (http_send (me_post me) (base_url_of a) (me_token me)) else None)
                in case run_scenario env (me_rt me) s (sa_batch_size a) send (Some (me_print me)) (\<not> sa_fast a) w of
                     (Inl message, w') \<Rightarrow> (Uncaught, w')
                   | (Inr r, w') \<Rightarrow> (ran (sa_mode a) r, w')))"

section \<open>Properties\<close>

lemma run_batches_emitted:
  assumes "run_batches env rt paced started s None emit bs su w = (stop, su', w')"
  shows "stop \<noteq> Key_error \<and> su_cancelled su' = su_cancelled su \<and> su_failures su' = su_failures su
    \<and> su_planned su' = su_planned su
    \<and> (stop = Completed \<longrightarrow> su_emitted su' = su_emitted su + int (length (concat bs)))"
  using assms
proof (induction bs arbitrary: su w)
  case (Cons batch rest)
  let ?su = "su\<lparr>su_generated := su_generated su + int (length batch)\<rparr>"
  show ?case
  proof (cases "encode_batch env batch")
    case (Some body)
    obtain stop1 su1 w1 where one: "emit_one emit body (int (length batch)) ?su w = (stop1, su1, w1)" by (metis prod.exhaust)
    then have acc: "stop1 \<noteq> Key_error" "su_cancelled su1 = su_cancelled su" "su_failures su1 = su_failures su"
      "su_planned su1 = su_planned su" "stop1 = Completed \<Longrightarrow> su_emitted su1 = su_emitted su + int (length batch)"
      by (auto simp: emit_one_def split: option.splits prod.splits sum.splits)
    show ?thesis
    proof (cases "stop1 = Completed")
      case True
      then have "run_batches env rt paced started s None emit rest su1 w1 = (stop, su', w')"
        using Cons.prems one Some by (simp add: Let_def)
      from Cons.IH [OF this] acc True show ?thesis by simp
    next
      case False
      then have "stop = stop1" "su' = su1" using Cons.prems one Some by (cases stop1; simp add: Let_def)+
      with acc False show ?thesis by simp
    qed
  qed (use Cons.prems in \<open>auto simp: Let_def\<close>)
qed simp

lemma exit_values: "simulate_exit mode su \<in> {0, 1, 130}" "simulate_exit mode su = 130 \<longleftrightarrow> su_cancelled su"
  by (simp_all add: simulate_exit_def Let_def)

lemma generate_figures:
  assumes "scenario_ok s" and "run_scenario env rt s n None emit paced w = (Inr r, w')"
  shows "\<exists>su. r = Some su \<and> (simulate_exit Generate_mode su = 0 \<longrightarrow> su_emitted su = sc_count s)"
proof -
  obtain started w1 bs stop su w2 where bs: "batches env s n = Inr bs"
    and run: "run_batches env rt paced started s None emit bs (initial_summary (sc_count s)) w1 = (stop, su, w2)"
    and fin: "finish rt started su_sent (stop, su, w2) = (r, w')"
    using run_scenario_unfold [OF assms(2)] by metis
  have "concat bs = generate_events env s" using bs by (auto simp: batches_def integer_Inr concat_chunks)
  moreover have "length (generate_events env s) = nat (sc_count s)" "0 \<le> sc_count s"
    using assms(1) by (simp_all add: scenario_ok_def generate_events_eq)
  ultimately have keep: "stop \<noteq> Key_error" "\<not> su_cancelled su" "su_failures su = 0" "stop = Completed \<Longrightarrow> su_emitted su = sc_count s"
    using run_batches_emitted [OF run] by (simp_all add: initial_summary_def)
  obtain su' where su': "r = Some su'" "su_emitted su' = su_emitted su"
    using finish_frame [OF keep(1), of rt started su_sent su w2] fin by auto
  have "su_emitted su' = sc_count s" if "simulate_exit Generate_mode su' = 0"
    using exit_zero(1) [OF keep(1-3) fin [unfolded su'(1)] that] keep(4) su'(2) by simp
  with su'(1) show ?thesis by simp
qed

lemma check_args_Inr:
  assumes "check_args env me a = Inr (s, password)"
  obtains s0 where "Scenario env s0 = Inr s" and "sc_count s0 = sa_count a" and "sc_profile s0 = sa_profile a"
    and "TemperatureProfile (sa_profile a) = Inr (sa_profile a)" and "1 \<le> sa_batch_size a" and "sa_batch_size a \<le> 500"
proof -
  obtain start p where "sa_start_time a = Some start" and p: "TemperatureProfile (sa_profile a) = Inr p"
    and s: "Scenario env \<lparr>sc_device_id = sa_device_id a, sc_run_id = sa_run_id a, sc_boot_id = sa_boot_id a,
              sc_seed = sa_seed a, sc_count = sa_count a, sc_interval_ms = sa_interval_ms a, sc_start_time = start,
              sc_reboot_every = sa_reboot_every a, sc_profile = p\<rparr> = Inr s"
    and size: "1 \<le> sa_batch_size a" "sa_batch_size a \<le> 500"
    using assms by (auto simp: check_args_def args_scenario_def integer_Inr split: option.splits)
  moreover have "p = sa_profile a" using p by (auto simp: TemperatureProfile_def split: if_splits)
  ultimately show ?thesis by (intro that [OF s]) simp_all
qed

lemma check_args_ok:
  assumes "check_args env me a = Inr (s, password)"
  shows "scenario_ok s" and "1 \<le> sa_batch_size a" and "sa_batch_size a \<le> 500" and "sc_count s = sa_count a"
proof -
  obtain s0 where s0: "Scenario env s0 = Inr s" "sc_count s0 = sa_count a" "1 \<le> sa_batch_size a" "sa_batch_size a \<le> 500"
    by (rule check_args_Inr [OF assms])
  show "1 \<le> sa_batch_size a" "sa_batch_size a \<le> 500" by (rule s0)+
  show "scenario_ok s" by (rule Scenario_InrD(1) [OF s0(1)])
  have "sc_count s = sc_count (s0\<lparr>sc_start_time := sc_start_time s\<rparr>)"
    by (rule arg_cong [OF Scenario_InrD(2) [OF s0(1)]])
  then show "sc_count s = sa_count a" using s0(2) by simp
qed

lemma main_http:
  assumes "check_args env me a = Inr (s, password)" and "sa_mode a = Http_mode"
  shows "\<exists>su w'. simulate_main env me a w = (Ran su (simulate_exit Http_mode su), w')
    \<and> (simulate_exit Http_mode su = 0 \<longrightarrow>
         the (su_counts su ''accepted'') + the (su_counts su ''duplicate'') = sc_count s)"
proof -
  let ?send = "http_send (me_post me) (base_url_of a) (me_token me)" and ?paced = "\<not> sa_fast a"
  note ok = check_args_ok(1) [OF assms(1)] and size = check_args_ok(2,3) [OF assms(1)]
  have "\<exists>bs. batches env s (sa_batch_size a) = Inr bs" using size by (simp add: batches_def integer_def)
  then have "\<exists>r v. run_scenario env (me_rt me) s (sa_batch_size a) (Some ?send) (Some (me_print me)) ?paced w = (Inr r, v)"
    by (auto simp: run_scenario_def split: prod.split)
  then obtain r w' where run: "run_scenario env (me_rt me) s (sa_batch_size a) (Some ?send) (Some (me_print me)) ?paced w = (Inr r, w')"
    by blast
  then obtain l where "run_scenario env (recorded_rt (me_rt me)) s (sa_batch_size a) (Some (recorded_send ?send)) None ?paced (w, [])
      = (Inr r, w', l)"
    using run_scenario_recorded [of env "me_rt me" s "sa_batch_size a" ?send None ?paced w "[]" "Some (me_print me)"] by auto
  from http_figures [OF ok this] obtain su where "r = Some su"
    "simulate_exit Http_mode su = 0 \<longrightarrow> the (su_counts su ''accepted'') + the (su_counts su ''duplicate'') = sc_count s"
    by auto
  with assms run show ?thesis by (simp add: simulate_main_def ran_def)
qed

lemma main_mqtt:
  assumes "check_args env me a = Inr (s, password)" and "sa_mode a = Mqtt_mode" and "me_paho me"
  shows "\<exists>su w'. simulate_main env me a w = (Ran su (simulate_exit Mqtt_mode su), w')
    \<and> (simulate_exit Mqtt_mode su = 0 \<longrightarrow> su_acked su = sc_count s)"
proof -
  let ?rt = "publisher_rt (me_rt me)" and ?paced = "\<not> sa_fast a"
  let ?client = "me_client me (mqtt_username_of a) (the password)"
  note ok = check_args_ok(1) [OF assms(1)]
  obtain r st where run: "run_mqtt_scenario env ?rt s (mqtt_publish env ?client) ?paced (False, w) = (r, st)" by (rule prod.exhaust)
  then obtain l where "run_mqtt_scenario env (recorded_rt ?rt) s (recorded_publish (mqtt_publish env ?client)) ?paced ((False, w), [])
      = (r, st, l)"
    using run_mqtt_recorded [of env ?rt s "mqtt_publish env ?client" ?paced "(False, w)" "[]"] by auto
  from mqtt_figures [OF ok this] obtain su where "r = Some su" "simulate_exit Mqtt_mode su = 0 \<longrightarrow> su_acked su = sc_count s" by auto
  with assms run show ?thesis by (simp add: simulate_main_def run_mqtt_def ran_def)
qed

lemma main_generate:
  assumes "check_args env me a = Inr (s, password)" and "sa_mode a = Generate_mode"
  shows "\<exists>su w'. simulate_main env me a w = (Ran su (simulate_exit Generate_mode su), w')
    \<and> (simulate_exit Generate_mode su = 0 \<longrightarrow> su_emitted su = sc_count s)"
proof -
  let ?paced = "\<not> sa_fast a"
  note ok = check_args_ok(1) [OF assms(1)] and size = check_args_ok(2,3) [OF assms(1)]
  have "\<exists>bs. batches env s (sa_batch_size a) = Inr bs" using size by (simp add: batches_def integer_def)
  then have "\<exists>r v. run_scenario env (me_rt me) s (sa_batch_size a) None (Some (me_print me)) ?paced w = (Inr r, v)"
    by (auto simp: run_scenario_def split: prod.split)
  then obtain r w' where run: "run_scenario env (me_rt me) s (sa_batch_size a) None (Some (me_print me)) ?paced w = (Inr r, w')"
    by blast
  from generate_figures [OF ok run] obtain su where su: "r = Some su" "simulate_exit Generate_mode su = 0 \<longrightarrow> su_emitted su = sc_count s"
    by (elim exE conjE) (rule that)
  have "simulate_main env me a w = (Ran su (simulate_exit Generate_mode su), w')"
    using assms run su(1) by (simp add: simulate_main_def ran_def)
  with su(2) show ?thesis by (intro exI conjI)
qed


definition demo_args :: sim_args where
  "demo_args = \<lparr>sa_device_id = ''d1'', sa_run_id = ''run-1'', sa_boot_id = Some ''boot-a'', sa_seed = 0, sa_count = 3,
     sa_interval_ms = 1000, sa_start_time = Some (DT 63902908800000000 (Some 0)), sa_reboot_every = 2,
     sa_profile = demo_profile, sa_batch_size = 2, sa_mode = Mqtt_mode, sa_fast = True, sa_api_base_url = None,
     sa_mqtt_host = ''localhost'', sa_mqtt_port = 1883, sa_mqtt_username = None, sa_mqtt_password_file = None,
     sa_timeout = Finite 30\<rparr>"

definition demo_main :: "unit main_env" where
  "demo_main = \<lparr>me_rt = demo_rt, me_print = (\<lambda>body w. (Inr (), w)), me_split = (\<lambda>url. None), me_post = demo_post PNone,
     me_token = '''', me_read = (\<lambda>file. None), me_paho = True,
     me_client = (\<lambda>user password. \<lparr>mc_connect = (\<lambda>w. (Inr 0, w)), mc_wait = (\<lambda>w. (Inr (Some 0), w)),
       mc_publish = (\<lambda>topic body w. (Inr 0, w)), mc_acked = (\<lambda>w. (Inr True, w)), mc_disconnect = (\<lambda>w. w)\<rparr>)\<rparr>"


end
