(* ===== verification/End_To_End.thy ===== *)
theory End_To_End
  imports Http_Api Simulate_Main
begin

text \<open>
  The simulator against the backend: a world in which \<open>post_batch\<close> reaches the ingestion endpoint over the database.
\<close>

section \<open>The backend as the server of a run\<close>

text \<open>The state of the server: its database, and the number of requests so far, which selects clocks and batch ids.\<close>

type_synonym server = "database \<times> nat"

definition backend_post :: "(nat \<Rightarrow> ingest_env) \<Rightarrow> credentials \<Rightarrow> (nat \<Rightarrow> string) \<Rightarrow> string \<Rightarrow> string \<Rightarrow> raw_json
    \<Rightarrow> server \<times> 'w \<Rightarrow> (interruption, pyval) result \<times> server \<times> 'w" where
  "backend_post envs credentials ids url token body st =
     (case st of ((db, k), w) \<Rightarrow>
        (case ingest_telemetry Some core_check (envs k) credentials [''Bearer '' @ token] body (ids k) db of
           (response, db') \<Rightarrow>
             (case hr_body response of
                Some br \<Rightarrow> if hr_status response = 200 then Inr (response_json br) else Inl Failed
              | None \<Rightarrow> Inl Failed, (db', Suc k), w)))"

text \<open>The server takes the readings of the scenario: gateway and device are open, and commits succeed.\<close>

definition takes_readings :: "(nat \<Rightarrow> ingest_env) \<Rightarrow> (nat \<Rightarrow> string) \<Rightarrow> string \<Rightarrow> sim_env \<Rightarrow> scenario \<Rightarrow> bool" where
  "takes_readings envs ids gid env s \<longleftrightarrow>
     (\<forall>k. ie_commits (envs k) \<and> identifier_ok (ids k) \<and> (\<forall>i. ie_numeric_ok (envs k) (ev_value (wire_event env s i))))"

definition open_device :: "database \<Rightarrow> string \<Rightarrow> string \<Rightarrow> bool" where
  "open_device db gid dev \<longleftrightarrow> db_inv db \<and> eligible db gid
     \<and> (\<exists>d. lookup_by d_device_id dev (devices db) = Some d \<and> d_gateway_id d = gid \<and> d_enabled d)"

definition reading_row :: "sim_env \<Rightarrow> scenario \<Rightarrow> nat \<Rightarrow> telemetry_row \<Rightarrow> bool" where
  "reading_row env s i row \<longleftrightarrow> (\<exists>rid now. row = event_row rid now 1 (wire_event env s i))"

section \<open>One batch\<close>

lemma wire_identities:
  assumes "sim_env_ok env" and "boots_distinct env s" and "i < nat (sc_count s)" and "j < nat (sc_count s)"
    and "ev_identity (wire_event env s i) = ev_identity (wire_event env s j)"
  shows "i = j"
proof -
  have "boot_id env s (int (i div boot_length s)) = boot_id env s (int (j div boot_length s))"
    "i mod boot_length s = j mod boot_length s"
    using assms(5) by (simp_all add: ev_identity_def wire_event_def)
  then show ?thesis
    using boot_id_eq_iff [OF assms(1-4)] div_mult_mod_eq [of i "boot_length s"] div_mult_mod_eq [of j "boot_length s"] by metis
qed

lemma open_device_extends:
  assumes "open_device db gid dev" and "extends db db'" and "db_inv db'"
  shows "open_device db' gid dev"
proof -
  have reg: "same_registry db db'" using assms(2) by (simp add: extends_def)
  obtain d where "lookup_by d_device_id dev (devices db) = Some d" "d_gateway_id d = gid" "d_enabled d"
    using assms(1) by (auto simp: open_device_def)
  then have "map_option (\<lambda>d. (d_gateway_id d, d_enabled d)) (lookup_by d_device_id dev (devices db')) = Some (gid, True)"
    by (simp add: same_registry_device [OF reg])
  then show ?thesis
    using assms(1,3) same_registry_eligible [OF reg] by (auto simp: open_device_def)
qed

lemma row_identity: "reading_row env s i row \<Longrightarrow> t_identity row = ev_identity (wire_event env s i)"
  by (auto simp: reading_row_def t_identity_def ev_identity_def event_row_def)

lemma accepted_from_subset: "snd ` set (accepted_from k (map Valid_item es) rs) \<subseteq> set es"
proof (induction es arbitrary: k rs)
  case (Cons e es)
  then show ?case by (cases rs) (auto split: if_splits)
qed simp

lemma accepted_from_all:
  "length rs = length es \<Longrightarrow> \<forall>r \<in> set rs. ri_outcome r = Accepted \<Longrightarrow>
     map snd (accepted_from k (map Valid_item es) rs) = es"
proof (induction es arbitrary: k rs)
  case (Cons e es)
  then show ?case by (cases rs) auto
qed simp

lemma rows_of_events:
  "list_all2 (row_of ienv) acc rows \<Longrightarrow> map snd acc = map (wire_event env s) is \<Longrightarrow> list_all2 (reading_row env s) is rows"
proof (induction acc rows arbitrary: "is" rule: list_all2_induct)
  case (Cons p acc row rows)
  then obtain i js where "is = i # js" "snd p = wire_event env s i" by (cases "is") auto
  with Cons show ?case by (auto simp: row_of_def reading_row_def)
qed simp

lemma server_accepts_batch:
  assumes s: "constructed env s" "boots_distinct env s" and env: "takes_readings envs ids gid env s"
    and db: "open_device db gid (sc_device_id s)"
    and range: "\<forall>i \<in> set is. i < nat (sc_count s)" "is \<noteq> []" "length is \<le> 500" "distinct is"
    and new: "\<forall>i \<in> set is. ev_identity (wire_event env s i) \<notin> t_identity ` set (telemetry db)"
    and batch: "batch = \<lparr>vb_schema_version = 1, vb_items = map (\<lambda>i. Valid_item (wire_event env s i)) is\<rparr>"
    and ok: "batch_ok batch"
  obtains br db' rows where "ingest_batch (envs k) gid batch (ids k) db = (Inr br, db')" and "br_batch_id br = ids k"
    and "br_results br = map (\<lambda>i. answer (wire_event env s i) Accepted None) is"
    and "telemetry db' = telemetry db @ rows" and "list_all2 (reading_row env s) is rows"
    and "open_device db' gid (sc_device_id s)"
proof -
  have inv: "db_inv db" and elig: "eligible db gid" using db by (simp_all add: open_device_def)
  have id: "identifier_ok (ids k)" and commits: "ie_commits (envs k)" using env by (simp_all add: takes_readings_def)
  obtain br db' where r: "ingest_batch (envs k) gid batch (ids k) db = (Inr br, db')"
    by (rule ingest_batch_cases [OF inv ok id, of gid "envs k"]) (use elig commits in blast)+
  note facts = committed_answers [OF inv ok id r]
  have len: "length (br_results br) = length is"
    using facts by (auto simp: batch dest: list_all2_lengthD)
  have each: "ri_outcome (br_results br ! i) = Accepted" if "i < length is" for i
  proof -
    let ?es = "map (wire_event env s)"
    have nth: "vb_items batch ! i = Valid_item (wire_event env s (is ! i))" "i < length (vb_items batch)"
      using that by (simp_all add: batch)
    have earlier: "take i (vb_items batch) = map Valid_item (?es (take i is))" by (simp add: batch take_map)
    have "(ev_identity \<circ> snd) ` set (accepted_events (take i (vb_items batch)) (take i (br_results br)))
        \<subseteq> ev_identity ` set (?es (take i is))"
      unfolding earlier image_comp [symmetric] by (intro image_mono accepted_from_subset)
    moreover have "ev_identity (wire_event env s (is ! i)) \<notin> ev_identity ` set (?es (take i is))"
    proof
      assume "ev_identity (wire_event env s (is ! i)) \<in> ev_identity ` set (?es (take i is))"
      then obtain j where j: "j < i" "ev_identity (wire_event env s (is ! i)) = ev_identity (wire_event env s (is ! j))"
        using that by (auto simp: in_set_conv_nth)
      then have "is ! i = is ! j"
        using wire_identities [OF constructedD(1) [OF s(1)] s(2)] range(1) that by (meson nth_mem order_less_trans)
      then show False using j(1) that range(4) by (simp add: nth_eq_iff_index_eq)
    qed
    moreover have "ev_device_id (wire_event env s (is ! i)) = sc_device_id s" by (simp add: wire_event_def)
    moreover have "ie_numeric_ok (envs k) (ev_value (wire_event env s (is ! i)))" using env by (simp add: takes_readings_def)
    moreover have "ev_identity (wire_event env s (is ! i)) \<notin> t_identity ` set (telemetry db)" using new that by simp
    ultimately show ?thesis
      using accepted_rule [OF inv ok id r nth(2,1)] db unfolding open_device_def by auto
  qed
  have results: "br_results br = map (\<lambda>i. answer (wire_event env s i) Accepted None) is"
  proof (rule nth_equalityI)
    show "length (br_results br) = length (map (\<lambda>i. answer (wire_event env s i) Accepted None) is)" by (simp add: len)
    fix i assume "i < length (br_results br)"
    then have i: "i < length is" by (simp add: len)
    have "result_for (vb_items batch ! i) (br_results br ! i)"
      using facts i by (simp add: list_all2_conv_all_nth batch)
    then show "br_results br ! i = map (\<lambda>i. answer (wire_event env s i) Accepted None) is ! i"
      using each [OF i] i by (auto simp: batch)
  qed
  have "map snd (accepted_events (vb_items batch) (br_results br)) = map (wire_event env s) is"
    using accepted_from_all [of "br_results br" "map (wire_event env s) is" 0] by (simp add: batch results comp_def)
  moreover obtain rows where rows: "telemetry db' = telemetry db @ rows"
    "list_all2 (row_of (envs k)) (accepted_events (vb_items batch) (br_results br)) rows"
    using committed_effect [OF inv ok id r] by (auto simp: effect_def)
  ultimately have "list_all2 (reading_row env s) is rows" using rows_of_events by blast
  moreover have "open_device db' gid (sc_device_id s)"
    using facts db by (auto intro: open_device_extends)
  ultimately show ?thesis using that r facts results rows(1) by blast
qed

section \<open>One request\<close>

lemma served_identity: "same_identity (event_at env s i) (answer (wire_event env s i) Accepted None)"
  by (simp add: same_identity_def answer_def wire_event_def nullable_str_def nullable_int_def event_at_get)
    (simp add: event_at_def scenario_event_def dict_get_def)

lemma served_batch:
  assumes s: "constructed env s" "boots_distinct env s" and env: "takes_readings envs ids gid env s"
    and key: "resolve_gateway credentials [''Bearer '' @ token] = Some gid"
    and db: "open_device db gid (sc_device_id s)"
    and range: "\<forall>i \<in> set is. i < nat (sc_count s)" "is \<noteq> []" "length is \<le> 500" "distinct is"
    and new: "\<forall>i \<in> set is. ev_identity (wire_event env s i) \<notin> t_identity ` set (telemetry db)"
  obtains tree db' rows where "encode_batch env (map (event_at env s) is) = Some tree"
    and "http_send (backend_post envs credentials ids) base token tree (map (event_at env s) is) ((db, k), w)
      = (Inr (replicate (length is) ''accepted''), (db', Suc k), w)"
    and "telemetry db' = telemetry db @ rows" and "list_all2 (reading_row env s) is rows"
    and "open_device db' gid (sc_device_id s)"
proof -
  let ?batch = "\<lparr>vb_schema_version = 1, vb_items = map (\<lambda>i. Valid_item (wire_event env s i)) is\<rparr>"
  obtain tree where tree: "encode_batch env (map (event_at env s) is) = Some tree"
    and parse: "parse_telemetry_batch Some core_check tree = Inr ?batch"
    using batch_parses [OF s(1) range(1-3)] by blast
  have ok: "batch_ok ?batch"
    using core.parsed_batch_ok [OF parse] by (simp add: batch_ok_def)
  obtain br db' rows where r: "ingest_batch (envs k) gid ?batch (ids k) db = (Inr br, db')" "br_batch_id br = ids k"
    "br_results br = map (\<lambda>i. answer (wire_event env s i) Accepted None) is"
    and stored: "telemetry db' = telemetry db @ rows" "list_all2 (reading_row env s) is rows" "open_device db' gid (sc_device_id s)"
    using server_accepts_batch [OF s env db range new refl ok] by blast
  have "ingest_telemetry Some core_check (envs k) credentials [''Bearer '' @ token] tree (ids k) db = (ok_response 200 br, db')"
    using r(1) key parse by (simp add: ingest_telemetry_def read_telemetry_batch_def)
  then have post: "backend_post envs credentials ids url token tree ((db, k), w) = (Inr (response_json br), (db', Suc k), w)" for url
    by (simp add: backend_post_def ok_response_def)
  have "list_all2 same_identity (map (event_at env s) is) (br_results br)"
    by (simp add: r(3) list_all2_conv_all_nth served_identity)
  moreover have "list_all response_item_ok (br_results br)"
    using committed_answers [OF _ ok _ r(1)] db env by (auto simp: open_device_def takes_readings_def)
  moreover have "identifier_ok (br_batch_id br)" using env by (simp add: r(2) takes_readings_def)
  ultimately have "classify_response (map (event_at env s) is) (response_json br) = Inr (map outcome_text (br_results br))"
    by (rule server_response_classified)
  moreover have "map outcome_text (br_results br) = replicate (length is) ''accepted''"
    by (rule nth_equalityI) (simp_all add: r(3) outcome_text_def)
  ultimately have "http_send (backend_post envs credentials ids) base token tree (map (event_at env s) is) ((db, k), w)
      = (Inr (replicate (length is) ''accepted''), (db', Suc k), w)"
    by (simp add: http_send_def post)
  with that tree stored show ?thesis by blast
qed

section \<open>The whole run\<close>

definition accepted_only :: "int \<Rightarrow> string \<Rightarrow> int option" where
  "accepted_only a = [''accepted'' \<mapsto> a, ''duplicate'' \<mapsto> 0, ''rejected'' \<mapsto> 0]"

lemma accepted_only_bump:
  "accepted_only a ''accepted'' = Some a" "(accepted_only a)(''accepted'' \<mapsto> b) = accepted_only b"
  by (auto simp: accepted_only_def fun_eq_iff)

lemma tally_accepted:
  "su_counts su = accepted_only a \<Longrightarrow>
     tally (replicate m ''accepted'') su = (Completed, su\<lparr>su_counts := accepted_only (a + int m)\<rparr>)"
proof (induction m arbitrary: su a)
  case (Suc m)
  let ?su = "su\<lparr>su_counts := accepted_only (a + 1)\<rparr>"
  have "tally (replicate (Suc m) ''accepted'') su = tally (replicate m ''accepted'') ?su"
    using Suc.prems by (simp add: Let_def py_partition_fst_def accepted_only_bump)
  also have "\<dots> = (Completed, ?su\<lparr>su_counts := accepted_only (a + 1 + int m)\<rparr>)" by (rule Suc.IH) simp
  finally show ?case by (simp add: add.assoc)
qed simp

definition never_interrupted :: "'w runtime \<Rightarrow> bool" where
  "never_interrupted rt \<longleftrightarrow> (\<forall>t w. \<exists>w'. rt_sleep rt t w = (Inr (), w'))"

lemma pace_completes:
  assumes "never_interrupted rt"
  shows "\<exists>lag w'. pace (publisher_rt rt) paced started position s su (p, w) = (Inr (su\<lparr>su_lag := lag\<rparr>), p, w')"
proof (cases paced)
  case True
  obtain now w1 where now: "rt_clock rt w = (now, w1)" by (rule prod.exhaust)
  let ?deadline = "fadd started (true_div (position * sc_interval_ms s) 1000)"
  obtain w2 where w2: "rt_sleep rt (fmax (Finite 0) (fsub ?deadline now)) w1 = (Inr (), w2)"
    using assms by (auto simp: never_interrupted_def)
  obtain late w3 where "rt_clock rt w2 = (late, w3)" by (rule prod.exhaust)
  with True now w2 show ?thesis by (auto simp: pace_def publisher_rt_def Let_def)
qed (auto simp: pace_def intro!: exI [of _ "su_lag su"])

lemma run_served:
  assumes s: "constructed env s" "boots_distinct env s" and env: "takes_readings envs ids gid env s"
    and key: "resolve_gateway credentials [''Bearer '' @ token] = Some gid" and rt: "never_interrupted rt"
    and "open_device db gid (sc_device_id s)"
    and "\<forall>c \<in> set cs. c \<noteq> [] \<and> length c \<le> 500" and "\<forall>i \<in> set (concat cs). i < nat (sc_count s)" and "distinct (concat cs)"
    and "\<forall>i \<in> set (concat cs). ev_identity (wire_event env s i) \<notin> t_identity ` set (telemetry db)"
    and "su_counts su = accepted_only a" and "su_unconfirmed su = 0"
  shows "\<exists>su' db' k' w' rows.
    run_batches env (publisher_rt rt) paced started s (Some (http_send (backend_post envs credentials ids) base token)) emit
      (map (map (event_at env s)) cs) su ((db, k), w) = (Completed, su', (db', k'), w')
    \<and> su_counts su' = accepted_only (a + int (length (concat cs))) \<and> su_unconfirmed su' = 0
    \<and> su_failures su' = su_failures su \<and> su_cancelled su' = su_cancelled su
    \<and> telemetry db' = telemetry db @ rows \<and> list_all2 (reading_row env s) (concat cs) rows
    \<and> open_device db' gid (sc_device_id s)"
  using assms(6-)
proof (induction cs arbitrary: su db k w a)
  case Nil
  then show ?case by simp
next
  case (Cons c cs)
  let ?send = "http_send (backend_post envs credentials ids) base token" and ?events = "map (event_at env s) c"
  let ?su = "su\<lparr>su_generated := su_generated su + int (length c)\<rparr>"
  have c: "\<forall>i \<in> set c. i < nat (sc_count s)" "c \<noteq> []" "length c \<le> 500" "distinct c"
    "\<forall>i \<in> set c. ev_identity (wire_event env s i) \<notin> t_identity ` set (telemetry db)"
    using Cons.prems by auto
  obtain lag w1 where p: "pace (publisher_rt rt) paced started (su_generated ?su - 1) s ?su ((db, k), w)
      = (Inr (?su\<lparr>su_lag := lag\<rparr>), (db, k), w1)"
    using pace_completes [OF rt, of paced started "su_generated ?su - 1" s ?su "(db, k)" w] by (elim exE)
  obtain tree db1 rows1 where tree: "encode_batch env ?events = Some tree"
    and send: "?send tree ?events ((db, k), w1) = (Inr (replicate (length c) ''accepted''), (db1, Suc k), w1)"
    and stored: "telemetry db1 = telemetry db @ rows1" "list_all2 (reading_row env s) c rows1" "open_device db1 gid (sc_device_id s)"
    by (rule served_batch [OF s env key Cons.prems(1) c, where base = base and k = k and w = w1])
  let ?su1 = "?su\<lparr>su_lag := lag, su_sent := su_sent su + int (length c)\<rparr>"
  let ?su2 = "?su1\<lparr>su_unconfirmed := int (length c)\<rparr>"
  let ?su3 = "?su1\<lparr>su_counts := accepted_only (a + int (length c)), su_unconfirmed := 0\<rparr>"
  have "tally (replicate (length c) ''accepted'') ?su2 = (Completed, ?su2\<lparr>su_counts := accepted_only (a + int (length c))\<rparr>)"
    by (rule tally_accepted) (use Cons.prems(6) in simp)
  then have "send_one (publisher_rt rt) paced started s ?send tree ?events ?su ((db, k), w) = (Completed, ?su3, (db1, Suc k), w1)"
    using p send Cons.prems(7) by (simp add: send_one_def Let_def)
  then have step: "run_batches env (publisher_rt rt) paced started s (Some ?send) emit (map (map (event_at env s)) (c # cs)) su ((db, k), w)
      = run_batches env (publisher_rt rt) paced started s (Some ?send) emit (map (map (event_at env s)) cs) ?su3 ((db1, Suc k), w1)"
    using tree by (simp add: Let_def)
  have "ev_identity (wire_event env s i) \<notin> t_identity ` set (telemetry db1)" if i: "i \<in> set (concat cs)" for i
  proof
    assume "ev_identity (wire_event env s i) \<in> t_identity ` set (telemetry db1)"
    then obtain row where "row \<in> set rows1" "ev_identity (wire_event env s i) = t_identity row"
      using Cons.prems(5) i stored(1) by auto
    then obtain j where j: "j \<in> set c" "ev_identity (wire_event env s i) = ev_identity (wire_event env s j)"
      using stored(2) row_identity by (metis in_set_conv_nth list_all2_conv_all_nth)
    then have "i = j"
      using wire_identities [OF constructedD(1) [OF s(1)] s(2)] i Cons.prems(3) by auto
    then show False using i j(1) Cons.prems(4) by auto
  qed
  then obtain su' db' k' w' rows where
    run: "run_batches env (publisher_rt rt) paced started s (Some ?send) emit (map (map (event_at env s)) cs) ?su3 ((db1, Suc k), w1)
        = (Completed, su', (db', k'), w')"
    and rest: "su_counts su' = accepted_only (a + int (length c) + int (length (concat cs)))" "su_unconfirmed su' = 0"
      "su_failures su' = su_failures ?su3" "su_cancelled su' = su_cancelled ?su3"
      "telemetry db' = telemetry db1 @ rows" "list_all2 (reading_row env s) (concat cs) rows" "open_device db' gid (sc_device_id s)"
    using Cons.IH [OF stored(3), of ?su3 "a + int (length c)" "Suc k" w1] Cons.prems by auto
  show ?case
    unfolding step run
    by (intro exI [of _ su'] exI [of _ db'] exI [of _ k'] exI [of _ w'] exI [of _ "rows1 @ rows"])
      (use rest stored in \<open>simp add: add.assoc list_all2_appendI\<close>)
qed

end
