(* ===== verification/Migrations.thy ===== *)
theory Migrations
  imports Db_Models
begin

text \<open>
  \<open>backend/migrations/versions\<close> and the table metadata of \<open>backend/app/db/models.py\<close>. A migration is the list of
  the schema operations it issues; their meaning is that of the SQL data definition statements, on a schema of tables,
  columns, constraints and indexes. An operation that PostgreSQL refuses is \<open>None\<close>.
\<close>

section \<open>Schemas\<close>

datatype sql_type = Varchar nat | Boolean_type | Small_int | Big_int | Timestamptz | Numeric_type | Jsonb

record column =
  co_name :: string
  co_type :: sql_type
  co_nullable :: bool
  co_default :: "string option"
  co_identity :: bool

datatype table_constraint =
    Primary_key string "string list"
  | Foreign_key string "string list" string "string list" string
  | Unique_key string "string list"
  | Check_rule string string

text \<open>The elements of an index, with the one expression the program indexes.\<close>

datatype sql_expr =
    Column_ref string
  | Not_null sql_expr
  | Json_text_is sql_expr string string
  | Both sql_expr sql_expr
  | Case_when sql_expr sql_expr sql_expr
  | Descending sql_expr

record index_def =
  ix_name :: string
  ix_table :: string
  ix_elements :: "sql_expr list"
  ix_unique :: bool
  ix_where :: "string option"

record table_def =
  tb_name :: string
  tb_columns :: "column list"
  tb_constraints :: "table_constraint list"

record schema =
  sc_tables :: "table_def list"
  sc_indexes :: "index_def list"

definition empty_schema :: schema where
  "empty_schema = \<lparr>sc_tables = [], sc_indexes = []\<rparr>"

section \<open>Schema operations\<close>

datatype ddl =
    Create_table table_def
  | Drop_table string
  | Create_index index_def
  | Drop_index string string
  | Add_column string column
  | Drop_column string string

definition find_table :: "schema \<Rightarrow> string \<Rightarrow> table_def option" where
  "find_table s name = find (\<lambda>t. tb_name t = name) (sc_tables s)"

definition has_columns :: "table_def \<Rightarrow> string list \<Rightarrow> bool" where
  "has_columns t names \<longleftrightarrow> set names \<subseteq> co_name ` set (tb_columns t)"

text \<open>The constraint can be created: its columns exist, and so do those it refers to.\<close>

fun constraint_ok :: "schema \<Rightarrow> table_def \<Rightarrow> table_constraint \<Rightarrow> bool" where
  "constraint_ok s t (Primary_key name cols) \<longleftrightarrow> has_columns t cols"
| "constraint_ok s t (Unique_key name cols) \<longleftrightarrow> has_columns t cols"
| "constraint_ok s t (Check_rule name rule) \<longleftrightarrow> True"
| "constraint_ok s t (Foreign_key name cols referred rcols ondelete) \<longleftrightarrow> has_columns t cols
     \<and> (case find_table s referred of None \<Rightarrow> False | Some r \<Rightarrow> has_columns r rcols)"

fun refers_to :: "string \<Rightarrow> table_constraint \<Rightarrow> bool" where
  "refers_to name (Foreign_key n cols referred rcols ondelete) \<longleftrightarrow> referred = name"
| "refers_to name _ \<longleftrightarrow> False"

fun expr_columns :: "sql_expr \<Rightarrow> string list" where
  "expr_columns (Column_ref name) = [name]"
| "expr_columns (Not_null e) = expr_columns e"
| "expr_columns (Json_text_is e key v) = expr_columns e"
| "expr_columns (Both a b) = expr_columns a @ expr_columns b"
| "expr_columns (Case_when c a b) = expr_columns c @ expr_columns a @ expr_columns b"
| "expr_columns (Descending e) = expr_columns e"

fun constraint_columns :: "table_constraint \<Rightarrow> string list" where
  "constraint_columns (Primary_key name cols) = cols"
| "constraint_columns (Unique_key name cols) = cols"
| "constraint_columns (Foreign_key name cols referred rcols ondelete) = cols"
| "constraint_columns (Check_rule name rule) = []"

fun run_op :: "ddl \<Rightarrow> schema \<Rightarrow> schema option" where
  "run_op (Create_table t) s =
     (if find_table s (tb_name t) = None \<and> distinct (map co_name (tb_columns t)) \<and> list_all (constraint_ok s t) (tb_constraints t)
      then Some (s\<lparr>sc_tables := sc_tables s @ [t]\<rparr>) else None)"
| "run_op (Drop_table name) s =
     (if find_table s name \<noteq> None \<and> \<not> list_ex (\<lambda>t. tb_name t \<noteq> name \<and> list_ex (refers_to name) (tb_constraints t)) (sc_tables s)
      then Some \<lparr>sc_tables = filter (\<lambda>t. tb_name t \<noteq> name) (sc_tables s),
                 sc_indexes = filter (\<lambda>i. ix_table i \<noteq> name) (sc_indexes s)\<rparr> else None)"
| "run_op (Create_index i) s =
     (case find_table s (ix_table i) of
        Some t \<Rightarrow> if ix_name i \<notin> ix_name ` set (sc_indexes s) \<and> has_columns t (concat (map expr_columns (ix_elements i)))
                  then Some (s\<lparr>sc_indexes := sc_indexes s @ [i]\<rparr>) else None
      | None \<Rightarrow> None)"
| "run_op (Drop_index name tab) s =
     (if list_ex (\<lambda>i. ix_name i = name \<and> ix_table i = tab) (sc_indexes s)
      then Some (s\<lparr>sc_indexes := filter (\<lambda>i. ix_name i \<noteq> name) (sc_indexes s)\<rparr>) else None)"
| "run_op (Add_column tab c) s =
     (case find_table s tab of
        Some t \<Rightarrow> if co_name c \<notin> co_name ` set (tb_columns t) \<and> (co_nullable c \<or> co_default c \<noteq> None)
                  then Some (s\<lparr>sc_tables := map (\<lambda>t. if tb_name t = tab then t\<lparr>tb_columns := tb_columns t @ [c]\<rparr> else t) (sc_tables s)\<rparr>)
                  else None
      | None \<Rightarrow> None)"
| "run_op (Drop_column tab col) s =
     (case find_table s tab of
        Some t \<Rightarrow> if col \<in> co_name ` set (tb_columns t)
                  then Some \<lparr>sc_tables = map (\<lambda>t. if tb_name t = tab
                           then t\<lparr>tb_columns := filter (\<lambda>c. co_name c \<noteq> col) (tb_columns t),
                                   tb_constraints := filter (\<lambda>k. col \<notin> set (constraint_columns k)) (tb_constraints t)\<rparr> else t) (sc_tables s),
                         sc_indexes = filter (\<lambda>i. \<not> (ix_table i = tab \<and> col \<in> set (concat (map expr_columns (ix_elements i))))) (sc_indexes s)\<rparr>
                  else None
      | None \<Rightarrow> None)"

fun run_ops :: "ddl list \<Rightarrow> schema \<Rightarrow> schema option" where
  "run_ops [] s = Some s"
| "run_ops (d # ds) s = (case run_op d s of None \<Rightarrow> None | Some s' \<Rightarrow> run_ops ds s')"

section \<open>The revisions\<close>

text \<open>\<open>sa.Column(name, type, nullable=...)\<close>, with a server default or an identity where given.\<close>

definition col :: "string \<Rightarrow> sql_type \<Rightarrow> bool \<Rightarrow> column" where
  "col name ty nullable = \<lparr>co_name = name, co_type = ty, co_nullable = nullable, co_default = None, co_identity = False\<rparr>"

definition col_default :: "string \<Rightarrow> sql_type \<Rightarrow> string \<Rightarrow> column" where
  "col_default name ty d = (col name ty False)\<lparr>co_default := Some d\<rparr>"

definition col_identity :: "string \<Rightarrow> column" where
  "col_identity name = (col name Big_int False)\<lparr>co_identity := True\<rparr>"

definition fk :: "string \<Rightarrow> string \<Rightarrow> string \<Rightarrow> string \<Rightarrow> table_constraint" where
  "fk name column referred rcol = Foreign_key name [column] referred [rcol] ''RESTRICT''"

definition plain_index :: "string \<Rightarrow> string \<Rightarrow> string list \<Rightarrow> index_def" where
  "plain_index name tab cols = \<lparr>ix_name = name, ix_table = tab, ix_elements = map Column_ref cols, ix_unique = False, ix_where = None\<rparr>"

definition upgrade_0001 :: "ddl list" where
  "upgrade_0001 =
     [Create_table \<lparr>tb_name = ''sites'',
        tb_columns = [col ''site_id'' (Varchar 128) False, col ''name'' (Varchar 200) False,
          col_default ''enabled'' Boolean_type ''true''],
        tb_constraints = [Check_rule ''ck_sites_site_id_nonempty'' ''length(site_id) > 0'', Primary_key ''pk_sites'' [''site_id'']]\<rparr>,
      Create_table \<lparr>tb_name = ''gateways'',
        tb_columns = [col ''gateway_id'' (Varchar 128) False, col ''site_id'' (Varchar 128) False, col ''name'' (Varchar 200) False,
          col_default ''enabled'' Boolean_type ''true''],
        tb_constraints = [Check_rule ''ck_gateways_gateway_id_nonempty'' ''length(gateway_id) > 0'',
          fk ''fk_gateways_site_id_sites'' ''site_id'' ''sites'' ''site_id'', Primary_key ''pk_gateways'' [''gateway_id'']]\<rparr>,
      Create_index (plain_index ''ix_gateways_site_id'' ''gateways'' [''site_id'']),
      Create_table \<lparr>tb_name = ''devices'',
        tb_columns = [col ''device_id'' (Varchar 128) False, col ''gateway_id'' (Varchar 128) False, col ''name'' (Varchar 200) False,
          col_default ''enabled'' Boolean_type ''true''],
        tb_constraints = [Check_rule ''ck_devices_device_id_nonempty'' ''length(device_id) > 0'',
          fk ''fk_devices_gateway_id_gateways'' ''gateway_id'' ''gateways'' ''gateway_id'', Primary_key ''pk_devices'' [''device_id'']]\<rparr>,
      Create_index (plain_index ''ix_devices_gateway_id'' ''devices'' [''gateway_id''])]"

definition downgrade_0001 :: "ddl list" where
  "downgrade_0001 =
     [Drop_index ''ix_devices_gateway_id'' ''devices'', Drop_table ''devices'',
      Drop_index ''ix_gateways_site_id'' ''gateways'', Drop_table ''gateways'', Drop_table ''sites'']"

definition quoted :: "string \<Rightarrow> string" where
  "quoted s = CHR 0x27 # s @ [CHR 0x27]"

definition metric_rule :: string where "metric_rule = ''metric = '' @ quoted ''temperature''"
definition unit_rule :: string where "unit_rule = ''unit = '' @ quoted ''celsius''"

definition quality_rule :: string where
  "quality_rule = ''(jsonb_typeof(quality) = 'object' '' @ ''AND quality->>'reading' = 'valid' '' @ ''AND quality->>'clock' IN ''
     @ ''('synchronised', 'unsynchronised', 'estimated', 'unknown')) IS TRUE''"

definition upgrade_0002 :: "ddl list" where
  "upgrade_0002 =
     [Create_table \<lparr>tb_name = ''telemetry'',
        tb_columns = [col_identity ''id'', col ''schema_version'' Small_int False, col ''device_id'' (Varchar 128) False,
          col ''boot_id'' (Varchar 128) False, col ''sequence_number'' Big_int False, col ''measured_at'' Timestamptz True,
          col ''device_uptime_ms'' Big_int False, col ''gateway_received_at'' Timestamptz False,
          col_default ''backend_received_at'' Timestamptz ''clock_timestamp()'', col ''metric'' (Varchar 32) False,
          col ''value'' Numeric_type False, col ''unit'' (Varchar 32) False, col ''quality'' Jsonb False],
        tb_constraints = [Primary_key ''pk_telemetry'' [''id''],
          fk ''fk_telemetry_device_id_devices'' ''device_id'' ''devices'' ''device_id'',
          Unique_key ''uq_telemetry_identity'' [''device_id'', ''boot_id'', ''sequence_number''],
          Check_rule ''ck_telemetry_schema_version_v1'' ''schema_version = 1'',
          Check_rule ''ck_telemetry_boot_id_nonempty'' ''length(boot_id) > 0'',
          Check_rule ''ck_telemetry_sequence_number_nonnegative'' ''sequence_number >= 0'',
          Check_rule ''ck_telemetry_device_uptime_ms_nonnegative'' ''device_uptime_ms >= 0'',
          Check_rule ''ck_telemetry_metric_v1'' metric_rule,
          Check_rule ''ck_telemetry_unit_v1'' unit_rule,
          Check_rule ''ck_telemetry_value_finite'' ''value > '-Infinity'::numeric AND value < 'Infinity'::numeric'',
          Check_rule ''ck_telemetry_quality_v1'' quality_rule]\<rparr>,
      Create_index (plain_index ''ix_telemetry_device_measured_at'' ''telemetry'' [''device_id'', ''measured_at'']),
      Create_index (plain_index ''ix_telemetry_device_backend_received_at'' ''telemetry'' [''device_id'', ''backend_received_at''])]"

definition downgrade_0002 :: "ddl list" where
  "downgrade_0002 =
     [Drop_index ''ix_telemetry_device_backend_received_at'' ''telemetry'', Drop_index ''ix_telemetry_device_measured_at'' ''telemetry'',
      Drop_table ''telemetry'']"

text \<open>The CREATE INDEX statement of revision 0003.\<close>

definition upgrade_0003 :: "ddl list" where
  "upgrade_0003 =
     [Create_index \<lparr>ix_name = ''ix_telemetry_device_event_at'', ix_table = ''telemetry'',
        ix_elements = [Column_ref ''device_id'',
          Descending (Case_when (Both (Not_null (Column_ref ''measured_at'')) (Json_text_is (Column_ref ''quality'') ''clock'' ''synchronised''))
            (Column_ref ''measured_at'') (Column_ref ''gateway_received_at'')),
          Descending (Column_ref ''id'')],
        ix_unique = False, ix_where = None\<rparr>]"

definition downgrade_0003 :: "ddl list" where
  "downgrade_0003 = [Drop_index ''ix_telemetry_device_event_at'' ''telemetry'']"

definition upgrade_0004 :: "ddl list" where
  "upgrade_0004 =
     [Create_table \<lparr>tb_name = ''alert_episodes'',
        tb_columns = [col_identity ''id'', col ''device_id'' (Varchar 128) False, col ''opened_at'' Timestamptz False,
          col ''resolved_at'' Timestamptz True, col ''opening_telemetry_id'' Big_int False, col ''resolving_telemetry_id'' Big_int True],
        tb_constraints = [Primary_key ''pk_alert_episodes'' [''id''],
          fk ''fk_alert_episodes_device_id_devices'' ''device_id'' ''devices'' ''device_id'',
          fk ''fk_alert_episodes_opening_telemetry_id_telemetry'' ''opening_telemetry_id'' ''telemetry'' ''id'',
          fk ''fk_alert_episodes_resolving_telemetry_id_telemetry'' ''resolving_telemetry_id'' ''telemetry'' ''id'',
          Unique_key ''uq_alert_episodes_opening_telemetry_id'' [''opening_telemetry_id''],
          Unique_key ''uq_alert_episodes_resolving_telemetry_id'' [''resolving_telemetry_id''],
          Check_rule ''ck_alert_episodes_resolution_after_opening'' ''resolved_at IS NULL OR resolved_at >= opened_at'']\<rparr>,
      Create_index (plain_index ''ix_alert_episodes_device_id'' ''alert_episodes'' [''device_id'']),
      Create_index ((plain_index ''uq_alert_episodes_active_device'' ''alert_episodes'' [''device_id''])
        \<lparr>ix_unique := True, ix_where := Some ''resolved_at IS NULL''\<rparr>),
      Create_table \<lparr>tb_name = ''alert_states'',
        tb_columns = [col ''device_id'' (Varchar 128) False, col ''last_event_at'' Timestamptz False, col ''high_streak'' Small_int False,
          col ''recovery_streak'' Small_int False, col ''active_episode_id'' Big_int True],
        tb_constraints = [Primary_key ''pk_alert_states'' [''device_id''],
          fk ''fk_alert_states_device_id_devices'' ''device_id'' ''devices'' ''device_id'',
          fk ''fk_alert_states_active_episode_id_alert_episodes'' ''active_episode_id'' ''alert_episodes'' ''id'',
          Unique_key ''uq_alert_states_active_episode_id'' [''active_episode_id''],
          Check_rule ''ck_alert_states_high_streak_range'' ''high_streak BETWEEN 0 AND 2'',
          Check_rule ''ck_alert_states_recovery_streak_range'' ''recovery_streak BETWEEN 0 AND 2'']\<rparr>]"

definition downgrade_0004 :: "ddl list" where
  "downgrade_0004 =
     [Drop_table ''alert_states'', Drop_index ''uq_alert_episodes_active_device'' ''alert_episodes'',
      Drop_index ''ix_alert_episodes_device_id'' ''alert_episodes'', Drop_table ''alert_episodes'']"

definition upgrade_0005 :: "ddl list" where
  "upgrade_0005 = [Add_column ''devices'' (col ''password_hash'' (Varchar 200) True), Add_column ''devices'' (col ''last_seen_at'' Timestamptz True)]"

definition downgrade_0005 :: "ddl list" where
  "downgrade_0005 = [Drop_column ''devices'' ''last_seen_at'', Drop_column ''devices'' ''password_hash'']"

definition upgrade_0006 :: "ddl list" where
  "upgrade_0006 = [Add_column ''devices'' (col_default ''mqtt_managed'' Boolean_type ''false'')]"

definition downgrade_0006 :: "ddl list" where
  "downgrade_0006 = [Drop_column ''devices'' ''mqtt_managed'']"

text \<open>A revision file: its id, its predecessor, and its two functions.\<close>

record revision =
  rv_id :: string
  rv_down :: "string option"
  rv_upgrade :: "ddl list"
  rv_downgrade :: "ddl list"

definition revisions :: "revision list" where
  "revisions =
     [\<lparr>rv_id = ''0001_registry'', rv_down = None, rv_upgrade = upgrade_0001, rv_downgrade = downgrade_0001\<rparr>,
      \<lparr>rv_id = ''0002_telemetry'', rv_down = Some ''0001_registry'', rv_upgrade = upgrade_0002, rv_downgrade = downgrade_0002\<rparr>,
      \<lparr>rv_id = ''0003_event_time_index'', rv_down = Some ''0002_telemetry'', rv_upgrade = upgrade_0003, rv_downgrade = downgrade_0003\<rparr>,
      \<lparr>rv_id = ''0004_temperature_alerts'', rv_down = Some ''0003_event_time_index'', rv_upgrade = upgrade_0004, rv_downgrade = downgrade_0004\<rparr>,
      \<lparr>rv_id = ''0005_device_presence'', rv_down = Some ''0004_temperature_alerts'', rv_upgrade = upgrade_0005, rv_downgrade = downgrade_0005\<rparr>,
      \<lparr>rv_id = ''0006_mqtt_management'', rv_down = Some ''0005_device_presence'', rv_upgrade = upgrade_0006, rv_downgrade = downgrade_0006\<rparr>]"

text \<open>The revisions in the order of their links, from a revision that is already applied.\<close>

fun upgrade_path :: "nat \<Rightarrow> string option \<Rightarrow> revision list \<Rightarrow> revision list" where
  "upgrade_path 0 current rs = []"
| "upgrade_path (Suc n) current rs =
     (case find (\<lambda>r. rv_down r = current) rs of None \<Rightarrow> [] | Some r \<Rightarrow> r # upgrade_path n (Some (rv_id r)) rs)"

section \<open>The metadata of the models\<close>

text \<open>
  A mapped column: its type may come from the foreign key, \<open>Mapped[T]\<close> is NOT NULL unless the annotation has None, and
  \<open>index=True\<close> asks for an index under the naming convention.
\<close>

record model_column =
  mc_name :: string
  mc_type :: "sql_type option"
  mc_nullable :: bool
  mc_default :: "string option"
  mc_identity :: bool
  mc_primary :: bool
  mc_index :: bool
  mc_foreign :: "(string \<times> string) option"

datatype table_arg =
    Model_unique string "string list"
  | Model_check string string
  | Model_index string "sql_expr list" bool "string option"

record model =
  mo_table :: string
  mo_args :: "table_arg list"
  mo_columns :: "model_column list"

definition mapped :: "string \<Rightarrow> sql_type \<Rightarrow> bool \<Rightarrow> model_column" where
  "mapped name ty nullable = \<lparr>mc_name = name, mc_type = Some ty, mc_nullable = nullable, mc_default = None, mc_identity = False,
     mc_primary = False, mc_index = False, mc_foreign = None\<rparr>"

definition mapped_fk :: "string \<Rightarrow> string \<Rightarrow> string \<Rightarrow> bool \<Rightarrow> model_column" where
  "mapped_fk name tab column nullable = \<lparr>mc_name = name, mc_type = None, mc_nullable = nullable, mc_default = None, mc_identity = False,
     mc_primary = False, mc_index = False, mc_foreign = Some (tab, column)\<rparr>"

text \<open>The SQL CASE of \<open>event_time\<close> over the telemetry table, as an index expression.\<close>

definition event_time_expr :: sql_expr where
  "event_time_expr = Case_when (Both (Not_null (Column_ref ''measured_at'')) (Json_text_is (Column_ref ''quality'') ''clock'' ''synchronised''))
     (Column_ref ''measured_at'') (Column_ref ''gateway_received_at'')"

definition Site_model :: model where
  "Site_model = \<lparr>mo_table = ''sites'', mo_args = [Model_check ''site_id_nonempty'' ''length(site_id) > 0''],
     mo_columns = [(mapped ''site_id'' (Varchar 128) False)\<lparr>mc_primary := True\<rparr>, mapped ''name'' (Varchar 200) False,
       (mapped ''enabled'' Boolean_type False)\<lparr>mc_default := Some ''true''\<rparr>]\<rparr>"

definition Gateway_model :: model where
  "Gateway_model = \<lparr>mo_table = ''gateways'', mo_args = [Model_check ''gateway_id_nonempty'' ''length(gateway_id) > 0''],
     mo_columns = [(mapped ''gateway_id'' (Varchar 128) False)\<lparr>mc_primary := True\<rparr>,
       (mapped_fk ''site_id'' ''sites'' ''site_id'' False)\<lparr>mc_index := True\<rparr>, mapped ''name'' (Varchar 200) False,
       (mapped ''enabled'' Boolean_type False)\<lparr>mc_default := Some ''true''\<rparr>]\<rparr>"

definition Device_model :: model where
  "Device_model = \<lparr>mo_table = ''devices'', mo_args = [Model_check ''device_id_nonempty'' ''length(device_id) > 0''],
     mo_columns = [(mapped ''device_id'' (Varchar 128) False)\<lparr>mc_primary := True\<rparr>,
       (mapped_fk ''gateway_id'' ''gateways'' ''gateway_id'' False)\<lparr>mc_index := True\<rparr>, mapped ''name'' (Varchar 200) False,
       (mapped ''enabled'' Boolean_type False)\<lparr>mc_default := Some ''true''\<rparr>, mapped ''password_hash'' (Varchar 200) True,
       (mapped ''mqtt_managed'' Boolean_type False)\<lparr>mc_default := Some ''false''\<rparr>, mapped ''last_seen_at'' Timestamptz True]\<rparr>"

definition Telemetry_model :: model where
  "Telemetry_model = \<lparr>mo_table = ''telemetry'',
     mo_args = [Model_unique ''uq_telemetry_identity'' [''device_id'', ''boot_id'', ''sequence_number''],
       Model_check ''schema_version_v1'' ''schema_version = 1'', Model_check ''boot_id_nonempty'' ''length(boot_id) > 0'',
       Model_check ''sequence_number_nonnegative'' ''sequence_number >= 0'', Model_check ''device_uptime_ms_nonnegative'' ''device_uptime_ms >= 0'',
       Model_check ''metric_v1'' metric_rule, Model_check ''unit_v1'' unit_rule,
       Model_check ''value_finite'' ''value > '-Infinity'::numeric AND value < 'Infinity'::numeric'',
       Model_check ''quality_v1'' quality_rule,
       Model_index ''ix_telemetry_device_measured_at'' [Column_ref ''device_id'', Column_ref ''measured_at''] False None,
       Model_index ''ix_telemetry_device_backend_received_at'' [Column_ref ''device_id'', Column_ref ''backend_received_at''] False None],
     mo_columns = [(mapped ''id'' Big_int False)\<lparr>mc_identity := True, mc_primary := True\<rparr>, mapped ''schema_version'' Small_int False,
       mapped_fk ''device_id'' ''devices'' ''device_id'' False, mapped ''boot_id'' (Varchar 128) False,
       mapped ''sequence_number'' Big_int False, mapped ''measured_at'' Timestamptz True, mapped ''device_uptime_ms'' Big_int False,
       mapped ''gateway_received_at'' Timestamptz False,
       (mapped ''backend_received_at'' Timestamptz False)\<lparr>mc_default := Some ''clock_timestamp()''\<rparr>,
       mapped ''metric'' (Varchar 32) False, mapped ''value'' Numeric_type False, mapped ''unit'' (Varchar 32) False,
       mapped ''quality'' Jsonb False]\<rparr>"

text \<open>The index that is declared after the class.\<close>

definition event_at_index :: table_arg where
  "event_at_index = Model_index ''ix_telemetry_device_event_at''
     [Column_ref ''device_id'', Descending event_time_expr, Descending (Column_ref ''id'')] False None"

definition AlertEpisode_model :: model where
  "AlertEpisode_model = \<lparr>mo_table = ''alert_episodes'',
     mo_args = [Model_unique ''uq_alert_episodes_opening_telemetry_id'' [''opening_telemetry_id''],
       Model_unique ''uq_alert_episodes_resolving_telemetry_id'' [''resolving_telemetry_id''],
       Model_check ''resolution_after_opening'' ''resolved_at IS NULL OR resolved_at >= opened_at'',
       Model_index ''uq_alert_episodes_active_device'' [Column_ref ''device_id''] True (Some ''resolved_at IS NULL'')],
     mo_columns = [(mapped ''id'' Big_int False)\<lparr>mc_identity := True, mc_primary := True\<rparr>,
       (mapped_fk ''device_id'' ''devices'' ''device_id'' False)\<lparr>mc_index := True\<rparr>, mapped ''opened_at'' Timestamptz False,
       mapped ''resolved_at'' Timestamptz True, mapped_fk ''opening_telemetry_id'' ''telemetry'' ''id'' False,
       mapped_fk ''resolving_telemetry_id'' ''telemetry'' ''id'' True]\<rparr>"

definition AlertState_model :: model where
  "AlertState_model = \<lparr>mo_table = ''alert_states'',
     mo_args = [Model_unique ''uq_alert_states_active_episode_id'' [''active_episode_id''],
       Model_check ''high_streak_range'' ''high_streak BETWEEN 0 AND 2'', Model_check ''recovery_streak_range'' ''recovery_streak BETWEEN 0 AND 2''],
     mo_columns = [(mapped_fk ''device_id'' ''devices'' ''device_id'' False)\<lparr>mc_primary := True\<rparr>, mapped ''last_event_at'' Timestamptz False,
       mapped ''high_streak'' Small_int False, mapped ''recovery_streak'' Small_int False,
       mapped_fk ''active_episode_id'' ''alert_episodes'' ''id'' True]\<rparr>"

definition Base_models :: "model list" where
  "Base_models = [Site_model, Gateway_model, Device_model,
     Telemetry_model\<lparr>mo_args := mo_args Telemetry_model @ [event_at_index]\<rparr>, AlertEpisode_model, AlertState_model]"

text \<open>The type of a column without one is that of the column its foreign key names.\<close>

definition column_type :: "model list \<Rightarrow> model_column \<Rightarrow> sql_type option" where
  "column_type ms c =
     (case mc_type c of
        Some ty \<Rightarrow> Some ty
      | None \<Rightarrow>
          (case mc_foreign c of
             None \<Rightarrow> None
           | Some (tab, name) \<Rightarrow>
               (case find (\<lambda>m. mo_table m = tab) ms of
                  None \<Rightarrow> None
                | Some m \<Rightarrow> (case find (\<lambda>d. mc_name d = name) (mo_columns m) of None \<Rightarrow> None | Some d \<Rightarrow> mc_type d))))"

text \<open>The naming convention of \<open>Base.metadata\<close>.\<close>

definition model_constraints :: "model \<Rightarrow> table_constraint list" where
  "model_constraints m =
     Primary_key (''pk_'' @ mo_table m) (map mc_name (filter mc_primary (mo_columns m)))
     # concat (map (\<lambda>c. case mc_foreign c of None \<Rightarrow> []
         | Some (tab, name) \<Rightarrow> [fk (''fk_'' @ mo_table m @ ''_'' @ mc_name c @ ''_'' @ tab) (mc_name c) tab name]) (mo_columns m))
     @ concat (map (\<lambda>a. case a of
           Model_unique name cols \<Rightarrow> [Unique_key name cols]
         | Model_check name rule \<Rightarrow> [Check_rule (''ck_'' @ mo_table m @ ''_'' @ name) rule]
         | Model_index name elements unique cond \<Rightarrow> []) (mo_args m))"

definition model_indexes :: "model \<Rightarrow> index_def list" where
  "model_indexes m =
     map (\<lambda>c. plain_index (''ix_'' @ mo_table m @ ''_'' @ mc_name c) (mo_table m) [mc_name c]) (filter mc_index (mo_columns m))
     @ concat (map (\<lambda>a. case a of
           Model_index name elements unique cond \<Rightarrow>
             [\<lparr>ix_name = name, ix_table = mo_table m, ix_elements = elements, ix_unique = unique, ix_where = cond\<rparr>]
         | _ \<Rightarrow> []) (mo_args m))"

definition model_table :: "model list \<Rightarrow> model \<Rightarrow> table_def option" where
  "model_table ms m =
     map_option (\<lambda>cols. \<lparr>tb_name = mo_table m, tb_columns = cols, tb_constraints = model_constraints m\<rparr>)
       (those (map (\<lambda>c. map_option (\<lambda>ty. \<lparr>co_name = mc_name c, co_type = ty, co_nullable = mc_nullable c,
            co_default = mc_default c, co_identity = mc_identity c\<rparr>) (column_type ms c)) (mo_columns m)))"

definition metadata_schema :: "model list \<Rightarrow> schema option" where
  "metadata_schema ms =
     map_option (\<lambda>tables. \<lparr>sc_tables = tables, sc_indexes = concat (map model_indexes ms)\<rparr>) (those (map (model_table ms) ms))"

section \<open>Properties\<close>

text \<open>Two schemas agree when they differ only in the order of columns, constraints and indexes.\<close>

definition same_table :: "table_def \<Rightarrow> table_def \<Rightarrow> bool" where
  "same_table a b \<longleftrightarrow> tb_name a = tb_name b \<and> mset (tb_columns a) = mset (tb_columns b)
     \<and> mset (tb_constraints a) = mset (tb_constraints b)"

definition same_schema :: "schema \<Rightarrow> schema \<Rightarrow> bool" where
  "same_schema a b \<longleftrightarrow> list_all2 same_table (sc_tables a) (sc_tables b) \<and> mset (sc_indexes a) = mset (sc_indexes b)"

definition head_path :: "revision list" where
  "head_path = upgrade_path (length revisions) None revisions"

text \<open>The schema after the first \<open>k\<close> revisions.\<close>

definition schema_at :: "nat \<Rightarrow> schema option" where
  "schema_at k = run_ops (concat (map rv_upgrade (take k head_path))) empty_schema"

text \<open>
  C30. The revisions link into one path that has all of them in order, each of their operations is accepted, and the
  schema they build from nothing is the one the models declare under the naming convention: the same tables, columns
  with type, nullability and default, keys, checks and indexes, including the expression index that the comparison of
  \<open>env.py\<close> leaves out.
\<close>
theorem migrations_match_models:
  "map rv_id head_path = map rv_id revisions
   \<and> (case (schema_at (length revisions), metadata_schema Base_models) of
        (Some built, Some declared) \<Rightarrow> same_schema built declared
      | _ \<Rightarrow> False)"
  by code_simp

text \<open>Every revision of the path can be applied, and its downgrade gives back the schema before it.\<close>

fun reversible :: "revision list \<Rightarrow> schema \<Rightarrow> bool" where
  "reversible [] s \<longleftrightarrow> True"
| "reversible (r # rs) s \<longleftrightarrow>
     (case run_ops (rv_upgrade r) s of
        None \<Rightarrow> False
      | Some s' \<Rightarrow> run_ops (rv_downgrade r) s' = Some s \<and> reversible rs s')"

lemma run_ops_append: "run_ops (as @ bs) s = (case run_ops as s of None \<Rightarrow> None | Some s' \<Rightarrow> run_ops bs s')"
  by (induction as arbitrary: s) (simp_all split: option.splits)

lemma reversible_path:
  "reversible rs s \<Longrightarrow>
     \<exists>s'. run_ops (concat (map rv_upgrade rs)) s = Some s' \<and> run_ops (concat (map rv_downgrade (rev rs))) s' = Some s"
proof (induction rs arbitrary: s)
  case (Cons r rs)
  then obtain s1 where s1: "run_ops (rv_upgrade r) s = Some s1" "run_ops (rv_downgrade r) s1 = Some s" "reversible rs s1"
    by (auto split: option.splits)
  from Cons.IH [OF s1(3)] obtain s2 where "run_ops (concat (map rv_upgrade rs)) s1 = Some s2"
    "run_ops (concat (map rv_downgrade (rev rs))) s2 = Some s1" by blast
  with s1 show ?case by (simp add: run_ops_append)
qed simp

lemma head_path_reversible: "reversible head_path empty_schema"
  by code_simp

text \<open>
  C31. Every downgrade undoes its upgrade: each revision of the path applies to the schema its predecessors build, and
  the operations of its downgrade are accepted in their order and give back exactly that schema; all the downgrades
  together, from the last revision to the first, lead from the current schema back to the empty one.
\<close>
theorem migrations_round_trip:
  "reversible head_path empty_schema
   \<and> (\<exists>s. schema_at (length head_path) = Some s \<and> run_ops (concat (map rv_downgrade (rev head_path))) s = Some empty_schema)"
  using head_path_reversible reversible_path [OF head_path_reversible] by (simp add: schema_at_def)

end
