(* ===== verification/App_Config.thy ===== *)
theory App_Config
  imports Http_Api
begin

text \<open>
  Start-up of the backend: \<open>core/config.py\<close>, \<open>db/session.py\<close>, \<open>BrokerAdmin.from_environment\<close> of
  \<open>integrations/mqtt.py\<close>, \<open>check_database\<close> of \<open>core/health.py\<close> and the lifespan of \<open>main.py\<close>. The reader and the
  writer of libpq connection strings are parameters, and a dict of settings is an association list.
\<close>

type_synonym environ = "string \<Rightarrow> string option"
type_synonym settings = "(string \<times> string) list"

record conninfo_lib =
  cl_parse :: "string \<Rightarrow> settings option"
  cl_make :: "settings \<Rightarrow> string"

text \<open>A RuntimeError with its message, a ValueError of \<open>int\<close>, or a ProgrammingError of the driver.\<close>

datatype config_error = Runtime_error string | Value_error | Programming_error

section \<open>Dicts of settings\<close>

definition setting :: "settings \<Rightarrow> string \<Rightarrow> string" where
  "setting s name = (case map_of s name of None \<Rightarrow> '''' | Some v \<Rightarrow> v)"

fun put_setting :: "string \<Rightarrow> string \<Rightarrow> settings \<Rightarrow> settings" where
  "put_setting k v [] = [(k, v)]"
| "put_setting k v ((k', v') # s) = (if k = k' then (k, v) # s else (k', v') # put_setting k v s)"

definition setdefault :: "string \<Rightarrow> string \<Rightarrow> settings \<Rightarrow> settings" where
  "setdefault k v s = (if map_of s k = None then put_setting k v s else s)"

lemma map_of_put_setting [simp]: "map_of (put_setting k v s) = (map_of s)(k \<mapsto> v)"
  by (induction s) auto

definition getenv :: "environ \<Rightarrow> string \<Rightarrow> string \<Rightarrow> string" where
  "getenv env name d = (case env name of None \<Rightarrow> d | Some v \<Rightarrow> v)"

fun comma_join :: "string list \<Rightarrow> string" where
  "comma_join [] = ''''"
| "comma_join [x] = x"
| "comma_join (x # y # xs) = x @ '', '' @ comma_join (y # xs)"

section \<open>The connection string\<close>

definition required_settings :: "string list" where
  "required_settings = [''host'', ''dbname'', ''user'', ''password'']"

definition pg_variables :: settings where
  "pg_variables = [(''host'', ''PGHOST''), (''port'', ''PGPORT''), (''dbname'', ''PGDATABASE''), (''user'', ''PGUSER''),
     (''password'', ''PGPASSWORD'')]"

definition url_settings :: "conninfo_lib \<Rightarrow> string \<Rightarrow> (config_error, settings) result" where
  "url_settings lib database_url =
     (if \<not> (py_startswith database_url ''postgresql://'' \<or> py_startswith database_url ''postgres://'')
      then Inl (Runtime_error ''DATABASE_URL must be a PostgreSQL URL'')
      else (case cl_parse lib database_url of
              None \<Rightarrow> Inl (Runtime_error ''DATABASE_URL is not a valid PostgreSQL URL'')
            | Some settings \<Rightarrow>
                (let missing = filter (\<lambda>name. setting settings name = '''') required_settings
                 in if missing \<noteq> [] then Inl (Runtime_error (''DATABASE_URL is missing: '' @ comma_join missing))
                    else Inr (setdefault ''port'' ''5432'' settings))))"

definition pg_settings :: "environ \<Rightarrow> (config_error, settings) result" where
  "pg_settings env =
     (let missing = filter (\<lambda>name. getenv env name '''' = '''') (map snd pg_variables)
      in if missing \<noteq> [] then Inl (Runtime_error (''Missing database configuration: '' @ comma_join missing))
         else Inr (map (\<lambda>(key, name). (key, getenv env name '''')) pg_variables))"

text \<open>
  \<open>isascii\<close> and \<open>isdecimal\<close> leave one or more of the ten digits. \<open>int\<close> raises a ValueError for more than 4300 digits,
  the limit of the interpreter.
\<close>

definition check_port :: "string \<Rightarrow> string \<Rightarrow> (config_error, unit) result" where
  "check_port port_name port =
     (let refused = Inl (Runtime_error (port_name @ '' must be a number between 1 and 65535''))
      in if port = '''' \<or> \<not> list_all is_digit_c port then refused
         else if 4300 < length port then Inl Value_error
         else if \<not> (1 \<le> nat_of_digits 0 port \<and> nat_of_digits 0 port \<le> 65535) then refused
         else Inr ())"

definition database_conninfo :: "conninfo_lib \<Rightarrow> environ \<Rightarrow> (config_error, string) result" where
  "database_conninfo lib env =
     (let database_url = getenv env ''DATABASE_URL'' '''';
          (found, port_name) =
            (if database_url \<noteq> '''' then (url_settings lib database_url, ''DATABASE_URL port'')
             else (pg_settings env, ''PGPORT''))
      in res_bind found (\<lambda>settings.
           res_bind (check_port port_name (setting settings ''port'')) (\<lambda>_. Inr (cl_make lib settings))))"

section \<open>The engine, the probe and the broker\<close>

text \<open>The connect arguments of \<open>create_database_engine\<close>.\<close>

definition engine_settings :: "conninfo_lib \<Rightarrow> environ \<Rightarrow> (config_error, settings) result" where
  "engine_settings lib env =
     res_bind (database_conninfo lib env) (\<lambda>conninfo.
       (case cl_parse lib conninfo of
          None \<Rightarrow> Inl Programming_error
        | Some settings \<Rightarrow>
            (let s = put_setting ''connect_timeout'' ''3'' settings
             in Inr (put_setting ''options''
                  (py_strip (setting s ''options'' @ '' -c statement_timeout=5000 -c lock_timeout=5000 -c timezone=UTC'')) s))))"

text \<open>\<open>check_database\<close>: \<open>connect\<close> is the outcome of connecting with a timeout of 3 s and the options, and of the query.\<close>

definition check_database :: "conninfo_lib \<Rightarrow> (string \<Rightarrow> string \<Rightarrow> (config_error, unit) result) \<Rightarrow> environ \<Rightarrow> (config_error, unit) result" where
  "check_database lib connect env =
     res_bind (database_conninfo lib env) (\<lambda>conninfo. connect conninfo ''-c statement_timeout=2000'')"

record broker_config =
  bc_host :: string
  bc_port :: int
  bc_admin_password_file :: string
  bc_legacy_password_file :: string

definition from_environment :: "environ \<Rightarrow> (config_error, broker_config) result" where
  "from_environment env =
     (case py_int (getenv env ''MQTT_PORT'' ''1883'') of
        None \<Rightarrow> Inl Value_error
      | Some port \<Rightarrow> Inr \<lparr>bc_host = getenv env ''MQTT_HOST'' ''mosquitto'', bc_port = port,
          bc_admin_password_file = getenv env ''MQTT_ADMIN_PASSWORD_FILE'' ''/mosquitto-auth/admin.password'',
          bc_legacy_password_file = getenv env ''MQTT_LEGACY_PASSWORD_FILE'' ''/mosquitto-auth/passwd''\<rparr>)"

section \<open>The lifespan of the application\<close>

record app_state =
  as_credentials :: credentials
  as_engine :: settings
  as_broker :: broker_config

text \<open>What happens to the engine.\<close>

datatype engine_event = Engine_created | Engine_disposed

definition startup :: "conninfo_lib \<Rightarrow> (string \<Rightarrow> raw_json option) \<Rightarrow> environ \<Rightarrow> (config_error, app_state) result \<times> engine_event list" where
  "startup lib scan env =
     (case database_conninfo lib env of
        Inl x \<Rightarrow> (Inl x, [])
      | Inr _ \<Rightarrow>
          (case load_gateway_credentials scan (env ''GATEWAY_CREDENTIALS_JSON'') of
             None \<Rightarrow> (Inl (Runtime_error ''GATEWAY_CREDENTIALS_JSON must map gateway IDs to unique bearer tokens''), [])
           | Some credentials \<Rightarrow>
               (case engine_settings lib env of
                  Inl x \<Rightarrow> (Inl x, [])
                | Inr engine \<Rightarrow>
                    (case from_environment env of
                       Inl x \<Rightarrow> (Inl x, [Engine_created])
                     | Inr broker \<Rightarrow>
                         (Inr \<lparr>as_credentials = credentials, as_engine = engine, as_broker = broker\<rparr>, [Engine_created])))))"

text \<open>The application serves between start-up and the finally clause, whatever \<open>serve\<close> returns.\<close>

definition lifespan :: "conninfo_lib \<Rightarrow> (string \<Rightarrow> raw_json option) \<Rightarrow> environ \<Rightarrow> (app_state \<Rightarrow> 'r) \<Rightarrow> (config_error, 'r) result \<times> engine_event list" where
  "lifespan lib scan env serve =
     (case startup lib scan env of
        (Inl x, trace) \<Rightarrow> (Inl x, trace)
      | (Inr app, trace) \<Rightarrow> (Inr (serve app), trace @ [Engine_disposed]))"

section \<open>Properties\<close>

text \<open>Every error the configuration can raise: texts made of names of variables and settings only.\<close>

definition config_errors :: "config_error list" where
  "config_errors =
     [Value_error, Runtime_error ''DATABASE_URL must be a PostgreSQL URL'',
      Runtime_error ''DATABASE_URL is not a valid PostgreSQL URL'',
      Runtime_error ''DATABASE_URL port must be a number between 1 and 65535'',
      Runtime_error ''PGPORT must be a number between 1 and 65535'']
     @ map (\<lambda>names. Runtime_error (''DATABASE_URL is missing: '' @ comma_join names)) (subseqs required_settings)
     @ map (\<lambda>names. Runtime_error (''Missing database configuration: '' @ comma_join names)) (subseqs (map snd pg_variables))"

lemma filter_in_subseqs: "filter P xs \<in> set (subseqs xs)"
  by (simp add: set_subseqs_eq subseq_filter_left)

lemma url_settings_cases:
  "case url_settings lib u of
     Inl x \<Rightarrow> x \<in> set config_errors
   | Inr s \<Rightarrow> \<exists>s0. (py_startswith u ''postgresql://'' \<or> py_startswith u ''postgres://'') \<and> cl_parse lib u = Some s0
       \<and> s = setdefault ''port'' ''5432'' s0 \<and> list_all (\<lambda>name. setting s0 name \<noteq> '''') required_settings"
  using filter_in_subseqs [of "\<lambda>name. setting (the (cl_parse lib u)) name = ''''" required_settings]
  by (auto simp: url_settings_def config_errors_def Let_def list_all_iff filter_empty_conv split: option.splits)

lemma pg_settings_cases:
  "case pg_settings env of
     Inl x \<Rightarrow> x \<in> set config_errors
   | Inr s \<Rightarrow> s = map (\<lambda>(key, name). (key, getenv env name '''')) pg_variables
       \<and> list_all (\<lambda>name. setting s name \<noteq> '''') required_settings"
  using filter_in_subseqs [of "\<lambda>name. getenv env name '''' = ''''" "map snd pg_variables"]
  by (auto simp: pg_settings_def config_errors_def Let_def filter_empty_conv pg_variables_def setting_def required_settings_def)

lemma check_port_cases:
  "case check_port name port of
     Inl x \<Rightarrow> x \<in> {Value_error, Runtime_error (name @ '' must be a number between 1 and 65535'')}
   | Inr _ \<Rightarrow> port \<noteq> '''' \<and> list_all is_digit_c port \<and> 1 \<le> nat_of_digits 0 port \<and> nat_of_digits 0 port \<le> 65535"
  by (simp add: check_port_def Let_def)

definition usable :: "settings \<Rightarrow> bool" where
  "usable s \<longleftrightarrow> list_all (\<lambda>name. setting s name \<noteq> '''') required_settings
     \<and> list_all is_digit_c (setting s ''port'') \<and> 1 \<le> nat_of_digits 0 (setting s ''port'')
     \<and> nat_of_digits 0 (setting s ''port'') \<le> 65535"

text \<open>The settings the environment asks for: the URL first, with the default port, else the five PG variables.\<close>

definition configured :: "conninfo_lib \<Rightarrow> environ \<Rightarrow> settings \<Rightarrow> bool" where
  "configured lib env s \<longleftrightarrow>
     (if getenv env ''DATABASE_URL'' '''' \<noteq> ''''
      then \<exists>s0. cl_parse lib (getenv env ''DATABASE_URL'' '''') = Some s0 \<and> s = setdefault ''port'' ''5432'' s0
      else s = map (\<lambda>(key, name). (key, getenv env name '''')) pg_variables)"

lemma setdefault_setting: "name \<noteq> k \<Longrightarrow> setting (setdefault k v s) name = setting s name"
  by (simp add: setting_def setdefault_def)

lemma conninfo_cases:
  "case database_conninfo lib env of
     Inl x \<Rightarrow> x \<in> set config_errors
   | Inr conninfo \<Rightarrow> \<exists>s. conninfo = cl_make lib s \<and> usable s \<and> configured lib env s"
proof (cases "getenv env ''DATABASE_URL'' '''' = ''''")
  case True
  show ?thesis
  proof (cases "pg_settings env")
    case (Inr s)
    note found = pg_settings_cases [of env, unfolded Inr sum.case]
    show ?thesis
      using True Inr found [THEN conjunct1] found [THEN conjunct2] check_port_cases [of "''PGPORT''" "setting s ''port''"]
      by (cases "check_port ''PGPORT'' (setting s ''port'')")
        (auto simp: database_conninfo_def config_errors_def usable_def configured_def)
  qed (use True pg_settings_cases [of env] in \<open>simp add: database_conninfo_def\<close>)
next
  case False
  let ?u = "getenv env ''DATABASE_URL'' ''''"
  show ?thesis
  proof (cases "url_settings lib ?u")
    case (Inr s)
    then obtain s0 where s0: "cl_parse lib ?u = Some s0" "s = setdefault ''port'' ''5432'' s0"
        "list_all (\<lambda>name. setting s0 name \<noteq> '''') required_settings"
      using url_settings_cases [where lib = lib and u = ?u] by auto
    then have "list_all (\<lambda>name. setting s name \<noteq> '''') required_settings"
      by (simp add: required_settings_def setdefault_setting)
    then show ?thesis
      using False Inr s0 check_port_cases [of "''DATABASE_URL port''" "setting s ''port''"]
      by (cases "check_port ''DATABASE_URL port'' (setting s ''port'')")
        (auto simp: database_conninfo_def config_errors_def usable_def configured_def)
  qed (use False url_settings_cases [where lib = lib and u = ?u] in \<open>simp add: database_conninfo_def\<close>)
qed


lemma database_conninfo_Inr:
  assumes "database_conninfo lib env = Inr conninfo"
  obtains s where "conninfo = cl_make lib s" and "usable s" and "configured lib env s"
  using assms conninfo_cases [of lib env] by auto

text \<open>The driver reads back the settings of a connection string it has written, in an order of its own.\<close>

definition conninfo_read_back :: "conninfo_lib \<Rightarrow> environ \<Rightarrow> bool" where
  "conninfo_read_back lib env \<longleftrightarrow>
     (\<forall>s. configured lib env s \<and> usable s \<longrightarrow> (\<exists>s'. cl_parse lib (cl_make lib s) = Some s' \<and> map_of s' = map_of s))"

definition engine_options :: "settings \<Rightarrow> string" where
  "engine_options s = py_strip (setting s ''options'' @ '' -c statement_timeout=5000 -c lock_timeout=5000 -c timezone=UTC'')"

lemma engine_settings_Inr:
  assumes "conninfo_read_back lib env" and "database_conninfo lib env = Inr conninfo"
  obtains s engine where "usable s" and "configured lib env s" and "engine_settings lib env = Inr engine"
    and "map_of engine = (map_of s)(''connect_timeout'' \<mapsto> ''3'', ''options'' \<mapsto> engine_options s)"
proof -
  obtain s where s: "conninfo = cl_make lib s" "usable s" "configured lib env s"
    by (rule database_conninfo_Inr [OF assms(2)])
  then obtain s' where s': "cl_parse lib conninfo = Some s'" "map_of s' = map_of s"
    using assms(1) by (auto simp: conninfo_read_back_def)
  let ?engine = "put_setting ''options'' (engine_options s) (put_setting ''connect_timeout'' ''3'' s')"
  have "engine_settings lib env = Inr ?engine"
    using assms(2) s' by (simp add: engine_settings_def Let_def engine_options_def setting_def)
  with s(2,3) s'(2) show ?thesis by (intro that [of s ?engine]) simp_all
qed


definition demo_pg :: environ where
  "demo_pg = map_of [(''PGHOST'', ''db''), (''PGPORT'', ''5432''), (''PGDATABASE'', ''telemetry''), (''PGUSER'', ''app''),
     (''PGPASSWORD'', ''secret'')]"

definition demo_pg_settings :: settings where
  "demo_pg_settings = [(''host'', ''db''), (''port'', ''5432''), (''dbname'', ''telemetry''), (''user'', ''app''), (''password'', ''secret'')]"

definition demo_lib :: conninfo_lib where
  "demo_lib = \<lparr>cl_parse = (\<lambda>c. Some demo_pg_settings), cl_make = (\<lambda>s. ''host=db'')\<rparr>"


text \<open>
  A MQTT port that is no integer is found only after the engine exists and before the try block: the engine is not
  disposed.
\<close>
theorem engine_not_disposed:
  assumes "database_conninfo lib env = Inr conninfo" and "engine_settings lib env = Inr engine"
    and "load_gateway_credentials scan (env ''GATEWAY_CREDENTIALS_JSON'') = Some credentials"
    and "py_int (getenv env ''MQTT_PORT'' ''1883'') = None"
  shows "lifespan lib scan env serve = (Inl Value_error, [Engine_created])"
  using assms by (simp add: lifespan_def startup_def from_environment_def)

end
