(* ===== verification/Registry_Seed.thy ===== *)
theory Registry_Seed
  imports Ingestion
begin

text \<open>
  \<open>backend/app/db/seed.py\<close>: the demo registry, inserted where it is missing, in one transaction. INSERT ... ON CONFLICT
  DO NOTHING keeps a row with the same key; a new row has the default flags.
\<close>

section \<open>The seed\<close>

definition SITE_ID :: string where "SITE_ID = ''site-demo-001''"
definition GATEWAY_ID :: string where "GATEWAY_ID = ''gateway-demo-001''"
definition DEVICE_ID :: string where "DEVICE_ID = ''device-demo-001''"

text \<open>A SeedConflictError with its message, or an error of the database, also of \<open>scalar_one\<close> without a row.\<close>

datatype seed_error = Seed_conflict string | Seed_sql_error

definition insert_site :: "database \<Rightarrow> database" where
  "insert_site db =
     (if lookup_by s_site_id SITE_ID (sites db) \<noteq> None then db
      else db\<lparr>sites := sites db @ [\<lparr>s_site_id = SITE_ID, s_name = ''Demo site'', s_enabled = True\<rparr>]\<rparr>)"

definition insert_gateway :: "database \<Rightarrow> (seed_error, database) result" where
  "insert_gateway db =
     (if lookup_by g_gateway_id GATEWAY_ID (gateways db) \<noteq> None then Inr db
      else if lookup_by s_site_id SITE_ID (sites db) = None then Inl Seed_sql_error
      else Inr (db\<lparr>gateways := gateways db @ [\<lparr>g_gateway_id = GATEWAY_ID, g_site_id = SITE_ID, g_name = ''Demo gateway'', g_enabled = True\<rparr>]\<rparr>))"

definition insert_device :: "database \<Rightarrow> (seed_error, database) result" where
  "insert_device db =
     (if lookup_by d_device_id DEVICE_ID (devices db) \<noteq> None then Inr db
      else if lookup_by g_gateway_id GATEWAY_ID (gateways db) = None then Inl Seed_sql_error
      else Inr (db\<lparr>devices := devices db @ [\<lparr>d_device_id = DEVICE_ID, d_gateway_id = GATEWAY_ID, d_name = ''Demo device'',
             d_enabled = True, d_password_hash = None, d_mqtt_managed = False, d_last_seen_at = None\<rparr>]\<rparr>))"

definition scalar_one :: "'a option \<Rightarrow> (seed_error, 'a) result" where
  "scalar_one row = (case row of None \<Rightarrow> Inl Seed_sql_error | Some v \<Rightarrow> Inr v)"

text \<open>The state of the transaction after the seed; an error leaves it to be rolled back.\<close>

definition seed_registry :: "database \<Rightarrow> (seed_error, database) result" where
  "seed_registry db =
     (let db1 = insert_site db
      in res_bind (scalar_one (lookup_by s_site_id SITE_ID (sites db1))) (\<lambda>_.
         res_bind (insert_gateway db1) (\<lambda>db2.
         res_bind (scalar_one (map_option g_site_id (lookup_by g_gateway_id GATEWAY_ID (gateways db2)))) (\<lambda>parent_site.
           if parent_site \<noteq> SITE_ID then Inl (Seed_conflict ''Demo gateway belongs to a different site'')
           else res_bind (insert_device db2) (\<lambda>db3.
                res_bind (scalar_one (map_option d_gateway_id (lookup_by d_device_id DEVICE_ID (devices db3)))) (\<lambda>parent_gateway.
                  if parent_gateway \<noteq> GATEWAY_ID then Inl (Seed_conflict ''Demo device belongs to a different gateway'')
                  else Inr db3))))))"

text \<open>How \<open>main\<close> exits: with a message, or after printing the committed chain. \<open>commits\<close> is the fate of the commit.\<close>

datatype seed_exit = Exit_message string | Seed_committed

definition seed_main :: "bool \<Rightarrow> database \<Rightarrow> seed_exit \<times> database" where
  "seed_main commits db =
     (case seed_registry db of
        Inl (Seed_conflict message) \<Rightarrow> (Exit_message message, db)
      | Inl Seed_sql_error \<Rightarrow>
          (Exit_message ''Registry seed failed; check database access and run Alembic upgrade head'', db)
      | Inr db' \<Rightarrow>
          if commits then (Seed_committed, db')
          else (Exit_message ''Registry seed failed; check database access and run Alembic upgrade head'', db))"

section \<open>Properties\<close>

text \<open>The demo chain is in the registry, and nothing of the demo identifiers has another parent.\<close>

definition seeded :: "database \<Rightarrow> bool" where
  "seeded db \<longleftrightarrow> lookup_by s_site_id SITE_ID (sites db) \<noteq> None
     \<and> map_option g_site_id (lookup_by g_gateway_id GATEWAY_ID (gateways db)) = Some SITE_ID
     \<and> map_option d_gateway_id (lookup_by d_device_id DEVICE_ID (devices db)) = Some GATEWAY_ID"

definition foreign_demo :: "database \<Rightarrow> bool" where
  "foreign_demo db \<longleftrightarrow>
     (\<exists>g. lookup_by g_gateway_id GATEWAY_ID (gateways db) = Some g \<and> g_site_id g \<noteq> SITE_ID)
     \<or> (\<exists>d. lookup_by d_device_id DEVICE_ID (devices db) = Some d \<and> d_gateway_id d \<noteq> GATEWAY_ID)"

lemma demo_ids_not_empty [simp]: "SITE_ID \<noteq> ''''" "GATEWAY_ID \<noteq> ''''" "DEVICE_ID \<noteq> ''''"
  by (simp_all add: SITE_ID_def GATEWAY_ID_def DEVICE_ID_def)

text \<open>The rows the seed adds: each of the three only where no row has its key.\<close>

definition seed_rows :: "database \<Rightarrow> site_row list \<times> gateway_row list \<times> device_row list" where
  "seed_rows db =
     (if lookup_by s_site_id SITE_ID (sites db) = None then [\<lparr>s_site_id = SITE_ID, s_name = ''Demo site'', s_enabled = True\<rparr>] else [],
      if lookup_by g_gateway_id GATEWAY_ID (gateways db) = None
      then [\<lparr>g_gateway_id = GATEWAY_ID, g_site_id = SITE_ID, g_name = ''Demo gateway'', g_enabled = True\<rparr>] else [],
      if lookup_by d_device_id DEVICE_ID (devices db) = None
      then [\<lparr>d_device_id = DEVICE_ID, d_gateway_id = GATEWAY_ID, d_name = ''Demo device'', d_enabled = True,
             d_password_hash = None, d_mqtt_managed = False, d_last_seen_at = None\<rparr>] else [])"

definition with_seed :: "database \<Rightarrow> database" where
  "with_seed db = (case seed_rows db of (s, g, d) \<Rightarrow>
     db\<lparr>sites := sites db @ s, gateways := gateways db @ g, devices := devices db @ d\<rparr>)"

lemma seed_registry_eq:
  "seed_registry db =
     (if (\<exists>g. lookup_by g_gateway_id GATEWAY_ID (gateways db) = Some g \<and> g_site_id g \<noteq> SITE_ID)
      then Inl (Seed_conflict ''Demo gateway belongs to a different site'')
      else if (\<exists>d. lookup_by d_device_id DEVICE_ID (devices db) = Some d \<and> d_gateway_id d \<noteq> GATEWAY_ID)
      then Inl (Seed_conflict ''Demo device belongs to a different gateway'')
      else Inr (with_seed db))"
  by (cases "lookup_by s_site_id SITE_ID (sites db)"; cases "lookup_by g_gateway_id GATEWAY_ID (gateways db)";
      cases "lookup_by d_device_id DEVICE_ID (devices db)")
    (simp_all add: seed_registry_def insert_site_def insert_gateway_def insert_device_def scalar_one_def Let_def
      lookup_by_append with_seed_def seed_rows_def)

lemma with_seed_inv:
  assumes "db_inv db" and "\<not> foreign_demo db"
  shows "db_inv (with_seed db)"
proof -
  have "registry_ok (with_seed db)"
    using assms unfolding db_inv_def registry_ok_def with_seed_def seed_rows_def
    by (auto simp: lookup_by_None_iff image_iff)
  moreover have same: "telemetry (with_seed db) = telemetry db" "alert_episodes (with_seed db) = alert_episodes db"
      "alert_states (with_seed db) = alert_states db" "next_telemetry_id (with_seed db) = next_telemetry_id db"
      "next_episode_id (with_seed db) = next_episode_id db"
      "d_device_id ` set (devices db) \<subseteq> d_device_id ` set (devices (with_seed db))"
    by (auto simp: with_seed_def split: prod.splits)
  then have "telemetry_ok (with_seed db)" and "alerts_inv (with_seed db)"
    using assms(1) telemetry_ok_frame [of db "with_seed db"] alerts_inv_frame [of db "with_seed db"]
    by (simp_all add: db_inv_def)
  ultimately show ?thesis by (simp add: db_inv_def)
qed

lemma with_seed_seeded: "\<not> foreign_demo db \<Longrightarrow> seeded (with_seed db)"
  by (auto simp: seeded_def foreign_demo_def with_seed_def seed_rows_def lookup_by_append split: option.splits)

lemma seed_again: "seeded db \<Longrightarrow> seed_registry db = Inr db"
  by (auto simp: seeded_def seed_registry_eq with_seed_def seed_rows_def)

text \<open>
  C34. Seeding is all or nothing and repeatable. It fails without a change exactly when a demo identifier already has
  another parent or the commit fails. Otherwise the demo site, gateway and device exist, linked in this order; only
  those of the three rows that were missing are added, so names and flags of existing rows and all other tables stay;
  the invariant of the database is kept, and seeding again changes nothing.
\<close>
theorem seed_all_or_nothing:
  assumes "db_inv db"
  shows "case seed_main commits db of
      (Seed_committed, db') \<Rightarrow> commits \<and> \<not> foreign_demo db \<and> seeded db' \<and> db_inv db' \<and> db' = with_seed db
        \<and> seed_main commits db' = (Seed_committed, db')
    | (Exit_message message, db') \<Rightarrow> db' = db \<and> (foreign_demo db \<or> \<not> commits)"
proof (cases "foreign_demo db")
  case True
  then have "\<exists>message. seed_registry db = Inl (Seed_conflict message)" by (auto simp: foreign_demo_def seed_registry_eq)
  with True show ?thesis by (auto simp: seed_main_def)
next
  case False
  then have "seed_registry db = Inr (with_seed db)" by (auto simp: foreign_demo_def seed_registry_eq)
  then show ?thesis
    using False with_seed_inv [OF assms] with_seed_seeded seed_again [of "with_seed db"] by (simp add: seed_main_def)
qed

theorem seed_all_or_nothing_witness:
  "\<exists>db'. seed_main True demo_db = (Seed_committed, db') \<and> seeded db' \<and> db_inv db' \<and> length (devices db') = 2"
proof -
  have "\<not> foreign_demo demo_db" by (simp add: foreign_demo_def demo_db_def GATEWAY_ID_def DEVICE_ID_def)
  then have "fst (seed_main True demo_db) = Seed_committed" by (auto simp: seed_main_def foreign_demo_def seed_registry_eq)
  then obtain db' where run: "seed_main True demo_db = (Seed_committed, db')" by (cases "seed_main True demo_db") simp
  then have "seeded db' \<and> db_inv db' \<and> db' = with_seed demo_db"
    using seed_all_or_nothing [OF demo_db_inv, of True, unfolded run prod.case seed_exit.case] by blast
  moreover have "length (devices (with_seed demo_db)) = 2" by (simp add: with_seed_def seed_rows_def demo_db_def DEVICE_ID_def)
  ultimately show ?thesis using run by metis
qed

end
