(* ===== verification/Broker_Provisioning.thy ===== *)
theory Broker_Provisioning
  imports Py_Text
begin

text \<open>
  \<open>infra/mosquitto/provision.py\<close>: the local credentials of the broker. The state is the credential directory: absent,
  or a mode and its files. Docker, the random tokens and the success of the mkdir and of a write are parameters; a file
  that was created can be removed, and a chmod of it succeeds. An error is an exception of Python, of which only a
  keyboard interrupt is no \<open>Exception\<close>.
\<close>

section \<open>The directory\<close>

record cred_file =
  fi_text :: string
  fi_mode :: nat
  fi_owner :: "nat option"

record cred_dir =
  di_mode :: nat
  di_files :: "string \<rightharpoonup> cred_file"

datatype provision_error = Runtime string | File_exists | Os_error | Timeout_expired | Keyboard_interrupt

text \<open>How \<open>subprocess.run\<close> ends: with a return code and the mounted file as the container leaves it, or by an exception.\<close>

datatype run_result = Ran_with int string | Run_raises provision_error

record provision_env =
  pe_docker :: bool
  pe_mkdir :: bool
  pe_compose :: "string option"
  pe_hash :: "string \<Rightarrow> string \<Rightarrow> run_result"
  pe_chown :: "string \<Rightarrow> run_result"
  pe_token :: "nat \<Rightarrow> string"
  pe_writable :: "string \<Rightarrow> bool"
  pe_default_mode :: nat

type_synonym 'a dir_op = "cred_dir \<Rightarrow> (provision_error, 'a) result \<times> cred_dir"

text \<open>Octal file modes.\<close>

definition mode_600 :: nat where "mode_600 = 384"
definition mode_640 :: nat where "mode_640 = 416"
definition mode_644 :: nat where "mode_644 = 420"
definition mode_755 :: nat where "mode_755 = 493"

definition dret :: "'a \<Rightarrow> 'a dir_op" where
  "dret v d = (Inr v, d)"

definition draise :: "provision_error \<Rightarrow> 'a dir_op" where
  "draise x d = (Inl x, d)"

definition dbind :: "'a dir_op \<Rightarrow> ('a \<Rightarrow> 'b dir_op) \<Rightarrow> 'b dir_op" where
  "dbind m f d = (case m d of (Inl x, d') \<Rightarrow> (Inl x, d') | (Inr v, d') \<Rightarrow> f v d')"

text \<open>A failing write has already created the file.\<close>

definition write_file :: "provision_env \<Rightarrow> nat \<Rightarrow> string \<Rightarrow> string \<Rightarrow> unit dir_op" where
  "write_file env mode name text d =
     (if pe_writable env name then (Inr (), d\<lparr>di_files := (di_files d)(name \<mapsto> \<lparr>fi_text = text, fi_mode = mode, fi_owner = None\<rparr>)\<rparr>)
      else (Inl Os_error, d\<lparr>di_files := (di_files d)(name \<mapsto> \<lparr>fi_text = '''', fi_mode = mode, fi_owner = None\<rparr>)\<rparr>))"

definition update_file :: "string \<Rightarrow> (cred_file \<Rightarrow> cred_file) \<Rightarrow> cred_dir \<Rightarrow> cred_dir" where
  "update_file name f d = d\<lparr>di_files := (di_files d)(name := map_option f (di_files d name))\<rparr>"

definition chmod :: "string \<Rightarrow> nat \<Rightarrow> unit dir_op" where
  "chmod name mode d = (Inr (), update_file name (\<lambda>file. file\<lparr>fi_mode := mode\<rparr>) d)"

definition unlink :: "string \<Rightarrow> cred_dir \<Rightarrow> cred_dir" where
  "unlink name d = d\<lparr>di_files := (di_files d)(name := None)\<rparr>"

section \<open>The image\<close>

text \<open>
  The search for \<open>^\s+image: (eclipse-mosquitto:\S+)$\<close>, line by line. The white space may begin in a blank line before,
  so that after one the key may stand in the first column.
\<close>

definition image_key :: string where "image_key = ''image: ''"
definition image_name :: string where "image_name = ''eclipse-mosquitto:''"

definition image_of_line :: "bool \<Rightarrow> string \<Rightarrow> string option" where
  "image_of_line after_blank line =
     (let rest = dropWhile py_isspace line; img = drop (length image_key) rest
      in if (after_blank \<or> line \<noteq> rest) \<and> prefix image_key rest \<and> prefix image_name img
            \<and> length image_name < length img \<and> list_all (\<lambda>c. \<not> py_isspace c) img
         then Some img else None)"

fun first_image :: "bool \<Rightarrow> string list \<Rightarrow> string option" where
  "first_image after_blank [] = None"
| "first_image after_blank (line # rest) =
     (case image_of_line after_blank line of
        Some img \<Rightarrow> Some img
      | None \<Rightarrow> first_image (list_all py_isspace line) rest)"

definition broker_image :: "provision_env \<Rightarrow> (provision_error, string) result" where
  "broker_image env =
     (case pe_compose env of
        None \<Rightarrow> Inl Os_error
      | Some compose \<Rightarrow>
          (case first_image False (py_split_on (CHR 0x0A) compose) of
             None \<Rightarrow> Inl (Runtime ''Cannot find the pinned Mosquitto image in compose.yaml'')
           | Some img \<Rightarrow> Inr img))"

definition get_image :: "provision_env \<Rightarrow> string dir_op" where
  "get_image env d = (broker_image env, d)"

section \<open>The control password\<close>

definition USERS :: "string list" where
  "USERS = [''device-demo-001'', ''gateway-demo-001'', ''health'']"

text \<open>The try block of \<open>ensure_admin_password\<close>: an exclusive create, the mode for the group, and the owner.\<close>

definition create_admin :: "provision_env \<Rightarrow> string \<Rightarrow> unit dir_op" where
  "create_admin env token =
     dbind (write_file env mode_600 ''admin.password'' (token @ [CHR 0x0A])) (\<lambda>_.
     dbind (chmod ''admin.password'' mode_640) (\<lambda>_.
     dbind (get_image env) (\<lambda>img d.
       case pe_chown env img of
         Run_raises x \<Rightarrow> (Inl x, d)
       | Ran_with code _ \<Rightarrow>
           if code \<noteq> 0 then (Inl (Runtime ''Could not set MQTT admin file group to 1883''), d)
           else (Inr (), update_file ''admin.password'' (\<lambda>file. file\<lparr>fi_owner := Some 1883\<rparr>) d))))"

definition ensure_admin_password :: "provision_env \<Rightarrow> string \<Rightarrow> unit dir_op" where
  "ensure_admin_password env token d =
     (if di_files d ''admin.password'' \<noteq> None then (Inr (), d)
      else if di_files d ''passwd'' = None then (Inl (Runtime ''Mosquitto password file does not exist''), d)
      else if \<not> pe_docker env then (Inl (Runtime ''Docker is required to set MQTT admin file permissions''), d)
      else (case create_admin env token d of
              (Inr _, d') \<Rightarrow> (Inr (), d')
            | (Inl Keyboard_interrupt, d') \<Rightarrow> (Inl Keyboard_interrupt, d')
            | (Inl x, d') \<Rightarrow> (Inl x, unlink ''admin.password'' d')))"

section \<open>Provisioning\<close>

definition password_lines :: "(string \<times> string) list \<Rightarrow> string" where
  "password_lines passwords = concat (map (\<lambda>(user, password). user @ '':'' @ password @ [CHR 0x0A]) passwords)"

definition hash_passwords :: "provision_env \<Rightarrow> (string \<times> string) list \<Rightarrow> unit dir_op" where
  "hash_passwords env passwords =
     dbind (get_image env) (\<lambda>img d.
       case pe_hash env img (password_lines passwords) of
         Run_raises x \<Rightarrow> (Inl x, d)
       | Ran_with code hashed \<Rightarrow>
           (let d' = update_file ''passwd'' (\<lambda>file. file\<lparr>fi_text := hashed\<rparr>) d
            in if code \<noteq> 0 then (Inl (Runtime ''Mosquitto password hashing failed; check Docker''), d')
               else if list_ex (\<lambda>(user, password). sublist password hashed) passwords
               then (Inl (Runtime ''Mosquitto did not replace plaintext passwords''), d')
               else (Inr (), d')))"

fun write_passwords :: "provision_env \<Rightarrow> (string \<times> string) list \<Rightarrow> unit dir_op" where
  "write_passwords env [] = dret ()"
| "write_passwords env ((user, password) # rest) =
     dbind (write_file env (pe_default_mode env) (user @ ''.password'') (password @ [CHR 0x0A])) (\<lambda>_.
     dbind (chmod (user @ ''.password'') mode_600) (\<lambda>_. write_passwords env rest))"

text \<open>The try block of \<open>provision\<close>: the files of the users, then the control password.\<close>

definition fill_users :: "provision_env \<Rightarrow> (string \<times> string) list \<Rightarrow> unit dir_op" where
  "fill_users env passwords =
     dbind (write_file env (pe_default_mode env) ''passwd'' (password_lines passwords)) (\<lambda>_.
     dbind (chmod ''passwd'' mode_600) (\<lambda>_.
     dbind (hash_passwords env passwords) (\<lambda>_.
     dbind (chmod ''passwd'' mode_644) (\<lambda>_. write_passwords env passwords))))"

definition fill_directory :: "provision_env \<Rightarrow> (string \<times> string) list \<Rightarrow> unit dir_op" where
  "fill_directory env passwords =
     dbind (fill_users env passwords) (\<lambda>_. ensure_admin_password env (pe_token env (length USERS)))"

definition provision :: "provision_env \<Rightarrow> cred_dir option \<Rightarrow> (provision_error, unit) result \<times> cred_dir option" where
  "provision env st =
     (if \<not> pe_docker env then (Inl (Runtime ''Docker is required to hash local MQTT passwords''), st)
      else if st \<noteq> None then (Inl File_exists, st)
      else if \<not> pe_mkdir env then (Inl Os_error, st)
      else (let passwords = zip USERS (map (pe_token env) [0..<length USERS])
            in case fill_directory env passwords \<lparr>di_mode = mode_755, di_files = Map.empty\<rparr> of
                 (Inr _, d) \<Rightarrow> (Inr (), Some d)
               | (Inl Keyboard_interrupt, d) \<Rightarrow> (Inl Keyboard_interrupt, Some d)
               | (Inl x, d) \<Rightarrow> (Inl x, None)))"

text \<open>How \<open>main\<close> ends, after the parsing of the arguments.\<close>

datatype provision_end = Ready | Created "string list" | Already_exists | Exit_error provision_error | Interrupted_run

definition provision_main :: "provision_env \<Rightarrow> bool \<Rightarrow> cred_dir option \<Rightarrow> provision_end \<times> cred_dir option" where
  "provision_main env ensure_admin st =
     (case (if ensure_admin
            then (case st of
                    None \<Rightarrow> (Inl (Runtime ''Mosquitto password file does not exist''), None)
                  | Some d \<Rightarrow> map_prod id Some (ensure_admin_password env (pe_token env 0) d))
            else provision env st) of
        (Inr _, st') \<Rightarrow> (if ensure_admin then Ready else Created USERS, st')
      | (Inl File_exists, st') \<Rightarrow> (Already_exists, st')
      | (Inl Keyboard_interrupt, st') \<Rightarrow> (Interrupted_run, st')
      | (Inl x, st') \<Rightarrow> (Exit_error x, st'))"

section \<open>Properties\<close>

lemma dbind_Inr:
  "dbind m f d = (Inr v, d') \<longleftrightarrow> (\<exists>u d1. m d = (Inr u, d1) \<and> f u d1 = (Inr v, d'))"
  by (auto simp: dbind_def split: prod.splits sum.splits)

lemma write_file_Inr:
  "write_file env mode name text d = (Inr u, d') \<longleftrightarrow>
     pe_writable env name \<and> d' = d\<lparr>di_files := (di_files d)(name \<mapsto> \<lparr>fi_text = text, fi_mode = mode, fi_owner = None\<rparr>)\<rparr>"
  by (auto simp: write_file_def)

lemma chmod_Inr: "chmod name mode d = (Inr u, d') \<longleftrightarrow> d' = update_file name (\<lambda>file. file\<lparr>fi_mode := mode\<rparr>) d"
  by (auto simp: chmod_def)

lemma get_image_Inr: "get_image env d = (Inr img, d') \<longleftrightarrow> broker_image env = Inr img \<and> d' = d"
  by (auto simp: get_image_def)

lemma hash_passwords_Inr:
  assumes "hash_passwords env passwords d = (Inr u, d')"
  shows "\<exists>hashed. d' = update_file ''passwd'' (\<lambda>file. file\<lparr>fi_text := hashed\<rparr>) d
    \<and> \<not> list_ex (\<lambda>(user, password). sublist password hashed) passwords"
proof -
  obtain img where "(case pe_hash env img (password_lines passwords) of
         Run_raises x \<Rightarrow> (Inl x, d)
       | Ran_with code hashed \<Rightarrow>
           (let d' = update_file ''passwd'' (\<lambda>file. file\<lparr>fi_text := hashed\<rparr>) d
            in if code \<noteq> 0 then (Inl (Runtime ''Mosquitto password hashing failed; check Docker''), d')
               else if list_ex (\<lambda>(user, password). sublist password hashed) passwords
               then (Inl (Runtime ''Mosquitto did not replace plaintext passwords''), d')
               else (Inr (), d'))) = (Inr u, d')"
    using assms by (auto simp: hash_passwords_def dbind_Inr get_image_Inr)
  then show ?thesis by (auto simp: Let_def split: run_result.splits if_splits)
qed

definition with_admin :: "string \<Rightarrow> cred_dir \<Rightarrow> cred_dir" where
  "with_admin token d =
     d\<lparr>di_files := (di_files d)(''admin.password'' \<mapsto> \<lparr>fi_text = token @ [CHR 0x0A], fi_mode = mode_640, fi_owner = Some 1883\<rparr>)\<rparr>"

lemma create_admin_cases:
  assumes "create_admin env token d = (r, d')" and "di_files d ''admin.password'' = None"
  shows "unlink ''admin.password'' d' = d" and "r = Inr u \<Longrightarrow> d' = with_admin token d"
proof -
  have "d\<lparr>di_files := (di_files d)(''admin.password'' := None)\<rparr> = d" using assms(2) by (simp add: fun_upd_idem)
  then show "unlink ''admin.password'' d' = d"
    using assms(1) by (auto simp: create_admin_def dbind_def write_file_def chmod_def get_image_def update_file_def unlink_def
        split: if_splits run_result.splits sum.splits)
  show "r = Inr u \<Longrightarrow> d' = with_admin token d"
    using assms(1) by (auto simp: create_admin_def dbind_def write_file_def chmod_def get_image_def update_file_def with_admin_def
        split: if_splits run_result.splits sum.splits)
qed

lemma ensure_admin_cases:
  "case ensure_admin_password env token d of
     (Inr _, d') \<Rightarrow> d' = (if di_files d ''admin.password'' \<noteq> None then d else with_admin token d)
   | (Inl x, d') \<Rightarrow> x = Keyboard_interrupt \<or> d' = d"
proof (cases "di_files d ''admin.password'' = None \<and> di_files d ''passwd'' \<noteq> None \<and> pe_docker env")
  case True
  obtain r d1 where r: "create_admin env token d = (r, d1)" by (rule prod.exhaust)
  note c = create_admin_cases [OF r]
  show ?thesis
  proof (cases r)
    case (Inl x)
    then show ?thesis using True r c(1) by (cases x) (simp_all add: ensure_admin_password_def)
  next
    case (Inr u)
    then show ?thesis using True r c(2) by (auto simp: ensure_admin_password_def)
  qed
qed (auto simp: ensure_admin_password_def)

text \<open>The files of the users, and with the control password all files of a provisioned directory.\<close>

definition user_files :: "provision_env \<Rightarrow> string \<Rightarrow> string \<rightharpoonup> cred_file" where
  "user_files env hashed =
     [''passwd'' \<mapsto> \<lparr>fi_text = hashed, fi_mode = mode_644, fi_owner = None\<rparr>,
      ''device-demo-001.password'' \<mapsto> \<lparr>fi_text = pe_token env 0 @ [CHR 0x0A], fi_mode = mode_600, fi_owner = None\<rparr>,
      ''gateway-demo-001.password'' \<mapsto> \<lparr>fi_text = pe_token env 1 @ [CHR 0x0A], fi_mode = mode_600, fi_owner = None\<rparr>,
      ''health.password'' \<mapsto> \<lparr>fi_text = pe_token env 2 @ [CHR 0x0A], fi_mode = mode_600, fi_owner = None\<rparr>]"

definition provisioned_files :: "provision_env \<Rightarrow> string \<Rightarrow> string \<rightharpoonup> cred_file" where
  "provisioned_files env hashed = (user_files env hashed)(''admin.password'' \<mapsto>
     \<lparr>fi_text = pe_token env 3 @ [CHR 0x0A], fi_mode = mode_640, fi_owner = Some 1883\<rparr>)"

definition no_plaintext :: "provision_env \<Rightarrow> string \<Rightarrow> bool" where
  "no_plaintext env hashed \<longleftrightarrow> list_all (\<lambda>i. \<not> sublist (pe_token env i) hashed) [0..<length USERS]"

lemma fill_users_Inr:
  assumes "fill_users env (zip USERS (map (pe_token env) [0..<length USERS])) \<lparr>di_mode = mode_755, di_files = Map.empty\<rparr> = (Inr u, d)"
  shows "\<exists>hashed. d = \<lparr>di_mode = mode_755, di_files = user_files env hashed\<rparr> \<and> no_plaintext env hashed"
proof -
  have users: "zip USERS (map (pe_token env) [0..<length USERS]) =
      [(''device-demo-001'', pe_token env 0), (''gateway-demo-001'', pe_token env 1), (''health'', pe_token env 2)]"
    by (simp add: USERS_def upt_rec numeral_2_eq_2)
  obtain d1 d2 where d1: "d1 = \<lparr>di_mode = mode_755, di_files = [''passwd'' \<mapsto> \<lparr>fi_text = password_lines (zip USERS (map (pe_token env) [0..<length USERS])),
        fi_mode = mode_600, fi_owner = None\<rparr>]\<rparr>"
    and "hash_passwords env (zip USERS (map (pe_token env) [0..<length USERS])) d1 = (Inr (), d2)"
    and d: "write_passwords env (zip USERS (map (pe_token env) [0..<length USERS])) (update_file ''passwd'' (\<lambda>file. file\<lparr>fi_mode := mode_644\<rparr>) d2) = (Inr u, d)"
    using assms unfolding fill_users_def by (auto simp: dbind_Inr write_file_Inr chmod_Inr update_file_def)
  then obtain hashed where d2: "d2 = update_file ''passwd'' (\<lambda>file. file\<lparr>fi_text := hashed\<rparr>) d1"
    and plain: "\<not> list_ex (\<lambda>(user, password). sublist password hashed) (zip USERS (map (pe_token env) [0..<length USERS]))"
    using hash_passwords_Inr by blast
  have "d = \<lparr>di_mode = mode_755, di_files = user_files env hashed\<rparr>"
    using d unfolding users by (auto simp: dbind_Inr write_file_Inr chmod_Inr dret_def d1 d2 update_file_def user_files_def)
  moreover have "no_plaintext env hashed"
    using plain unfolding users no_plaintext_def by (simp add: USERS_def upt_rec numeral_2_eq_2)
  ultimately show ?thesis by blast
qed

lemma fill_directory_Inr:
  assumes "fill_directory env (zip USERS (map (pe_token env) [0..<length USERS])) \<lparr>di_mode = mode_755, di_files = Map.empty\<rparr> = (Inr u, d)"
  shows "\<exists>hashed. d = \<lparr>di_mode = mode_755, di_files = provisioned_files env hashed\<rparr> \<and> no_plaintext env hashed"
proof -
  obtain v d3 where "fill_users env (zip USERS (map (pe_token env) [0..<length USERS])) \<lparr>di_mode = mode_755, di_files = Map.empty\<rparr> = (Inr v, d3)"
    and admin: "ensure_admin_password env (pe_token env (length USERS)) d3 = (Inr u, d)"
    using assms unfolding fill_directory_def dbind_Inr by blast
  then obtain hashed where d3: "d3 = \<lparr>di_mode = mode_755, di_files = user_files env hashed\<rparr>" and plain: "no_plaintext env hashed"
    using fill_users_Inr by blast
  have "d = \<lparr>di_mode = mode_755, di_files = provisioned_files env hashed\<rparr>"
    using ensure_admin_cases [where env = env and token = "pe_token env (length USERS)" and d = d3] admin
    by (simp add: d3 provisioned_files_def user_files_def with_admin_def USERS_def numeral_3_eq_3)
  with plain show ?thesis by blast
qed

text \<open>The directory after a complete provisioning.\<close>

definition provisioned :: "provision_env \<Rightarrow> cred_dir \<Rightarrow> bool" where
  "provisioned env d \<longleftrightarrow> (\<exists>hashed. d = \<lparr>di_mode = mode_755, di_files = provisioned_files env hashed\<rparr> \<and> no_plaintext env hashed)"

lemma provision_cases:
  "case provision env st of
     (Inr _, st') \<Rightarrow> st = None \<and> (\<exists>d. st' = Some d \<and> provisioned env d)
   | (Inl x, st') \<Rightarrow> x = Keyboard_interrupt \<or> st' = st"
proof (cases "pe_docker env \<and> st = None \<and> pe_mkdir env")
  case True
  obtain r d where r: "fill_directory env (zip USERS (map (pe_token env) [0..<length USERS])) \<lparr>di_mode = mode_755, di_files = Map.empty\<rparr> = (r, d)"
    by (rule prod.exhaust)
  show ?thesis
  proof (cases r)
    case (Inl x)
    then show ?thesis using True r by (cases x) (simp_all add: provision_def)
  next
    case (Inr u)
    then show ?thesis using True r fill_directory_Inr [OF r [unfolded Inr]] by (simp add: provision_def provisioned_def)
  qed
qed (auto simp: provision_def)


text \<open>
  No silent rotation. Once provisioned, a directory is kept by every later run, in either mode and whatever Docker
  and the file system do: a second provisioning ends with an error and the control password is only confirmed.
\<close>
theorem provisioned_kept:
  assumes "provision_main env False st = (Created users, Some d)"
  shows "provision_main env' True (Some d) = (Ready, Some d)
    \<and> provision_main env' False (Some d) \<in> {(Already_exists, Some d),
        (Exit_error (Runtime ''Docker is required to hash local MQTT passwords''), Some d)}"
proof -
  have "provisioned env d"
    using assms provision_cases [where env = env and st = st]
    by (auto simp: provision_main_def split: prod.splits sum.splits provision_error.splits)
  then have "di_files d ''admin.password'' \<noteq> None" by (auto simp: provisioned_def provisioned_files_def)
  then show ?thesis by (auto simp: provision_main_def provision_def ensure_admin_password_def)
qed

definition sample_provision_env :: provision_env where
  "sample_provision_env = \<lparr>pe_docker = True, pe_mkdir = True, pe_compose = Some ''  image: eclipse-mosquitto:2'',
     pe_hash = (\<lambda>_ _. Ran_with 0 ''x''), pe_chown = (\<lambda>_. Ran_with 0 ''''),
     pe_token = (\<lambda>i. replicate (Suc i) (CHR ''t'')), pe_writable = (\<lambda>_. True), pe_default_mode = mode_644\<rparr>"

lemma sample_image: "broker_image sample_provision_env = Inr ''eclipse-mosquitto:2''"
  by code_simp

lemma sample_fields:
  "pe_docker sample_provision_env" "pe_mkdir sample_provision_env" "pe_writable sample_provision_env name"
  "pe_hash sample_provision_env = (\<lambda>_ _. Ran_with 0 ''x'')" "pe_chown sample_provision_env = (\<lambda>_. Ran_with 0 [])"
  "pe_token sample_provision_env i = CHR ''t'' # replicate i (CHR ''t'')"
  by (simp_all add: sample_provision_env_def)

lemma sample_plain: "\<not> sublist (CHR ''t'' # xs) ''x''"
  by (auto simp: sublist_def Cons_eq_append_conv)

lemma sample_admin: "create_admin sample_provision_env tok d = (Inr (), with_admin tok d)"
  by (simp add: create_admin_def dbind_def write_file_def chmod_def get_image_def sample_image sample_fields update_file_def with_admin_def)

lemma provisioned_kept_witness:
  "\<exists>d. provision_main sample_provision_env False None = (Created USERS, Some d)
    \<and> provision_main sample_provision_env True (Some d) = (Ready, Some d)"
proof -
  have "\<exists>d. fill_directory sample_provision_env (zip USERS (map (pe_token sample_provision_env) [0..<length USERS]))
      \<lparr>di_mode = mode_755, di_files = Map.empty\<rparr> = (Inr (), d)"
    by (simp add: fill_directory_def fill_users_def dbind_Inr write_file_Inr chmod_Inr hash_passwords_def get_image_Inr sample_image dret_def
        ensure_admin_password_def sample_admin update_file_def sample_fields sample_plain Let_def USERS_def upt_rec)
  then obtain d where "fill_directory sample_provision_env (zip USERS (map (pe_token sample_provision_env) [0..<length USERS]))
      \<lparr>di_mode = mode_755, di_files = Map.empty\<rparr> = (Inr (), d)" ..
  then have "\<exists>d. provision_main sample_provision_env False None = (Created USERS, Some d)"
    by (simp add: provision_main_def provision_def sample_fields)
  then obtain d where "provision_main sample_provision_env False None = (Created USERS, Some d)" ..
  then show ?thesis using provisioned_kept [where env' = sample_provision_env] by blast
qed

definition interrupted_env :: provision_env where
  "interrupted_env = sample_provision_env\<lparr>pe_hash := (\<lambda>_ _. Run_raises Keyboard_interrupt)\<rparr>"

definition interrupted_dir :: cred_dir where
  "interrupted_dir = \<lparr>di_mode = mode_755, di_files = [''passwd'' \<mapsto>
     \<lparr>fi_text = password_lines [(''device-demo-001'', ''t''), (''gateway-demo-001'', ''tt''), (''health'', ''ttt'')],
      fi_mode = mode_600, fi_owner = None\<rparr>]\<rparr>"

lemma interrupted_fields:
  "pe_docker interrupted_env" "pe_mkdir interrupted_env" "pe_writable interrupted_env name"
  "pe_hash interrupted_env = (\<lambda>_ _. Run_raises Keyboard_interrupt)" "pe_default_mode interrupted_env = mode_644"
  "pe_token interrupted_env i = replicate (Suc i) (CHR ''t'')"
  by (simp_all add: interrupted_env_def sample_provision_env_def)

lemma interrupted_run: "provision_main interrupted_env False None = (Interrupted_run, Some interrupted_dir)"
proof -
  have img: "broker_image interrupted_env = Inr ''eclipse-mosquitto:2''" by code_simp
  have passwords: "zip USERS (map (pe_token interrupted_env) [0..<length USERS]) =
      [(''device-demo-001'', ''t''), (''gateway-demo-001'', ''tt''), (''health'', ''ttt'')]"
    by (simp add: USERS_def upt_rec interrupted_fields)
  have "fill_directory interrupted_env [(''device-demo-001'', ''t''), (''gateway-demo-001'', ''tt''), (''health'', ''ttt'')]
      \<lparr>di_mode = mode_755, di_files = Map.empty\<rparr> = (Inl Keyboard_interrupt, interrupted_dir)"
    by (simp add: fill_directory_def fill_users_def dbind_def hash_passwords_def get_image_def img write_file_def chmod_def update_file_def
        interrupted_fields interrupted_dir_def)
  then show ?thesis by (simp add: provision_main_def provision_def passwords interrupted_fields)
qed

text \<open>
  The clean-up misses an interrupt: a keyboard interrupt while the container hashes the passwords leaves the directory
  with the plaintext password file, and the next run refuses the existing directory.
\<close>
theorem interrupt_leaves_plaintext:
  "\<exists>env d. provision_main env False None = (Interrupted_run, Some d)
     \<and> (\<exists>file. di_files d ''passwd'' = Some file \<and> sublist (pe_token env 0) (fi_text file))
     \<and> provision_main sample_provision_env False (Some d) = (Already_exists, Some d)"
proof -
  have "password_lines ((user, password) # rest) = (user @ '':'') @ password @ (CHR 0x0A # password_lines rest)" for user password rest
    by (simp add: password_lines_def)
  then have "sublist password (password_lines ((user, password) # rest))" for user password rest
    by (simp only: sublist_appendI)
  then have "\<exists>file. di_files interrupted_dir ''passwd'' = Some file \<and> sublist (pe_token interrupted_env 0) (fi_text file)"
    by (simp add: interrupted_dir_def interrupted_fields)
  moreover have "provision_main sample_provision_env False (Some interrupted_dir) = (Already_exists, Some interrupted_dir)"
    by (simp add: provision_main_def provision_def sample_provision_env_def)
  ultimately show ?thesis using interrupted_run by (intro exI [of _ interrupted_env] exI [of _ interrupted_dir] conjI)
qed

end
