(* ===== verification/Published_Contract.thy ===== *)
theory Published_Contract
  imports End_To_End
begin

text \<open>
  \<open>backend/app/telemetry/openapi.py\<close>: the published contract of the ingestion endpoint and its installation in the
  document of the application, as JSON trees. What pydantic derives from the models (the schemas) and what FastAPI
  generates from the routes are parameters. The properties tie the contract to the endpoint it describes.
\<close>

section \<open>The contract\<close>

text \<open>The request examples are in \<open>Telemetry_Validation\<close>.\<close>

definition request_examples :: raw_json where
  "request_examples = RObj [
     (''valid'', RObj [(''summary'', RStr ''F01: valid temperature reading''), (''value'', example_valid)]),
     (''unknown_clock'', RObj [(''summary'', RStr ''Explicitly null measurement time with unknown clock quality''),
        (''value'', example_unknown_clock)]),
     (''mixed'', RObj [(''summary'', RStr ''F05: new events, matching retry, and an invalid unit''),
        (''description'', RStr ''Assumes committed F01; validate each item independently.''),
        (''value'', example_mixed)])]"

definition mixed_result :: "int \<times> string \<Rightarrow> raw_json" where
  "mixed_result p = (case p of (number, result) \<Rightarrow>
     RObj ([(''device_id'', RStr ''motor-001''), (''boot_id'', RStr ''boot-a''), (''sequence_number'', RInt number),
        (''outcome'', RStr result)] @ (if result = ''rejected'' then [(''reason'', RStr ''invalid_unit'')] else [])))"

definition MIXED_RESPONSE :: raw_json where
  "MIXED_RESPONSE = RObj [(''batch_id'', RStr ''01K5EXAMPLE''),
     (''results'', RArr (map mixed_result [(101, ''accepted''), (100, ''duplicate''), (102, ''rejected''), (103, ''accepted'')]))]"

definition UNSUPPORTED_VERSION_ERROR :: raw_json where
  "UNSUPPORTED_VERSION_ERROR = RObj [(''detail'', RObj [
     (''reason'', RStr ''unsupported_schema_version''),
     (''message'', RStr ''Only schema_version 1 is supported.''),
     (''details'', RArr [RObj [(''loc'', RArr [RStr ''schema_version'']), (''code'', RStr ''literal_error''),
        (''message'', RStr ''Input should be 1'')]])])]"

definition schema_ref :: "string \<Rightarrow> raw_json" where
  "schema_ref model = RObj [(''$ref'', RStr (''#/components/schemas/'' @ model))]"

definition json_content :: "raw_json \<Rightarrow> raw_json \<Rightarrow> raw_json" where
  "json_content schema examples = RObj [(''application/json'', RObj [(''schema'', schema), (''examples'', examples)])]"

definition ingestion_path :: string where "ingestion_path = ''/api/v1/telemetry/batches''"

definition ingestion_responses :: "(string \<times> raw_json) list" where
  "ingestion_responses = [
     (''200'', RObj [(''description'', RStr ''Processing and commit succeeded''),
        (''content'', json_content (schema_ref ''TelemetryBatchResponse'')
           (RObj [(''mixed'', RObj [(''value'', MIXED_RESPONSE)])]))]),
     (''400'', RObj [(''description'', RStr ''Invalid envelope; no item processing''),
        (''content'', json_content
           (RObj [(''type'', RStr ''object''), (''required'', RArr [RStr ''detail'']),
              (''properties'', RObj [(''detail'', schema_ref ''TelemetryBatchError'')])])
           (RObj [(''unsupported_version'', RObj [(''value'', UNSUPPORTED_VERSION_ERROR)])]))]),
     (''401'', RObj [(''description'', RStr ''Missing or invalid gateway credential'')]),
     (''403'', RObj [(''description'', RStr ''Gateway credential is not authorized'')]),
     (''503'', RObj [(''description'', RStr ''Database/commit failure; retry unchanged'')]),
     (''5XX'', RObj [(''description'', RStr ''Transient server/commit failure; no accepted claims'')])]"

definition ingestion_operation :: raw_json where
  "ingestion_operation = RObj [
     (''operationId'', RStr ''ingestTelemetryBatch''),
     (''summary'', RStr ''Ingest a version 1 telemetry batch''),
     (''description'', RStr (''Authenticate first, validate the envelope, then classify each ''
        @ ''item independently. Invalid items do not block valid ones. ''
        @ ''One result per item in input order; accepted requires a ''
        @ ''durable database commit. Unknown identity fields on bad items ''
        @ ''are null. Structural item errors take precedence over metric, ''
        @ ''then unit errors.'')),
     (''x-implementation-status'', RStr ''implemented''),
     (''security'', RArr [RObj [(''GatewayCredential'', RArr [])]]),
     (''requestBody'', RObj [(''required'', RBool True),
        (''content'', json_content (schema_ref ''TelemetryBatch'') request_examples)]),
     (''responses'', RObj ingestion_responses)]"

definition contract_paths :: "(string \<times> raw_json) list" where
  "contract_paths = [(ingestion_path, RObj [(''post'', ingestion_operation)])]"

definition contract_components :: "(string \<times> raw_json) list \<Rightarrow> (string \<times> (string \<times> raw_json) list) list" where
  "contract_components defs = [(''schemas'', defs),
     (''securitySchemes'', [(''GatewayCredential'', RObj [(''type'', RStr ''http''), (''scheme'', RStr ''bearer'')])])]"

text \<open>\<open>defs\<close> are the definitions pydantic derives from the three models.\<close>

definition build_telemetry_openapi :: "(string \<times> raw_json) list \<Rightarrow> raw_json" where
  "build_telemetry_openapi defs = RObj [
     (''openapi'', RStr ''3.1.0''),
     (''info'', RObj [(''title'', RStr ''Telemetry ingestion contract''), (''version'', RStr ''telemetry-batch.v1''),
        (''description'', RStr (''Implemented ingestion endpoint with prototype bearer credentials, ''
           @ ''registry ownership, independent outcomes and durable persistence.''))]),
     (''paths'', RObj contract_paths),
     (''components'', RObj (map (\<lambda>(section, definitions). (section, RObj definitions)) (contract_components defs)))]"

section \<open>The examples\<close>

text \<open>
  What ingestion answers when every device is open and every identity it meets again has the same content: a stored or
  repeated identity is a duplicate, every other reading is accepted, and a rejection passes through.
\<close>

fun expected_results :: "identity set \<Rightarrow> batch_item list \<Rightarrow> response_item list" where
  "expected_results ids [] = []"
| "expected_results ids (Rejected_item r # items) = r # expected_results ids items"
| "expected_results ids (Valid_item e # items) =
     answer e (if ev_identity e \<in> ids then Duplicate else Accepted) None
       # expected_results (insert (ev_identity e) ids) items"

definition valid_events :: "batch_item list \<Rightarrow> telemetry_event set" where
  "valid_events items = {e. Valid_item e \<in> set items}"

definition same_content :: "telemetry_event \<Rightarrow> telemetry_event \<Rightarrow> bool" where
  "same_content e e' \<longleftrightarrow> content_matches (event_row 0 0 1 e) 1 e'"

definition repeats_agree :: "database \<Rightarrow> batch_item list \<Rightarrow> bool" where
  "repeats_agree db items \<longleftrightarrow>
     (\<forall>e \<in> valid_events items. \<forall>row \<in> set (telemetry db). t_identity row = ev_identity e \<longrightarrow> content_matches row 1 e)
     \<and> (\<forall>e \<in> valid_events items. \<forall>e' \<in> valid_events items. ev_identity e = ev_identity e' \<longrightarrow> same_content e e')"

lemma valid_events_Cons [simp]:
  "valid_events (Rejected_item r # items) = valid_events items"
  "valid_events (Valid_item e # items) = insert e (valid_events items)" "valid_events [] = {}"
  by (auto simp: valid_events_def)

lemma content_event_row: "content_matches (event_row i t 1 e) 1 e' = same_content e e'"
  by (simp add: same_content_def content_matches_def event_row_def)

lemma expected_scan:
  assumes "ingest_inv asg st" and "list_all item_ok items" and "repeats_agree (snd st) items"
    and "\<forall>e \<in> valid_events items. assignment_reason gid (asg (ev_device_id e)) = None \<and> ie_numeric_ok env (ev_value e)"
  shows "\<exists>st'. res_scan (ingest_item env gid 1 asg) index items st =
      Inr (expected_results (t_identity ` set (telemetry (snd st))) items, st')
    \<and> (\<forall>row \<in> set (telemetry (snd st')). row \<in> set (telemetry (snd st)) \<or> (\<exists>e \<in> valid_events items. \<exists>i t. row = event_row i t 1 e))
    \<and> t_identity ` set (telemetry (snd st')) = t_identity ` set (telemetry (snd st)) \<union> ev_identity ` valid_events items"
  using assms
proof (induction items arbitrary: index st)
  case (Cons item items)
  obtain states db where st: "st = (states, db)" by (rule prod.exhaust)
  have ok: "item_ok item" "list_all item_ok items" using Cons.prems(2) by simp_all
  let ?all = "\<lambda>db'. telemetry db'"
  have next_step: ?case
    if step: "ingest_item env gid 1 asg index item st = Inr (r, states', db')"
      and inv: "ingest_inv asg (states', db')" and agree: "repeats_agree db' items"
      and rows: "\<forall>row \<in> set (telemetry db'). row \<in> set (telemetry db) \<or> (\<exists>e i t. item = Valid_item e \<and> row = event_row i t 1 e)"
      and known: "t_identity ` set (telemetry db') = t_identity ` set (telemetry db) \<union> ev_identity ` valid_events [item]"
      and r: "expected_results (t_identity ` set (telemetry db)) (item # items) = r # expected_results (t_identity ` set (telemetry db')) items"
    for r states' db'
  proof -
    have fits: "\<forall>e \<in> valid_events items. assignment_reason gid (asg (ev_device_id e)) = None \<and> ie_numeric_ok env (ev_value e)"
      using Cons.prems(4) by (cases item) auto
    obtain st' where st': "res_scan (ingest_item env gid 1 asg) (Suc index) items (states', db') =
          Inr (expected_results (t_identity ` set (telemetry db')) items, st')"
        "\<forall>row \<in> set (telemetry (snd st')). row \<in> set (telemetry db') \<or> (\<exists>e \<in> valid_events items. \<exists>i t. row = event_row i t 1 e)"
        "t_identity ` set (telemetry (snd st')) = t_identity ` set (telemetry db') \<union> ev_identity ` valid_events items"
      using Cons.IH [OF inv ok(2), of "Suc index", unfolded snd_conv, OF agree fits] by (elim exE conjE) (rule that)
    have sub: "valid_events (item # items) = valid_events [item] \<union> valid_events items" by (cases item) simp_all
    show ?thesis
    proof (intro exI conjI)
      show "res_scan (ingest_item env gid 1 asg) index (item # items) st =
          Inr (expected_results (t_identity ` set (telemetry (snd st))) (item # items), st')"
        using step st'(1) r by (simp add: st)
      show "\<forall>row \<in> set (telemetry (snd st')). row \<in> set (telemetry (snd st))
          \<or> (\<exists>e \<in> valid_events (item # items). \<exists>i t. row = event_row i t 1 e)"
      proof
        fix row assume "row \<in> set (telemetry (snd st'))"
        then consider (before) "row \<in> set (telemetry db')" | (later) e i t where "e \<in> valid_events items" "row = event_row i t 1 e"
          using st'(2) by blast
        then show "row \<in> set (telemetry (snd st)) \<or> (\<exists>e \<in> valid_events (item # items). \<exists>i t. row = event_row i t 1 e)"
        proof cases
          case before
          then consider "row \<in> set (telemetry db)" | e i t where "item = Valid_item e" "row = event_row i t 1 e" using rows by blast
          then show ?thesis by cases (auto simp: st)
        qed (auto simp: sub)
      qed
      show "t_identity ` set (telemetry (snd st')) = t_identity ` set (telemetry (snd st)) \<union> ev_identity ` valid_events (item # items)"
        by (simp only: st'(3) known st snd_conv sub image_Un Un_assoc)
    qed
  qed
  have inv: "ingest_inv asg (states, db)" using Cons.prems(1) by (simp add: st)
  show ?case
  proof (rule ingest_item_cases [OF inv ok(1), where env = env and gid = gid and index = index])
    fix r assume "item = Rejected_item r" "ingest_item env gid 1 asg index item (states, db) = Inr (r, states, db)"
    then show ?thesis using inv Cons.prems(3) by (intro next_step) (simp_all add: st repeats_agree_def)
  next
    fix e reason assume "item = Valid_item e" "assignment_reason gid (asg (ev_device_id e)) = Some reason"
    then show ?thesis using Cons.prems(4) by simp
  next
    fix e assume "item = Valid_item e" "\<not> ie_numeric_ok env (ev_value e)"
    then show ?thesis using Cons.prems(4) by simp
  next
    fix e row assume e: "item = Valid_item e" and row: "lookup_by t_identity (ev_identity e) (telemetry db) = Some row"
      and step: "ingest_item env gid 1 asg index item (states, db) =
         Inr (if content_matches row 1 e then answer e Duplicate None else answer e Rejected (Some Identity_conflict), states, used_id db)"
    have row_in: "row \<in> set (telemetry db)" "t_identity row = ev_identity e" using lookup_by_SomeD [OF row] by simp_all
    then have "content_matches row 1 e" using Cons.prems(3) by (simp add: st e repeats_agree_def)
    moreover have "ev_identity e \<in> t_identity ` set (telemetry db)" using row_in by force
    moreover have "ingest_inv asg (states, used_id db)"
      using inv by (simp add: ingest_inv_def used_id_inv cache_ok_cong [of "used_id db" db])
    ultimately show ?thesis using step Cons.prems(3)
      by (intro next_step [of "answer e Duplicate None" states "used_id db"]) (auto simp: st e repeats_agree_def insert_absorb)
  next
    fix e states' db2 assume e: "item = Valid_item e" and new: "lookup_by t_identity (ev_identity e) (telemetry db) = None"
      and after: "db_inv db2" "cache_ok states' db2" "same_but_alerts (stored env index e db) db2"
      and step: "ingest_item env gid 1 asg index item (states, db) = Inr (answer e Accepted None, states', presence_after env index e db2)"
    let ?row = "event_row (next_telemetry_id db) (ie_insert_clock env index) 1 e"
    have tel: "telemetry db2 = telemetry db @ [?row]"
      using after(3) by (simp add: same_but_alerts_def stored_def)
    have "ev_identity e \<notin> t_identity ` set (telemetry db)" using new by (simp add: lookup_by_None_iff)
    moreover have "repeats_agree (presence_after env index e db2) items"
      using Cons.prems(3) by (auto simp: st e repeats_agree_def tel content_event_row)
    ultimately show ?thesis using step accepted_inv [OF inv after]
      by (intro next_step [of "answer e Accepted None" states' "presence_after env index e db2"]) (auto simp: st e tel)
  qed
qed (use assms in auto)

lemma expected_batch:
  assumes db: "db_inv db" "eligible db gid" "repeats_agree db (vb_items batch)"
    and ok: "batch_ok batch" "identifier_ok batch_id" "ie_commits env"
    and events: "\<forall>e \<in> valid_events (vb_items batch). open_device db gid (ev_device_id e) \<and> ie_numeric_ok env (ev_value e)"
  obtains db' where "ingest_batch env gid batch batch_id db = (Inr \<lparr>br_batch_id = batch_id,
        br_results = expected_results (t_identity ` set (telemetry db)) (vb_items batch)\<rparr>, db')"
    and "\<forall>row \<in> set (telemetry db'). row \<in> set (telemetry db) \<or> (\<exists>e \<in> valid_events (vb_items batch). \<exists>i t. row = event_row i t 1 e)"
    and "t_identity ` set (telemetry db') = t_identity ` set (telemetry db) \<union> ev_identity ` valid_events (vb_items batch)"
    and "db_inv db'" and "extends db db'"
proof -
  let ?asg = "batch_assignments db batch"
  have fits: "\<forall>e \<in> valid_events (vb_items batch). assignment_reason gid (?asg (ev_device_id e)) = None \<and> ie_numeric_ok env (ev_value e)"
  proof
    fix e assume e: "e \<in> valid_events (vb_items batch)"
    then have "ev_device_id e \<in> batch_device_ids (vb_items batch)" by (force simp: valid_events_def batch_device_ids_def)
    then show "assignment_reason gid (?asg (ev_device_id e)) = None \<and> ie_numeric_ok env (ev_value e)"
      using events e by (auto simp: open_device_def assignment_reason_def lock_assignments_def)
  qed
  show thesis
  proof (rule ingest_batch_cases [OF db(1) ok(1,2), where env = env and gid = gid])
    fix rs st'
    assume run: "res_scan (ingest_item env gid 1 ?asg) 0 (vb_items batch) (Map.empty, db) = Inr (rs, st')"
      and inv: "ingest_inv ?asg (Map.empty, db)" "ingest_inv ?asg st'"
      and result: "ingest_batch env gid batch batch_id db = (Inr \<lparr>br_batch_id = batch_id, br_results = rs\<rparr>, snd st')"
    have items: "list_all item_ok (vb_items batch)" using ok(1) by (simp add: batch_ok_def)
    note scan = expected_scan [OF inv(1) items, unfolded snd_conv, OF db(3) fits, of 0]
    have "extends db (snd st')" using committed_answers [OF db(1) ok(1,2) result] by simp
    with scan run result inv(2) show thesis by (intro that [of "snd st'"]) (auto simp: ingest_inv_def)
  qed (use db(2) ok(3) in simp_all)
qed

lemma submit_batch:
  assumes "parse_telemetry_batch scan V body = Inr batch" and "resolve_gateway cs headers = Some gid"
    and "ingest_batch env gid batch batch_id db = (Inr response, db')"
  shows "ingest_telemetry scan V env cs headers body batch_id db = (ok_response 200 response, db')"
  using assms by (simp add: ingest_telemetry_def read_telemetry_batch_def)

text \<open>The requests the examples parse to.\<close>

definition valid_batch :: validated_batch where
  "valid_batch = \<lparr>vb_schema_version = 1, vb_items = [Valid_item documented_event]\<rparr>"

definition mixed_batch :: validated_batch where
  "mixed_batch = \<lparr>vb_schema_version = 1, vb_items = [
     Valid_item (documented_event\<lparr>ev_sequence_number := 101\<rparr>), Valid_item documented_event,
     Rejected_item \<lparr>ri_device_id = Some ''motor-001'', ri_boot_id = Some ''boot-a'',
       ri_sequence_number = Some 102, ri_outcome = Rejected, ri_reason = Some Invalid_unit\<rparr>,
     Valid_item (documented_event\<lparr>ev_sequence_number := 103\<rparr>)]\<rparr>"

lemma example_batches:
  "parse_telemetry_batch Some core_check example_valid = Inr valid_batch"
  "parse_telemetry_batch Some core_check example_mixed = Inr mixed_batch"
  unfolding valid_batch_def mixed_batch_def by code_simp+

lemma example_batches_ok: "batch_ok valid_batch" "batch_ok mixed_batch"
  using pydantic_core.parsed_batch_ok [OF core.pydantic_core_axioms example_batches(1)]
    pydantic_core.parsed_batch_ok [OF core.pydantic_core_axioms example_batches(2)] by (simp_all add: batch_ok_def)

lemma mixed_response_json:
  "load_value MIXED_RESPONSE = Some (response_json \<lparr>br_batch_id = ''01K5EXAMPLE'',
     br_results = expected_results {(''motor-001'', ''boot-a'', 100)} (vb_items mixed_batch)\<rparr>)"
  by code_simp

lemma contract_batch_id: "identifier_ok ''01K5EXAMPLE''"
  by code_simp

lemma expected_results_cong:
  "\<forall>e \<in> valid_events items. ev_identity e \<in> A \<longleftrightarrow> ev_identity e \<in> B \<Longrightarrow> expected_results A items = expected_results B items"
proof (induction items arbitrary: A B)
  case (Cons item items)
  then show ?case by (cases item) auto
qed simp

text \<open>
  C37. The published examples are true. Wherever motor-001 is an enabled device of the authenticated gateway and the three
  readings are new, the endpoint accepts the first example, and then answers the mixed example, committed under the batch
  id of the contract, with exactly the JSON body the contract publishes for it: two accepted readings, the duplicate of
  the first example, and one rejection by its unit, in order.
\<close>
theorem published_examples_hold:
  assumes "open_device db gid ''motor-001''" and "resolve_gateway cs headers = Some gid"
    and "ie_commits env" and "ie_commits env'" and "ie_numeric_ok env (314 / 10)" and "ie_numeric_ok env' (314 / 10)"
    and "identifier_ok batch_id"
    and new: "\<forall>n \<in> {100, 101, 103}. (''motor-001'', ''boot-a'', n) \<notin> t_identity ` set (telemetry db)"
  shows "\<exists>first db1 second db2.
      ingest_telemetry Some core_check env cs headers example_valid batch_id db = (first, db1) \<and> hr_status first = 200
    \<and> ingest_telemetry Some core_check env' cs headers example_mixed ''01K5EXAMPLE'' db1 = (second, db2)
    \<and> hr_status second = 200 \<and> map_option response_json (hr_body second) = load_value MIXED_RESPONSE"
proof -
  have db: "db_inv db" "eligible db gid" using assms(1) by (simp_all add: open_device_def)
  have event: "ev_device_id documented_event = ''motor-001''" "ev_value documented_event = 314 / 10"
    "ev_identity (documented_event\<lparr>ev_sequence_number := n\<rparr>) = (''motor-001'', ''boot-a'', n)"
    "ev_identity documented_event = (''motor-001'', ''boot-a'', 100)" for n
    by (simp_all add: documented_event_def ev_identity_def)
  have self: "same_content e e" for e by (simp add: same_content_def content_matches_def event_row_def)
  have unseen: "t_identity row = (''motor-001'', ''boot-a'', n) \<Longrightarrow> row \<in> set (telemetry db) \<Longrightarrow> n \<notin> {100, 101, 103}" for row n
    using new by force
  have agree: "repeats_agree db (vb_items valid_batch)"
    using unseen by (auto simp: repeats_agree_def valid_batch_def event self)
  obtain db1 where first: "ingest_batch env gid valid_batch batch_id db = (Inr \<lparr>br_batch_id = batch_id,
        br_results = expected_results (t_identity ` set (telemetry db)) (vb_items valid_batch)\<rparr>, db1)"
    and rows: "\<forall>row \<in> set (telemetry db1). row \<in> set (telemetry db) \<or> (\<exists>e \<in> valid_events (vb_items valid_batch). \<exists>i t. row = event_row i t 1 e)"
    and ids: "t_identity ` set (telemetry db1) = t_identity ` set (telemetry db) \<union> ev_identity ` valid_events (vb_items valid_batch)"
    and db1: "db_inv db1" "extends db db1"
    by (rule expected_batch [OF db agree example_batches_ok(1) assms(7,3)])
      (use assms(1,5) in \<open>simp_all add: valid_batch_def event\<close>)
  have dev1: "open_device db1 gid ''motor-001''" by (rule open_device_extends [OF assms(1) db1(2,1)])
  have agree1: "repeats_agree db1 (vb_items mixed_batch)"
    unfolding repeats_agree_def
  proof (intro conjI ballI impI)
    fix e row assume e: "e \<in> valid_events (vb_items mixed_batch)" and "row \<in> set (telemetry db1)" and same: "t_identity row = ev_identity e"
    then consider "row \<in> set (telemetry db)" | i t where "row = event_row i t 1 documented_event"
      using rows by (auto simp: valid_batch_def)
    then show "content_matches row 1 e"
      using e same unseen [of row 100] unseen [of row 101] unseen [of row 103]
      by cases (auto simp: mixed_batch_def event content_event_row self)
  qed (auto simp: mixed_batch_def event self)
  obtain db2 where second: "ingest_batch env' gid mixed_batch ''01K5EXAMPLE'' db1 = (Inr \<lparr>br_batch_id = ''01K5EXAMPLE'',
        br_results = expected_results (t_identity ` set (telemetry db1)) (vb_items mixed_batch)\<rparr>, db2)"
    by (rule expected_batch [OF db1(1) _ agree1 example_batches_ok(2) contract_batch_id assms(4), of gid])
      (use dev1 assms(6) in \<open>simp_all add: mixed_batch_def event open_device_def\<close>)
  have "expected_results (t_identity ` set (telemetry db1)) (vb_items mixed_batch)
      = expected_results {(''motor-001'', ''boot-a'', 100)} (vb_items mixed_batch)"
    by (rule expected_results_cong) (use new in \<open>auto simp: ids mixed_batch_def valid_batch_def event\<close>)
  then have "load_value MIXED_RESPONSE = Some (response_json \<lparr>br_batch_id = ''01K5EXAMPLE'',
        br_results = expected_results (t_identity ` set (telemetry db1)) (vb_items mixed_batch)\<rparr>)"
    by (simp add: mixed_response_json)
  with submit_batch [OF example_batches(1) assms(2) first] submit_batch [OF example_batches(2) assms(2) second]
  show ?thesis by (simp add: ok_response_def)
qed

definition contract_db :: database where
  "contract_db = empty_database\<lparr>sites := [\<lparr>s_site_id = ''s1'', s_name = ''Site'', s_enabled = True\<rparr>],
     gateways := [\<lparr>g_gateway_id = ''g1'', g_site_id = ''s1'', g_name = ''Gateway'', g_enabled = True\<rparr>],
     devices := [\<lparr>d_device_id = ''motor-001'', d_gateway_id = ''g1'', d_name = ''Motor'', d_enabled = True,
       d_password_hash = None, d_mqtt_managed = False, d_last_seen_at = None\<rparr>]\<rparr>"

theorem published_examples_hold_witness:
  "\<exists>first db1 second db2.
      ingest_telemetry Some core_check demo_env [(''g1'', ''secret'')] [''Bearer secret''] example_valid ''batch-1'' contract_db = (first, db1)
    \<and> hr_status first = 200
    \<and> ingest_telemetry Some core_check demo_env [(''g1'', ''secret'')] [''Bearer secret''] example_mixed ''01K5EXAMPLE'' db1 = (second, db2)
    \<and> hr_status second = 200 \<and> map_option response_json (hr_body second) = load_value MIXED_RESPONSE"
proof (rule published_examples_hold)
  have "db_inv contract_db"
    by (simp add: db_inv_def contract_db_def empty_database_def registry_ok_def telemetry_ok_def alerts_inv_def alerts_ok_def)
  then show "open_device contract_db ''g1'' ''motor-001''"
    by (simp add: open_device_def eligible_def lock_gateway_eligibility_def contract_db_def empty_database_def)
  show "resolve_gateway [(''g1'', ''secret'')] [''Bearer secret''] = Some ''g1''" by code_simp
qed (simp_all add: demo_env_def contract_db_def empty_database_def demo_batch_ok(2))

text \<open>
  The body of a 400 response; the message of an error is the validator's. The published error is the one a body of
  version 2 gets.
\<close>

fun loc_json :: "loc_item \<Rightarrow> pyval" where
  "loc_json (LField f) = PStr f"
| "loc_json (LIndex i) = PInt (int i)"

definition error_json :: "(verror \<Rightarrow> string) \<Rightarrow> batch_error \<Rightarrow> pyval" where
  "error_json message e = PDict [(''detail'', PDict [(''reason'', PStr (batch_reason_name (be_reason e))),
     (''message'', PStr (be_message e)),
     (''details'', PList (map (\<lambda>d. PDict [(''loc'', PList (map loc_json (ve_loc d))), (''code'', PStr (ve_code d)),
        (''message'', PStr (message d))]) (be_details e)))])]"

theorem unsupported_version_example:
  "\<exists>e. parse_telemetry_batch Some core_check (RObj [(''schema_version'', RInt 2), (''events'', RArr [RObj VALID_EVENT])]) = Inl (Batch_error e)
     \<and> load_value UNSUPPORTED_VERSION_ERROR = Some (error_json (\<lambda>_. ''Input should be 1'') e)"
proof (intro exI conjI)
  show "parse_telemetry_batch Some core_check (RObj [(''schema_version'', RInt 2), (''events'', RArr [RObj VALID_EVENT])]) =
      Inl (Batch_error \<lparr>be_reason = Unsupported_schema_version, be_message = ''Only schema_version 1 is supported.'',
        be_details = [\<lparr>ve_loc = [LField ''schema_version''], ve_code = ''literal_error''\<rparr>]\<rparr>)" by code_simp
  show "load_value UNSUPPORTED_VERSION_ERROR = Some (error_json (\<lambda>_. ''Input should be 1'')
      \<lparr>be_reason = Unsupported_schema_version, be_message = ''Only schema_version 1 is supported.'',
        be_details = [\<lparr>ve_loc = [LField ''schema_version''], ve_code = ''literal_error''\<rparr>]\<rparr>)" by code_simp
qed

lemma endpoint_status:
  assumes "pydantic_core V" and "db_inv db" and "identifier_ok batch_id"
  shows "hr_status (fst (ingest_telemetry scan V env cs headers body batch_id db)) \<in> {200, 400, 401, 403, 503}"
proof (cases "resolve_gateway cs headers")
  case (Some g)
  show ?thesis
  proof (cases "parse_telemetry_batch scan V body")
    case (Inl e)
    then obtain be where "e = Batch_error be"
      using pydantic_core.parse_not_uncaught [where scan = scan and body = body, OF assms(1)] by (cases e) auto
    with Some Inl show ?thesis by (simp add: ingest_telemetry_def read_telemetry_batch_def http_error_def)
  next
    case (Inr batch)
    have "batch_ok batch" using pydantic_core.parsed_batch_ok [OF assms(1) Inr] by (simp add: batch_ok_def)
    with assms(2) show ?thesis
      by (rule ingest_batch_cases [OF _ _ assms(3), where env = env and gid = g])
        (use Some Inr in \<open>simp_all add: ingest_telemetry_def read_telemetry_batch_def http_error_def ok_response_def\<close>)
  qed
qed (simp add: ingest_telemetry_def http_error_def)

text \<open>
  No undocumented answer. The status of every answer of the ingestion endpoint is a key of the responses of the
  published contract, in decimal, so no request sees the catch-all for other server errors.
\<close>
theorem statuses_documented:
  assumes "pydantic_core V" and "db_inv db" and "identifier_ok batch_id"
  shows "\<exists>code \<in> fst ` set ingestion_responses. list_all is_digit_c code
    \<and> nat_of_digits 0 code = hr_status (fst (ingest_telemetry scan V env cs headers body batch_id db))"
proof -
  have "list_all is_digit_c ''200'' \<and> nat_of_digits 0 ''200'' = 200" "list_all is_digit_c ''400'' \<and> nat_of_digits 0 ''400'' = 400"
    "list_all is_digit_c ''401'' \<and> nat_of_digits 0 ''401'' = 401" "list_all is_digit_c ''403'' \<and> nat_of_digits 0 ''403'' = 403"
    "list_all is_digit_c ''503'' \<and> nat_of_digits 0 ''503'' = 503" by code_simp+
  moreover have "fst ` set ingestion_responses = {''200'', ''400'', ''401'', ''403'', ''503'', ''5XX''}"
    by (simp add: ingestion_responses_def)
  ultimately show ?thesis using endpoint_status [OF assms, of scan env cs headers body] by auto
qed

theorem statuses_documented_witness:
  "\<exists>code \<in> fst ` set ingestion_responses. list_all is_digit_c code
    \<and> nat_of_digits 0 code = hr_status (fst (ingest_telemetry Some core_check demo_env [] [] RNull ''batch-1'' demo_db))"
  by (rule statuses_documented [OF core.pydantic_core_axioms demo_db_inv demo_batch_ok(2)])

section \<open>The document of the application\<close>

text \<open>What FastAPI generates: the other members, the paths, and the components if there are any.\<close>

record openapi_doc =
  od_head :: "(string \<times> raw_json) list"
  od_paths :: "(string \<times> raw_json) list"
  od_components :: "(string \<times> (string \<times> raw_json) list) list option"

fun member_put :: "string \<Rightarrow> 'v \<Rightarrow> (string \<times> 'v) list \<Rightarrow> (string \<times> 'v) list" where
  "member_put k v [] = [(k, v)]"
| "member_put k v ((j, w) # d) = (if j = k then (k, v) # d else (j, w) # member_put k v d)"

definition dict_update :: "(string \<times> 'v) list \<Rightarrow> (string \<times> 'v) list \<Rightarrow> (string \<times> 'v) list" where
  "dict_update d other = foldl (\<lambda>d (k, v). member_put k v d) d other"

definition merge_sections ::
    "(string \<times> (string \<times> raw_json) list) list \<Rightarrow> (string \<times> (string \<times> raw_json) list) list \<Rightarrow> (string \<times> (string \<times> raw_json) list) list" where
  "merge_sections components sections = foldl (\<lambda>cs (section, definitions).
     member_put section (dict_update (case map_of cs section of None \<Rightarrow> [] | Some d \<Rightarrow> d) definitions) cs) components sections"

text \<open>
  The \<open>openapi\<close> the application gets: the document is built once and kept. An \<open>Inl\<close> is the KeyError of a generated
  document without components.
\<close>

definition openapi :: "openapi_doc \<Rightarrow> (string \<times> raw_json) list \<Rightarrow> openapi_doc option \<Rightarrow> (string, openapi_doc) result \<times> openapi_doc option" where
  "openapi generated defs kept =
     (case kept of
        Some schema \<Rightarrow> (Inr schema, kept)
      | None \<Rightarrow>
          (case od_components generated of
             None \<Rightarrow> (Inl ''components'', None)
           | Some components \<Rightarrow>
               (let schema = generated\<lparr>od_paths := dict_update (od_paths generated) contract_paths,
                      od_components := Some (merge_sections components (contract_components defs))\<rparr>
                in (Inr schema, Some schema))))"

section \<open>The installed contract\<close>

lemma map_of_member_put [simp]: "map_of (member_put k v d) = (map_of d)(k \<mapsto> v)"
  by (induction d) auto

lemma map_of_dict_update: "map_of (dict_update d other) = map_of d ++ map_of (rev other)"
proof (induction other arbitrary: d)
  case (Cons p other)
  then show ?case by (cases p) (auto simp: dict_update_def fun_eq_iff map_add_def split: option.splits)
qed (simp add: dict_update_def)

text \<open>A definition of a section of the components.\<close>

definition component :: "openapi_doc \<Rightarrow> string \<Rightarrow> string \<Rightarrow> raw_json option" where
  "component doc section name =
     (case od_components doc of None \<Rightarrow> None
      | Some cs \<Rightarrow> (case map_of cs section of None \<Rightarrow> None | Some d \<Rightarrow> map_of d name))"

text \<open>
  The contract is merged, not substituted. Once installed, the document has the ingestion path and the security
  scheme of the contract and the definitions of its models, and under every other name exactly what the framework
  generated; it is built once, and every later call returns it whatever it is given.
\<close>
theorem contract_installed:
  assumes "openapi generated defs None = (Inr doc, kept)" and "distinct (map fst defs)"
  shows "kept = Some doc \<and> openapi generated' defs' kept = (Inr doc, kept) \<and> od_head doc = od_head generated
    \<and> map_of (od_paths doc) = (map_of (od_paths generated))(ingestion_path \<mapsto> RObj [(''post'', ingestion_operation)])
    \<and> component doc section name =
        (if section = ''schemas'' \<and> map_of defs name \<noteq> None then map_of defs name
         else if section = ''securitySchemes'' \<and> name = ''GatewayCredential''
         then Some (RObj [(''type'', RStr ''http''), (''scheme'', RStr ''bearer'')])
         else component generated section name)"
proof -
  obtain cs where cs: "od_components generated = Some cs" using assms(1) by (auto simp: openapi_def split: option.splits)
  let ?doc = "generated\<lparr>od_paths := dict_update (od_paths generated) contract_paths,
      od_components := Some (merge_sections cs (contract_components defs))\<rparr>"
  have doc: "doc = ?doc" "kept = Some doc" using assms(1) by (auto simp: openapi_def cs Let_def)
  have "map_of (rev defs) = map_of defs" 
    by (rule map_of_inject_set [THEN iffD2]) (use assms(2) in \<open>simp_all flip: rev_map\<close>)
  then have "component doc section name =
        (if section = ''schemas'' \<and> map_of defs name \<noteq> None then map_of defs name
         else if section = ''securitySchemes'' \<and> name = ''GatewayCredential''
         then Some (RObj [(''type'', RStr ''http''), (''scheme'', RStr ''bearer'')])
         else component generated section name)"
    by (auto simp: component_def doc(1) cs merge_sections_def contract_components_def map_of_dict_update map_add_def
        split: option.splits)
  then show ?thesis
    by (simp add: doc openapi_def cs contract_paths_def map_of_dict_update)
qed

theorem contract_installed_witness:
  "\<exists>doc. openapi \<lparr>od_head = [], od_paths = [(''/health'', RNull)], od_components = Some []\<rparr> [(''TelemetryBatch'', RNull)] None = (Inr doc, Some doc)
    \<and> map_of (od_paths doc) ''/health'' = Some RNull"
proof -
  let ?gen = "\<lparr>od_head = [], od_paths = [(''/health'', RNull)], od_components = Some []\<rparr>" and ?defs = "[(''TelemetryBatch'', RNull)]"
  obtain doc kept where run: "openapi ?gen ?defs None = (Inr doc, kept)" by (simp add: openapi_def Let_def)
  with contract_installed [OF run] show ?thesis by (simp add: ingestion_path_def)
qed

end
