(* ===== verification/Release_Ingestion.thy ===== *)
theory Release_Ingestion
  imports Ingestion
begin

text \<open>
  \<open>release_packages/version01/backend/app\<close>: the data model, alert evaluation and ingestion of the released version01
  (\<open>models.py\<close>, \<open>alerting.py\<close>, \<open>ingestion.py\<close>), over a database whose devices have no broker or presence columns. The
  wire models, their validation and the gateway credentials of the release are those of the current code, up to the
  names of modules, and are not modelled twice. The lemmas relate the release to the current ingestion through
  \<open>release_view\<close>, which forgets the columns that came later.
\<close>

section \<open>The database of the release\<close>

record device_v1 =
  dv_device_id :: string
  dv_gateway_id :: string
  dv_name :: string
  dv_enabled :: bool

record database_v1 =
  v1_sites :: "site_row list"
  v1_gateways :: "gateway_row list"
  v1_devices :: "device_v1 list"
  v1_telemetry :: "telemetry_row list"
  v1_alert_episodes :: "alert_episode list"
  v1_alert_states :: "alert_state list"
  v1_next_telemetry_id :: int
  v1_next_episode_id :: int

definition device_view :: "device_row \<Rightarrow> device_v1" where
  "device_view d = \<lparr>dv_device_id = d_device_id d, dv_gateway_id = d_gateway_id d, dv_name = d_name d, dv_enabled = d_enabled d\<rparr>"

definition release_view :: "database \<Rightarrow> database_v1" where
  "release_view db = \<lparr>v1_sites = sites db, v1_gateways = gateways db, v1_devices = map device_view (devices db),
     v1_telemetry = telemetry db, v1_alert_episodes = alert_episodes db, v1_alert_states = alert_states db,
     v1_next_telemetry_id = next_telemetry_id db, v1_next_episode_id = next_episode_id db\<rparr>"

text \<open>What the revisions 0005 and 0006 make of a device row: null, null and the server default false.\<close>

definition upgraded_device :: "device_v1 \<Rightarrow> device_row" where
  "upgraded_device d = \<lparr>d_device_id = dv_device_id d, d_gateway_id = dv_gateway_id d, d_name = dv_name d,
     d_enabled = dv_enabled d, d_password_hash = None, d_mqtt_managed = False, d_last_seen_at = None\<rparr>"

definition upgraded :: "database_v1 \<Rightarrow> database" where
  "upgraded d = \<lparr>sites = v1_sites d, gateways = v1_gateways d, devices = map upgraded_device (v1_devices d),
     telemetry = v1_telemetry d, alert_episodes = v1_alert_episodes d, alert_states = v1_alert_states d,
     next_telemetry_id = v1_next_telemetry_id d, next_episode_id = v1_next_episode_id d\<rparr>"

section \<open>Alert evaluation\<close>

definition HIGH_THRESHOLD_v1 :: rat where "HIGH_THRESHOLD_v1 = 30"
definition RECOVERY_THRESHOLD_v1 :: rat where "RECOVERY_THRESHOLD_v1 = 28"
definition CONSECUTIVE_READINGS_v1 :: int where "CONSECUTIVE_READINGS_v1 = 3"
definition MAX_READING_AGE_v1 :: usec where "MAX_READING_AGE_v1 = minutes 5"
definition MAX_FUTURE_SKEW_v1 :: usec where "MAX_FUTURE_SKEW_v1 = minutes 1"

definition store_state_v1 :: "alert_state \<Rightarrow> database_v1 \<Rightarrow> database_v1" where
  "store_state_v1 s db =
     db\<lparr>v1_alert_states := update_by st_device_id (st_device_id s) (\<lambda>_. s) (v1_alert_states db)\<rparr>"

definition advance_state_v1 :: "usec \<Rightarrow> rat \<Rightarrow> int \<Rightarrow> alert_state \<Rightarrow> database_v1 \<Rightarrow> (string, database_v1) result" where
  "advance_state_v1 event_at reading telemetry_id state0 db =
     (let state = state0\<lparr>st_last_event_at := event_at\<rparr>
      in case st_active_episode_id state of
           None \<Rightarrow>
             (let state = state\<lparr>st_high_streak := (if reading > HIGH_THRESHOLD_v1 then st_high_streak state + 1 else 0)\<rparr>
              in if st_high_streak state = CONSECUTIVE_READINGS_v1
                 then (let eid = v1_next_episode_id db;
                           episode = \<lparr>ep_id = eid, ep_device_id = st_device_id state, ep_opened_at = event_at,
                             ep_resolved_at = None, ep_opening_telemetry_id = telemetry_id,
                             ep_resolving_telemetry_id = None\<rparr>
                       in Inr (store_state_v1 (state\<lparr>st_high_streak := 0, st_active_episode_id := Some eid\<rparr>)
                            (db\<lparr>v1_alert_episodes := v1_alert_episodes db @ [episode], v1_next_episode_id := eid + 1\<rparr>)))
                 else Inr (store_state_v1 state db))
         | Some eid \<Rightarrow>
             (let state = state\<lparr>st_recovery_streak := (if reading < RECOVERY_THRESHOLD_v1 then st_recovery_streak state + 1 else 0)\<rparr>
              in if st_recovery_streak state = CONSECUTIVE_READINGS_v1
                 then (case lookup_by ep_id eid (v1_alert_episodes db) of
                         None \<Rightarrow> Inl ''AttributeError''
                       | Some _ \<Rightarrow>
                           Inr (store_state_v1 (state\<lparr>st_recovery_streak := 0, st_active_episode_id := None\<rparr>)
                              (db\<lparr>v1_alert_episodes := update_by ep_id eid
                                 (\<lambda>e. e\<lparr>ep_resolved_at := Some event_at, ep_resolving_telemetry_id := Some telemetry_id\<rparr>)
                                 (v1_alert_episodes db)\<rparr>)))
                 else Inr (store_state_v1 state db)))"

definition evaluate_accepted_reading_v1 ::
    "telemetry_event \<Rightarrow> int \<Rightarrow> usec \<Rightarrow> state_cache \<Rightarrow> database_v1 \<Rightarrow> (string, state_cache \<times> database_v1) result" where
  "evaluate_accepted_reading_v1 item telemetry_id backend_received_at states db =
     (let event_at = (case ev_measured_at item of
                        Some m \<Rightarrow> if q_clock (ev_quality item) = ''synchronised'' then m else ev_gateway_received_at item
                      | None \<Rightarrow> ev_gateway_received_at item);
          dev = ev_device_id item;
          advance = (\<lambda>state states db. map_sum id (Pair states) (advance_state_v1 event_at (ev_value item) telemetry_id state db))
      in if \<not> (backend_received_at - MAX_READING_AGE_v1 \<le> event_at \<and> event_at \<le> backend_received_at + MAX_FUTURE_SKEW_v1)
         then Inr (states, db)
         else (case (case states dev of None \<Rightarrow> None | Some ref \<Rightarrow> lookup_by st_device_id ref (v1_alert_states db)) of
                 None \<Rightarrow>
                   (case lookup_by st_device_id dev (v1_alert_states db) of
                      None \<Rightarrow>
                        (let state = \<lparr>st_device_id = dev, st_last_event_at = event_at, st_high_streak = 0,
                               st_recovery_streak = 0, st_active_episode_id = None\<rparr>
                         in advance state (states(dev \<mapsto> dev)) (db\<lparr>v1_alert_states := v1_alert_states db @ [state]\<rparr>))
                    | Some state \<Rightarrow>
                        if event_at \<le> st_last_event_at state then Inr (states, db)
                        else advance state (states(dev \<mapsto> dev)) db)
               | Some state \<Rightarrow>
                   if event_at \<le> st_last_event_at state then Inr (states, db)
                   else advance state states db))"

section \<open>Ingestion\<close>

text \<open>The query of the gateway and its site, joined; both flags.\<close>

definition eligibility_v1 :: "database_v1 \<Rightarrow> string \<Rightarrow> (bool \<times> bool) option" where
  "eligibility_v1 db gateway_id =
     (case lookup_by g_gateway_id gateway_id (v1_gateways db) of
        None \<Rightarrow> None
      | Some g \<Rightarrow> map_option (\<lambda>s. (g_enabled g, s_enabled s)) (lookup_by s_site_id (g_site_id g) (v1_sites db)))"

definition assignments_v1 :: "database_v1 \<Rightarrow> string set \<Rightarrow> string \<rightharpoonup> device_v1" where
  "assignments_v1 db device_ids =
     (\<lambda>dev. if dev \<in> device_ids then lookup_by dv_device_id dev (v1_devices db) else None)"

definition insert_telemetry_v1 :: "(rat \<Rightarrow> bool) \<Rightarrow> usec \<Rightarrow> int \<Rightarrow> telemetry_event \<Rightarrow> database_v1
    \<Rightarrow> (sql_error, (int \<times> usec) option \<times> database_v1) result" where
  "insert_telemetry_v1 numeric_ok now v e db =
     (let rid = v1_next_telemetry_id db; row = event_row rid now v e; db' = db\<lparr>v1_next_telemetry_id := rid + 1\<rparr>
      in if \<not> representable numeric_ok e then Inl DataError
         else if \<not> telemetry_checks row then Inl IntegrityError
         else if lookup_by t_identity (ev_identity e) (v1_telemetry db) \<noteq> None then Inr (None, db')
         else if lookup_by dv_device_id (ev_device_id e) (v1_devices db) = None then Inl IntegrityError
         else Inr (Some (rid, now), db'\<lparr>v1_telemetry := v1_telemetry db @ [row]\<rparr>))"

type_synonym ingest_state_v1 = "state_cache \<times> database_v1"

text \<open>One pass of the loop over the items of the batch.\<close>

fun ingest_item_v1 :: "ingest_env \<Rightarrow> string \<Rightarrow> int \<Rightarrow> (string \<rightharpoonup> device_v1) \<Rightarrow> nat \<Rightarrow> batch_item \<Rightarrow> ingest_state_v1
    \<Rightarrow> (ingest_error, response_item \<times> ingest_state_v1) result" where
  "ingest_item_v1 env gateway_id v asg index (Rejected_item r) st = Inr (r, st)"
| "ingest_item_v1 env gateway_id v asg index (Valid_item e) (states, db) =
     (let rejected = (\<lambda>reason st. res_bind (respond e Rejected (Some reason)) (\<lambda>r. Inr (r, st)))
      in case asg (ev_device_id e) of
           None \<Rightarrow> rejected Unknown_device (states, db)
         | Some assignment \<Rightarrow>
             if dv_gateway_id assignment \<noteq> gateway_id \<or> \<not> dv_enabled assignment
             then rejected Wrong_gateway (states, db)
             else (case insert_telemetry_v1 (ie_numeric_ok env) (ie_insert_clock env index) v e db of
                     Inl DataError \<Rightarrow> rejected Malformed_value (states, db)
                   | Inl _ \<Rightarrow> Inl Database_failure
                   | Inr (None, db') \<Rightarrow>
                       (case lookup_by t_identity (ev_identity e) (v1_telemetry db') of
                          None \<Rightarrow> Inl Database_failure
                        | Some existing \<Rightarrow>
                            if content_matches existing v e
                            then res_bind (respond e Duplicate None) (\<lambda>r. Inr (r, states, db'))
                            else rejected Identity_conflict (states, db'))
                   | Inr (Some (telemetry_id, received_at), db') \<Rightarrow>
                       (case evaluate_accepted_reading_v1 e telemetry_id received_at states db' of
                          Inl x \<Rightarrow> Inl (Unhandled x)
                        | Inr st' \<Rightarrow> res_bind (respond e Accepted None) (\<lambda>r. Inr (r, st')))))"

definition ingest_batch_v1 :: "ingest_env \<Rightarrow> string \<Rightarrow> validated_batch \<Rightarrow> string \<Rightarrow> database_v1
    \<Rightarrow> (ingest_error, batch_response) result \<times> database_v1" where
  "ingest_batch_v1 env gateway_id batch batch_id db =
     (case eligibility_v1 db gateway_id of
        None \<Rightarrow> (Inl Gateway_forbidden, db)
      | Some (gateway_enabled, site_enabled) \<Rightarrow>
          if \<not> (gateway_enabled \<and> site_enabled) then (Inl Gateway_forbidden, db)
          else (let asg = assignments_v1 db (batch_device_ids (vb_items batch))
                in case res_scan (ingest_item_v1 env gateway_id (vb_schema_version batch) asg) 0
                          (vb_items batch) (Map.empty, db) of
                     Inl x \<Rightarrow> (Inl x, db)
                   | Inr (results, _, db') \<Rightarrow>
                       if \<not> ie_commits env then (Inl Database_failure, db)
                       else (case TelemetryBatchResponse batch_id results of
                               Inl message \<Rightarrow> (Inl (Unhandled message), db')
                             | Inr response \<Rightarrow> (Inr response, db'))))"

section \<open>The release and the current code\<close>

lemma release_view_simps [simp]:
  "v1_sites (release_view db) = sites db" "v1_gateways (release_view db) = gateways db"
  "v1_devices (release_view db) = map device_view (devices db)" "v1_telemetry (release_view db) = telemetry db"
  "v1_alert_episodes (release_view db) = alert_episodes db" "v1_alert_states (release_view db) = alert_states db"
  "v1_next_telemetry_id (release_view db) = next_telemetry_id db" "v1_next_episode_id (release_view db) = next_episode_id db"
  by (simp_all add: release_view_def)

lemma release_view_upgraded [simp]: "release_view (upgraded d) = d"
proof -
  have "device_view (upgraded_device x) = x" for x by (simp add: device_view_def upgraded_device_def)
  then have "map (device_view \<circ> upgraded_device) ds = ds" for ds by (induction ds) simp_all
  then show ?thesis by (simp add: release_view_def upgraded_def)
qed

lemma lookup_device_view [simp]:
  "lookup_by dv_device_id dev (map device_view ds) = map_option device_view (lookup_by d_device_id dev ds)"
  by (induction ds) (simp_all add: device_view_def)

lemma release_view_updates:
  "release_view (db\<lparr>alert_states := x\<rparr>) = (release_view db)\<lparr>v1_alert_states := x\<rparr>"
  "release_view (db\<lparr>alert_episodes := y\<rparr>) = (release_view db)\<lparr>v1_alert_episodes := y\<rparr>"
  "release_view (db\<lparr>telemetry := z\<rparr>) = (release_view db)\<lparr>v1_telemetry := z\<rparr>"
  "release_view (db\<lparr>next_telemetry_id := i\<rparr>) = (release_view db)\<lparr>v1_next_telemetry_id := i\<rparr>"
  "release_view (db\<lparr>next_episode_id := i\<rparr>) = (release_view db)\<lparr>v1_next_episode_id := i\<rparr>"
  by (simp_all add: release_view_def)

lemma record_presence_view [simp]: "release_view (record_presence dev now db) = release_view db"
proof -
  have "map device_view (update_by d_device_id dev (\<lambda>d. d\<lparr>d_last_seen_at := Some now\<rparr>) ds) = map device_view ds" for ds
    by (induction ds) (simp_all add: update_by_def device_view_def)
  then show ?thesis by (simp add: record_presence_def release_view_def)
qed

lemma advance_state_view:
  "advance_state_v1 t v i state (release_view db) = map_sum id release_view (advance_state t v i state db)"
  by (simp add: advance_state_v1_def advance_state_def Let_def store_state_v1_def store_state_def release_view_updates
      HIGH_THRESHOLD_v1_def HIGH_THRESHOLD_def RECOVERY_THRESHOLD_v1_def RECOVERY_THRESHOLD_def
      CONSECUTIVE_READINGS_v1_def CONSECUTIVE_READINGS_def split: option.split)

lemma evaluate_view:
  "evaluate_accepted_reading_v1 item i t states (release_view db)
     = map_sum id (map_prod id release_view) (evaluate_accepted_reading item i t states db)"
proof -
  have at: "(case ev_measured_at item of Some m \<Rightarrow> if q_clock (ev_quality item) = ''synchronised'' then m else ev_gateway_received_at item
      | None \<Rightarrow> ev_gateway_received_at item) = reading_time item" by (simp add: reading_time_def)
  have fresh: "(t - MAX_READING_AGE_v1 \<le> x \<and> x \<le> t + MAX_FUTURE_SKEW_v1) = fresh_reading t x" for x
    by (simp add: fresh_reading_def MAX_READING_AGE_v1_def MAX_READING_AGE_def MAX_FUTURE_SKEW_v1_def MAX_FUTURE_SKEW_def)
  have new: "(release_view db)\<lparr>v1_alert_states := alert_states db @ [s]\<rparr> = release_view (db\<lparr>alert_states := alert_states db @ [s]\<rparr>)" for s
    by (simp add: release_view_updates)
  show ?thesis
    unfolding evaluate_accepted_reading_v1_def evaluate_accepted_reading_def Let_def at fresh cached_state_def release_view_simps
      new advance_state_view
    by (auto split: option.split sum.split)
qed

lemma eligibility_view [simp]: "eligibility_v1 (release_view db) g = lock_gateway_eligibility db g"
  by (simp add: eligibility_v1_def lock_gateway_eligibility_def split: option.split)

lemma assignments_view: "assignments_v1 (release_view db) ids = (\<lambda>dev. map_option device_view
    (if dev \<in> ids then lookup_by d_device_id dev (devices db) else None))"
  by (auto simp: assignments_v1_def)

lemma insert_telemetry_view:
  "insert_telemetry_v1 ok now v e (release_view db) = map_sum id (map_prod id release_view) (insert_event ok now v e db)"
  by (simp add: insert_telemetry_v1_def insert_event_def Let_def release_view_updates)

text \<open>The state of the session: the cache of alert states is shared.\<close>

definition session_view :: "ingest_state \<Rightarrow> ingest_state_v1" where
  "session_view st = (fst st, release_view (snd st))"

lemma accept_view:
  "map_sum id session_view (accept_reading env index e i t (states, db))
     = (case evaluate_accepted_reading_v1 e i t states (release_view db) of Inl x \<Rightarrow> Inl (Unhandled x) | Inr st' \<Rightarrow> Inr st')"
  by (auto simp: accept_reading_def evaluate_view session_view_def split: sum.split)

lemma item_view:
  "ingest_item_v1 env g v (\<lambda>dev. map_option device_view (asg dev)) index item (session_view st)
     = map_sum id (map_prod id session_view)
         (ingest_item env g v (\<lambda>dev. map_option (\<lambda>d. (d_gateway_id d, d_enabled d)) (asg dev)) index item st)"
proof (cases item)
  case (Valid_item e)
  obtain states db where st: "st = (states, db)" by (rule prod.exhaust)
  have map_bind: "map_sum id f (res_bind r h) = res_bind r (\<lambda>x. map_sum id f (h x))" for f and r :: "(ingest_error, 'x) result" and h
    by (cases r) simp_all
  show ?thesis
  proof (cases "insert_event (ie_numeric_ok env) (ie_insert_clock env index) v e db")
    case (Inl x)
    then show ?thesis unfolding Valid_item st
      by (cases x; cases "asg (ev_device_id e)")
        (simp_all add: session_view_def assignment_reason_def device_view_def insert_telemetry_view ingest_event_def Let_def map_bind)
  next
    case (Inr p)
    obtain stored db' where p: "p = (stored, db')" by (rule prod.exhaust)
    have accept: "map_sum id session_view (accept_reading env index e i t (states, db'))
     = (case evaluate_accepted_reading_v1 e i t states (release_view db') of Inl x \<Rightarrow> Inl (Unhandled x) | Inr st' \<Rightarrow> Inr st')" for i t
      by (rule accept_view)
    show ?thesis
    proof (cases stored)
      case None
      then show ?thesis using Inr unfolding Valid_item st p
        by (cases "asg (ev_device_id e)"; cases "lookup_by t_identity (ev_identity e) (telemetry db')")
          (simp_all add: session_view_def assignment_reason_def device_view_def insert_telemetry_view ingest_event_def Let_def
            map_bind read_existing_event_def)
    next
      case (Some row)
      obtain i t where row: "row = (i, t)" by (rule prod.exhaust)
      show ?thesis using Inr accept [of i t] unfolding Valid_item st p Some row
        by (cases "asg (ev_device_id e)"; cases "accept_reading env index e i t (states, db')";
            cases "evaluate_accepted_reading_v1 e i t states (release_view db')")
          (simp_all add: session_view_def assignment_reason_def device_view_def insert_telemetry_view ingest_event_def Let_def map_bind)
    qed
  qed
qed (simp add: session_view_def)

text \<open>A loop whose body commutes with a view of the state commutes with it.\<close>

lemma res_scan_view:
  assumes "\<And>index x s. step' index x (view s) = map_sum id (map_prod id view) (step index x s)"
  shows "res_scan step' index xs (view s) = map_sum id (map_prod id view) (res_scan step index xs s)"
proof (induction xs arbitrary: index s)
  case (Cons x xs)
  show ?case
  proof (cases "step index x s")
    case (Inr p)
    obtain r s' where p: "p = (r, s')" by (rule prod.exhaust)
    show ?thesis using Cons.IH [of "Suc index" s'] Inr unfolding p
      by (cases "res_scan step (Suc index) xs s'") (auto simp: assms)
  qed (simp add: assms)
qed simp

theorem ingest_view:
  "ingest_batch_v1 env g batch batch_id (release_view db) = map_prod id release_view (ingest_batch env g batch batch_id db)"
proof (cases "lock_gateway_eligibility db g")
  case (Some flags)
  let ?look = "\<lambda>dev. if dev \<in> batch_device_ids (vb_items batch) then lookup_by d_device_id dev (devices db) else None"
  have asg: "lock_assignments db (batch_device_ids (vb_items batch)) = (\<lambda>dev. map_option (\<lambda>d. (d_gateway_id d, d_enabled d)) (?look dev))"
    by (auto simp: lock_assignments_def)
  have "res_scan (ingest_item_v1 env g (vb_schema_version batch) (\<lambda>dev. map_option device_view (?look dev))) 0 (vb_items batch)
      (session_view (Map.empty, db)) = map_sum id (map_prod id session_view) (res_scan
      (ingest_item env g (vb_schema_version batch) (\<lambda>dev. map_option (\<lambda>d. (d_gateway_id d, d_enabled d)) (?look dev))) 0
      (vb_items batch) (Map.empty, db))"
    by (rule res_scan_view) (rule item_view)
  then have scan: "res_scan (ingest_item_v1 env g (vb_schema_version batch) (\<lambda>dev. map_option device_view (?look dev))) 0 (vb_items batch)
      (Map.empty, release_view db) = map_sum id (map_prod id session_view) (res_scan
      (ingest_item env g (vb_schema_version batch) (\<lambda>dev. map_option (\<lambda>d. (d_gateway_id d, d_enabled d)) (?look dev))) 0
      (vb_items batch) (Map.empty, db))" by (simp add: session_view_def)
  show ?thesis using Some unfolding ingest_batch_v1_def ingest_batch_def Let_def eligibility_view assignments_view asg scan
    by (auto simp: session_view_def split: sum.split prod.split)
qed (simp add: ingest_batch_v1_def ingest_batch_def)

text \<open>Ingestion leaves the registry alone.\<close>

definition registry_v1 :: "database_v1 \<Rightarrow> site_row list \<times> gateway_row list \<times> device_v1 list" where
  "registry_v1 d = (v1_sites d, v1_gateways d, v1_devices d)"

lemma registry_v1_updates [simp]:
  "registry_v1 (d\<lparr>v1_alert_states := x\<rparr>) = registry_v1 d" "registry_v1 (d\<lparr>v1_alert_episodes := y\<rparr>) = registry_v1 d"
  "registry_v1 (d\<lparr>v1_telemetry := z\<rparr>) = registry_v1 d" "registry_v1 (d\<lparr>v1_next_telemetry_id := i\<rparr>) = registry_v1 d"
  "registry_v1 (d\<lparr>v1_next_episode_id := i\<rparr>) = registry_v1 d"
  by (simp_all add: registry_v1_def)

lemma advance_registry: "advance_state_v1 t v i state d = Inr d' \<Longrightarrow> registry_v1 d' = registry_v1 d"
  by (auto simp: advance_state_v1_def Let_def store_state_v1_def split: option.splits if_splits)

lemma map_sum_Inr_iff: "map_sum id f r = Inr y \<longleftrightarrow> (\<exists>x. r = Inr x \<and> y = f x)"
  by (cases r) auto

lemma evaluate_registry:
  "evaluate_accepted_reading_v1 e i t states d = Inr st' \<Longrightarrow> registry_v1 (snd st') = registry_v1 d"
  by (auto simp: evaluate_accepted_reading_v1_def Let_def map_sum_Inr_iff split: option.splits if_splits
      dest!: advance_registry)

lemma insert_registry: "insert_telemetry_v1 ok now v e d = Inr (row, d') \<Longrightarrow> registry_v1 d' = registry_v1 d"
  by (auto simp: insert_telemetry_v1_def Let_def split: if_splits)

lemma item_registry:
  "ingest_item_v1 env g v asg index item st = Inr (r, st') \<Longrightarrow> registry_v1 (snd st') = registry_v1 (snd st)"
proof (cases item)
  case (Valid_item e)
  obtain states db where "st = (states, db)" by (rule prod.exhaust)
  moreover assume "ingest_item_v1 env g v asg index item st = Inr (r, st')"
  ultimately show ?thesis unfolding Valid_item
    by (auto simp: Let_def split: option.splits sum.splits if_splits prod.splits sql_error.splits
        dest!: insert_registry evaluate_registry)
qed simp

lemma scan_registry:
  "res_scan (ingest_item_v1 env g v asg) index items st = Inr (rs, st') \<Longrightarrow> registry_v1 (snd st') = registry_v1 (snd st)"
proof (induction items arbitrary: index st rs)
  case (Cons item items)
  from Cons.prems obtain r st1 rs' where "ingest_item_v1 env g v asg index item st = Inr (r, st1)"
    and rest: "res_scan (ingest_item_v1 env g v asg) (Suc index) items st1 = Inr (rs', st')"
    by (rule res_scan_ConsE)
  then have "registry_v1 (snd st1) = registry_v1 (snd st)" by (intro item_registry)
  with Cons.IH [OF rest] show ?case by simp
qed simp

lemma ingest_registry: "registry_v1 (snd (ingest_batch_v1 env g batch batch_id d)) = registry_v1 d"
  by (auto simp: ingest_batch_v1_def Let_def dest!: scan_registry split: option.split sum.split)

end
