(* ===== verification/Release_Api.thy ===== *)
theory Release_Api
  imports Release_Ingestion Http_Api App_Config
begin

text \<open>
  \<open>release_packages/version01/backend/app\<close>: the endpoints and the start-up of the release (\<open>telemetry_api.py\<close>,
  \<open>history_api.py\<close>, \<open>device_api.py\<close>, \<open>alert_api.py\<close>, \<open>registry.py\<close>, \<open>main.py\<close>), and the comparison of the release
  with the current backend: after the upgrade of its database it answers every sequence of requests alike.
\<close>

section \<open>Submissions\<close>

definition ingest_telemetry_v1 ::
    "('b \<Rightarrow> raw_json option) \<Rightarrow> validator \<Rightarrow> ingest_env \<Rightarrow> credentials \<Rightarrow> string list \<Rightarrow> 'b \<Rightarrow> string
     \<Rightarrow> database_v1 \<Rightarrow> batch_response http_response \<times> database_v1" where
  "ingest_telemetry_v1 scan V env credentials headers body batch_id db =
     (case resolve_gateway credentials headers of
        None \<Rightarrow> (http_error 401 ''invalid_gateway_credential'', db)
      | Some gateway_id \<Rightarrow>
          (case read_telemetry_batch scan V body of
             Inl response \<Rightarrow> (response, db)
           | Inr batch \<Rightarrow>
               (case ingest_batch_v1 env gateway_id batch batch_id db of
                  (Inl Gateway_forbidden, db') \<Rightarrow> (http_error 403 ''gateway_not_authorized'', db')
                | (Inl Database_failure, db') \<Rightarrow> (http_error 503 ''ingestion_unavailable'', db')
                | (Inl (Unhandled _), db') \<Rightarrow> (server_error, db')
                | (Inr committed_response, db') \<Rightarrow> (ok_response 200 committed_response, db'))))"

section \<open>History\<close>

definition MAX_POINTS_v1 :: nat where "MAX_POINTS_v1 = 2000"
definition MAX_RANGE_v1 :: usec where "MAX_RANGE_v1 = days 7"
definition MAX_CONNECTED_GAP_v1 :: usec where "MAX_CONNECTED_GAP_v1 = minutes 2"

text \<open>The loop over the rows in event order; \<open>previous\<close> is the row before.\<close>

fun history_points_v1 :: "telemetry_row option \<Rightarrow> telemetry_row list \<Rightarrow> history_point list" where
  "history_points_v1 previous [] = []"
| "history_points_v1 previous (row # rows) =
     (let by_device = (\<lambda>r. t_measured_at r \<noteq> None \<and> q_clock (t_quality r) = ''synchronised'');
          source = (if by_device row then ''measured_at'' else ''gateway_received_at'');
          gap = (case previous of
                   None \<Rightarrow> True
                 | Some p \<Rightarrow> t_boot_id row \<noteq> t_boot_id p \<or> t_sequence_number row \<noteq> t_sequence_number p + 1
                     \<or> MAX_CONNECTED_GAP_v1 < event_time row - event_time p
                     \<or> (source = ''measured_at'') \<noteq> by_device p)
      in \<lparr>hp_event_at = event_time row, hp_timestamp_source = source, hp_measured_at = t_measured_at row,
           hp_gateway_received_at = t_gateway_received_at row, hp_clock_quality = q_clock (t_quality row),
           hp_value = t_value row, hp_unit = t_unit row, hp_gap_before = gap\<rparr> # history_points_v1 (Some row) rows)"

definition read_device_history_v1 :: "database_v1 \<Rightarrow> string \<Rightarrow> py_datetime \<Rightarrow> py_datetime
    \<Rightarrow> (history_error, device_history) result" where
  "read_device_history_v1 db device_id range_start range_end =
     (if \<not> sql_text device_id then Inl History_sql_error
      else if lookup_by dv_device_id device_id (v1_devices db) = None then Inl Device_not_found
      else (case (process_bind_param (Some range_start), process_bind_param (Some range_end)) of
         (Inr (Some lo), Inr (Some hi)) \<Rightarrow>
           (let rows = take (MAX_POINTS_v1 + 1) (order_desc (\<lambda>r. (event_time r, t_id r))
                  (filter (\<lambda>r. t_device_id r = device_id \<and> event_time r \<ge> instant lo \<and> event_time r < instant hi)
                    (v1_telemetry db)))
            in Inr \<lparr>dh_device_id = device_id, dh_unit = ''celsius'', dh_range_start = range_start,
                 dh_range_end = range_end, dh_truncated = length rows > MAX_POINTS_v1,
                 dh_points = history_points_v1 None (rev (take MAX_POINTS_v1 rows))\<rparr>)
       | _ \<Rightarrow> Inl History_sql_error))"

text \<open>The endpoint checks the range, before the query runs.\<close>

definition get_device_history_v1 :: "database_v1 \<Rightarrow> string \<Rightarrow> py_datetime \<Rightarrow> py_datetime \<Rightarrow> device_history http_response" where
  "get_device_history_v1 db device_id range_start range_end =
     (if utcoffset range_start = None \<or> utcoffset range_end = None
         \<or> instant range_start \<ge> instant range_end \<or> instant range_end - instant range_start > MAX_RANGE_v1
      then http_error 422 ''invalid_history_range''
      else (case read_device_history_v1 db device_id range_start range_end of
              Inr history \<Rightarrow> ok_response 200 history
            | Inl Device_not_found \<Rightarrow> http_error 404 ''unknown_device''
            | Inl History_sql_error \<Rightarrow> http_error 503 ''history_unavailable''
            | Inl Invalid_range \<Rightarrow> server_error))"

section \<open>Devices and alerts\<close>

record device_status_v1 =
  dsv_device_id :: string
  dsv_name :: string
  dsv_latest_reading :: "reading_status option"

definition latest_row_v1 :: "database_v1 \<Rightarrow> string \<Rightarrow> telemetry_row option" where
  "latest_row_v1 db dev =
     (case order_desc (\<lambda>r. (event_time r, t_id r)) (filter (\<lambda>r. t_device_id r = dev) (v1_telemetry db)) of
        [] \<Rightarrow> None | row # _ \<Rightarrow> Some row)"

definition latest_reading_v1 :: "telemetry_row \<Rightarrow> reading_status" where
  "latest_reading_v1 row = \<lparr>rs_value = t_value row, rs_unit = t_unit row, rs_measured_at = t_measured_at row,
     rs_gateway_received_at = t_gateway_received_at row, rs_event_at = event_time row,
     rs_timestamp_source = (if t_measured_at row \<noteq> None \<and> q_clock (t_quality row) = ''synchronised''
        then ''measured_at'' else ''gateway_received_at''),
     rs_clock_quality = q_clock (t_quality row)\<rparr>"

definition list_device_status_v1 :: "(string \<Rightarrow> 'c::linorder) \<Rightarrow> database_v1 \<Rightarrow> device_status_v1 list" where
  "list_device_status_v1 coll db =
     map (\<lambda>d. \<lparr>dsv_device_id = dv_device_id d, dsv_name = dv_name d,
            dsv_latest_reading = map_option latest_reading_v1 (latest_row_v1 db (dv_device_id d))\<rparr>)
       (order_asc (\<lambda>d. (coll (dv_name d), coll (dv_device_id d))) (v1_devices db))"

definition get_devices_v1 :: "bool \<Rightarrow> (string \<Rightarrow> 'c::linorder) \<Rightarrow> database_v1 \<Rightarrow> device_status_v1 list http_response" where
  "get_devices_v1 available coll db =
     (if available then ok_response 200 (list_device_status_v1 coll db)
      else http_error 503 ''device_status_unavailable'')"

definition list_alert_episodes_v1 :: "database_v1 \<Rightarrow> nat \<Rightarrow> alert_episode_list" where
  "list_alert_episodes_v1 db limit =
     (let statuses = concat (map (\<lambda>e.
            (case (lookup_by dv_device_id (ep_device_id e) (v1_devices db),
                   lookup_by t_id (ep_opening_telemetry_id e) (v1_telemetry db)) of
               (Some d, Some opening) \<Rightarrow>
                 [\<lparr>es_id = ep_id e, es_device_id = ep_device_id e, es_device_name = dv_name d,
                   es_active = (ep_resolved_at e = None), es_opened_at = ep_opened_at e,
                   es_opening_value = t_value opening, es_resolved_at = ep_resolved_at e,
                   es_resolving_value =
                     (case ep_resolving_telemetry_id e of None \<Rightarrow> None
                      | Some i \<Rightarrow> map_option t_value (lookup_by t_id i (v1_telemetry db)))\<rparr>]
             | _ \<Rightarrow> [])) (v1_alert_episodes db))
      in \<lparr>al_rule = \<lparr>ar_high_threshold = HIGH_THRESHOLD_v1, ar_recovery_threshold = RECOVERY_THRESHOLD_v1,
           ar_consecutive_readings = CONSECUTIVE_READINGS_v1, ar_unit = ''celsius''\<rparr>,
         al_active_count = length (filter (\<lambda>e. ep_resolved_at e = None) (v1_alert_episodes db)),
         al_episodes = take limit (order_desc (\<lambda>r. (es_active r, es_opened_at r, es_id r)) statuses)\<rparr>)"

definition get_alerts_v1 :: "bool \<Rightarrow> database_v1 \<Rightarrow> nat \<Rightarrow> alert_episode_list http_response" where
  "get_alerts_v1 available db limit =
     (if available then ok_response 200 (list_alert_episodes_v1 db limit)
      else http_error 503 ''alert_episodes_unavailable'')"

definition check_device_ownership_v1 :: "database_v1 \<Rightarrow> string \<Rightarrow> string \<Rightarrow> ownership_status" where
  "check_device_ownership_v1 db device_id gateway_id =
     (case lookup_by dv_device_id device_id (v1_devices db) of
        None \<Rightarrow> Ownership_unknown_device
      | Some d \<Rightarrow>
          (case lookup_by g_gateway_id (dv_gateway_id d) (v1_gateways db) of
             None \<Rightarrow> Ownership_unknown_device
           | Some g \<Rightarrow>
               (case lookup_by s_site_id (g_site_id g) (v1_sites db) of
                  None \<Rightarrow> Ownership_unknown_device
                | Some s \<Rightarrow>
                    if dv_gateway_id d \<noteq> gateway_id then Ownership_wrong_gateway
                    else if \<not> (dv_enabled d \<and> g_enabled g \<and> s_enabled s) then Ownership_disabled
                    else Allowed)))"

section \<open>Start-up\<close>

text \<open>The release has no broker settings; its engine is the last thing start-up creates.\<close>

definition lifespan_v1 :: "conninfo_lib \<Rightarrow> (string \<Rightarrow> raw_json option) \<Rightarrow> environ \<Rightarrow> (credentials \<Rightarrow> settings \<Rightarrow> 'r)
    \<Rightarrow> (config_error, 'r) result \<times> engine_event list" where
  "lifespan_v1 lib scan env serve =
     (case database_conninfo lib env of
        Inl x \<Rightarrow> (Inl x, [])
      | Inr _ \<Rightarrow>
          (case load_gateway_credentials scan (env ''GATEWAY_CREDENTIALS_JSON'') of
             None \<Rightarrow> (Inl (Runtime_error ''GATEWAY_CREDENTIALS_JSON must map gateway IDs to unique bearer tokens''), [])
           | Some credentials \<Rightarrow>
               (case engine_settings lib env of
                  Inl x \<Rightarrow> (Inl x, [])
                | Inr engine \<Rightarrow> (Inr (serve credentials engine), [Engine_created, Engine_disposed]))))"

section \<open>The release and the current code\<close>

text \<open>Responses with a projected body, and the part of a device's status the release has.\<close>

definition map_body :: "('a \<Rightarrow> 'b) \<Rightarrow> 'a http_response \<Rightarrow> 'b http_response" where
  "map_body f r = \<lparr>hr_status = hr_status r, hr_reason = hr_reason r, hr_body = map_option f (hr_body r)\<rparr>"

definition status_view :: "device_status \<Rightarrow> device_status_v1" where
  "status_view st = \<lparr>dsv_device_id = ds_device_id st, dsv_name = ds_name st, dsv_latest_reading = ds_latest_reading st\<rparr>"

lemma map_body_simps [simp]:
  "map_body f (ok_response code body) = ok_response code (f body)" "map_body f (http_error code reason) = http_error code reason"
  by (simp_all add: map_body_def ok_response_def http_error_def)

lemma submission_view:
  "ingest_telemetry_v1 scan V env cs headers body batch_id (release_view db)
     = map_prod id release_view (ingest_telemetry scan V env cs headers body batch_id db)"
  by (auto simp: ingest_telemetry_v1_def ingest_telemetry_def ingest_view split: option.split sum.split prod.split ingest_error.split)

lemma history_points_view: "history_points_v1 previous rows = history_points previous rows"
  by (induction rows arbitrary: previous)
    (auto simp: history_point_of_def timestamp_source_def gap_before_def MAX_CONNECTED_GAP_v1_def MAX_CONNECTED_GAP_def
      split: option.split)

lemma history_view: "get_device_history_v1 (release_view db) dev a b = get_device_history db dev a b"
proof -
  have range: "(utcoffset a = None \<or> utcoffset b = None \<or> instant a \<ge> instant b \<or> instant b - instant a > MAX_RANGE_v1)
      = invalid_range a b" by (simp add: invalid_range_def MAX_RANGE_v1_def MAX_RANGE_def)
  show ?thesis
    unfolding get_device_history_v1_def get_device_history_def read_device_history_v1_def read_device_history_def range
    by (auto simp: device_exists_def read_history_rows_def history_points_view MAX_POINTS_v1_def MAX_POINTS_def Let_def
        split: sum.split option.split)
qed

lemma alerts_view: "list_alert_episodes_v1 (release_view db) limit = list_alert_episodes db limit"
proof -
  have name: "dv_name (device_view d) = d_name d" for d by (simp add: device_view_def)
  show ?thesis
    unfolding list_alert_episodes_v1_def list_alert_episodes_def episode_statuses_def release_view_simps lookup_device_view
      Let_def HIGH_THRESHOLD_v1_def HIGH_THRESHOLD_def RECOVERY_THRESHOLD_v1_def RECOVERY_THRESHOLD_def
      CONSECUTIVE_READINGS_v1_def CONSECUTIVE_READINGS_def is_open_def prod.case
    by (simp add: comp_def name cong: option.case_cong)
qed

lemma order_asc_map: "order_asc key (map f xs) = map f (order_asc (\<lambda>x. key (f x)) xs)"
proof -
  have "insort_key key (f x) (map f ys) = map f (insort_key (\<lambda>x. key (f x)) x ys)" for x ys
    by (induction ys) simp_all
  then show ?thesis unfolding order_asc_def by (induction xs) simp_all
qed

lemma devices_view:
  assumes "registry_ok db"
  shows "list_device_status_v1 coll (release_view db) = map status_view (list_device_status coll now db)"
proof -
  let ?rows = "order_asc (\<lambda>d. (coll (d_name d), coll (d_device_id d))) (devices db)"
  let ?status = "\<lambda>d. \<lparr>dsv_device_id = dv_device_id d, dsv_name = dv_name d,
      dsv_latest_reading = map_option latest_reading_v1 (latest_row_v1 (release_view db) (dv_device_id d))\<rparr>"
  have rows: "order_asc (\<lambda>d. (coll (dv_name d), coll (dv_device_id d))) (map device_view (devices db)) = map device_view ?rows"
    unfolding order_asc_map by (simp add: device_view_def)
  have latest: "latest_reading_v1 = reading_status_of \<circ> latest_of"
    by (rule ext) (simp add: latest_reading_v1_def reading_status_of_def latest_of_def)
  have one: "status_view st = ?status (device_view d)" if "status_for db now d st" for d st
    using that unfolding status_for_def latest
    by (simp add: status_view_def device_view_def latest_row_v1_def newest_reading_def)
  have "map status_view sts = map (\<lambda>d. ?status (device_view d)) ds" if "list_all2 (status_for db now) ds sts" for ds sts
    using that by (induction rule: list_all2_induct) (simp_all add: one)
  from this [OF status_list [OF assms, of now coll]] show ?thesis
    unfolding list_device_status_v1_def release_view_simps rows by (simp add: comp_def)
qed

lemma ownership_view: "check_device_ownership_v1 (release_view db) dev g = check_device_ownership db dev g"
  by (auto simp: check_device_ownership_v1_def check_device_ownership_def read_ownership_def device_view_def split: option.split)

section \<open>Sequences of requests\<close>

text \<open>
  A request comes with what its run depends on: for a submission the environment of ingestion, for a list whether the
  database answers.
\<close>

datatype 'b request =
    Submit ingest_env "string list" 'b string
  | Read_devices bool
  | Read_history string py_datetime py_datetime
  | Read_alerts bool nat
  | Check_ownership string string

datatype answer =
    Submitted "batch_response http_response"
  | Devices_answer "device_status_v1 list http_response"
  | History_answer "device_history http_response"
  | Alerts_answer "alert_episode_list http_response"
  | Ownership_answer ownership_status

fun answer_v1 :: "('b \<Rightarrow> raw_json option) \<Rightarrow> validator \<Rightarrow> credentials \<Rightarrow> (string \<Rightarrow> 'c::linorder) \<Rightarrow> 'b request
    \<Rightarrow> database_v1 \<Rightarrow> answer \<times> database_v1" where
  "answer_v1 scan V cs coll (Submit env headers body batch_id) db =
     map_prod Submitted id (ingest_telemetry_v1 scan V env cs headers body batch_id db)"
| "answer_v1 scan V cs coll (Read_devices available) db = (Devices_answer (get_devices_v1 available coll db), db)"
| "answer_v1 scan V cs coll (Read_history dev a b) db = (History_answer (get_device_history_v1 db dev a b), db)"
| "answer_v1 scan V cs coll (Read_alerts available limit) db = (Alerts_answer (get_alerts_v1 available db limit), db)"
| "answer_v1 scan V cs coll (Check_ownership dev g) db = (Ownership_answer (check_device_ownership_v1 db dev g), db)"

text \<open>The current backend at the time \<open>now\<close>; of a device status, the members a client of the release knows.\<close>

fun answer_now :: "('b \<Rightarrow> raw_json option) \<Rightarrow> validator \<Rightarrow> credentials \<Rightarrow> (string \<Rightarrow> 'c::linorder) \<Rightarrow> usec \<Rightarrow> 'b request
    \<Rightarrow> database \<Rightarrow> answer \<times> database" where
  "answer_now scan V cs coll now (Submit env headers body batch_id) db =
     map_prod Submitted id (ingest_telemetry scan V env cs headers body batch_id db)"
| "answer_now scan V cs coll now (Read_devices available) db =
     (Devices_answer (map_body (map status_view) (get_devices available coll now db)), db)"
| "answer_now scan V cs coll now (Read_history dev a b) db = (History_answer (get_device_history db dev a b), db)"
| "answer_now scan V cs coll now (Read_alerts available limit) db = (Alerts_answer (get_alerts available db limit), db)"
| "answer_now scan V cs coll now (Check_ownership dev g) db = (Ownership_answer (check_device_ownership db dev g), db)"

fun serve_all :: "('q \<Rightarrow> 'd \<Rightarrow> 'a \<times> 'd) \<Rightarrow> 'q list \<Rightarrow> 'd \<Rightarrow> 'a list \<times> 'd" where
  "serve_all step [] d = ([], d)"
| "serve_all step (q # qs) d = (case step q d of (a, d') \<Rightarrow> map_prod (Cons a) id (serve_all step qs d'))"

lemma answer_view:
  assumes "registry_ok db"
  shows "answer_v1 scan V cs coll q (release_view db) = map_prod id release_view (answer_now scan V cs coll now q db)"
proof (cases q)
  case (Submit env headers body batch_id)
  then show ?thesis by (simp add: submission_view prod.map_comp)
next
  case (Read_devices available)
  then show ?thesis by (simp add: get_devices_v1_def get_devices_def devices_view [OF assms, of coll now])
qed (simp_all add: history_view get_alerts_v1_def get_alerts_def alerts_view ownership_view)

lemma registry_ok_view: "registry_ok db \<longleftrightarrow> registry_ok (upgraded (release_view db))"
  by (simp add: registry_ok_def upgraded_def image_image comp_def device_view_def upgraded_device_def ball_simps)

lemma registry_ok_registry: "registry_v1 (release_view db') = registry_v1 (release_view db) \<Longrightarrow> registry_ok db' = registry_ok db"
  unfolding registry_ok_view [of db] registry_ok_view [of db'] by (simp add: registry_v1_def registry_ok_def upgraded_def)

lemma submission_registry:
  "registry_v1 (snd (ingest_telemetry_v1 scan V env cs headers body batch_id d)) = registry_v1 d"
proof -
  have "registry_v1 (snd (case run of (Inl Gateway_forbidden, db') \<Rightarrow> (http_error 403 ''gateway_not_authorized'', db')
                | (Inl Database_failure, db') \<Rightarrow> (http_error 503 ''ingestion_unavailable'', db')
                | (Inl (Unhandled _), db') \<Rightarrow> (server_error, db')
                | (Inr committed_response, db') \<Rightarrow> (ok_response 200 committed_response, db'))) = registry_v1 (snd run)"
    for run :: "(ingest_error, batch_response) result \<times> database_v1"
    by (auto split: prod.split sum.split ingest_error.split)
  then show ?thesis
    by (auto simp: ingest_telemetry_v1_def ingest_registry split: option.split sum.split)
qed

lemma answer_registry:
  assumes "answer_now scan V cs coll now q db = (a, db')" and "registry_ok db"
  shows "registry_ok db'"
proof -
  have "registry_v1 (release_view db') = registry_v1 (snd (answer_v1 scan V cs coll q (release_view db)))"
    using answer_view [OF assms(2), of scan V cs coll q now] assms(1) by simp
  also have "\<dots> = registry_v1 (release_view db)"
  proof (cases q)
    case (Submit env headers body batch_id)
    then show ?thesis by (simp add: submission_registry)
  qed simp_all
  finally show ?thesis using assms(2) registry_ok_registry by blast
qed

lemma serve_view:
  assumes "registry_ok db"
  shows "serve_all (answer_v1 scan V cs coll) qs (release_view db)
    = map_prod id release_view (serve_all (answer_now scan V cs coll now) qs db)"
  using assms
proof (induction qs arbitrary: db)
  case (Cons q qs)
  obtain a db' where step: "answer_now scan V cs coll now q db = (a, db')" by (rule prod.exhaust)
  have "answer_v1 scan V cs coll q (release_view db) = (a, release_view db')"
    using answer_view [OF Cons.prems, of scan V cs coll q now] step by simp
  with Cons.IH [OF answer_registry [OF step Cons.prems]] step show ?case
    by (simp add: prod.map_comp comp_def)
qed simp

text \<open>
  C36. The upgrade from version01 is invisible to its clients. From the database of the release, brought to the current
  schema, the current backend answers every sequence of submissions, history, alert, device and ownership requests as
  the release does, and leaves, up to the columns of the upgrade, the same database.
\<close>
theorem release_upgrade_simulated:
  assumes "registry_ok (upgraded d)"
  shows "fst (serve_all (answer_now scan V cs coll now) qs (upgraded d)) = fst (serve_all (answer_v1 scan V cs coll) qs d)
    \<and> release_view (snd (serve_all (answer_now scan V cs coll now) qs (upgraded d))) = snd (serve_all (answer_v1 scan V cs coll) qs d)"
  using serve_view [OF assms, of scan V cs coll qs now] by simp

theorem release_upgrade_simulated_witness:
  "fst (serve_all (answer_now Some core_check [(''g1'', ''secret'')] (\<lambda>name. name) 0)
      [Submit demo_env [''Bearer secret''] example_valid ''batch-1'', Read_devices True] (upgraded (release_view demo_db)))
   = fst (serve_all (answer_v1 Some core_check [(''g1'', ''secret'')] (\<lambda>name. name))
      [Submit demo_env [''Bearer secret''] example_valid ''batch-1'', Read_devices True] (release_view demo_db))"
proof -
  have "registry_ok (upgraded (release_view demo_db))"
    using demo_db_inv registry_ok_view [of demo_db] by (simp add: db_inv_def)
  then show ?thesis by (rule release_upgrade_simulated [THEN conjunct1])
qed

text \<open>
  The release disposes of its engine. Start-up of version01 creates the engine last, so whatever fails, no engine is
  left behind; the application serves between creation and disposal.
\<close>
theorem lifespan_v1_balanced:
  "case lifespan_v1 lib scan env serve of
     (Inl _, trace) \<Rightarrow> trace = []
   | (Inr _, trace) \<Rightarrow> trace = [Engine_created, Engine_disposed]"
  by (simp add: lifespan_v1_def split: sum.split option.split)

end
