(* ===== verification/Release_Provision.thy ===== *)
theory Release_Provision
  imports Broker_Provisioning
begin

text \<open>
  \<open>release_packages/version01/infra/mosquitto/provision.py\<close>: provisioning in version01, which knew no control password,
  and the path from its directory to the current one by \<open>--ensure-admin\<close>.
\<close>

text \<open>The try block.\<close>

definition fill_directory_v1 :: "provision_env \<Rightarrow> (string \<times> string) list \<Rightarrow> unit dir_op" where
  "fill_directory_v1 env passwords =
     dbind (write_file env (pe_default_mode env) ''passwd'' (password_lines passwords)) (\<lambda>_.
     dbind (chmod ''passwd'' mode_600) (\<lambda>_.
     dbind (hash_passwords env passwords) (\<lambda>_.
     dbind (chmod ''passwd'' mode_644) (\<lambda>_. write_passwords env passwords))))"

definition provision_v1 :: "provision_env \<Rightarrow> cred_dir option \<Rightarrow> (provision_error, unit) result \<times> cred_dir option" where
  "provision_v1 env st =
     (if \<not> pe_docker env then (Inl (Runtime ''Docker is required to hash local MQTT passwords''), st)
      else if st \<noteq> None then (Inl File_exists, st)
      else if \<not> pe_mkdir env then (Inl Os_error, st)
      else (let passwords = zip USERS (map (pe_token env) [0..<length USERS])
            in case fill_directory_v1 env passwords \<lparr>di_mode = mode_755, di_files = Map.empty\<rparr> of
                 (Inr _, d) \<Rightarrow> (Inr (), Some d)
               | (Inl Keyboard_interrupt, d) \<Rightarrow> (Inl Keyboard_interrupt, Some d)
               | (Inl x, d) \<Rightarrow> (Inl x, None)))"

definition provision_main_v1 :: "provision_env \<Rightarrow> cred_dir option \<Rightarrow> provision_end \<times> cred_dir option" where
  "provision_main_v1 env st =
     (case provision_v1 env st of
        (Inr _, st') \<Rightarrow> (Created USERS, st')
      | (Inl File_exists, st') \<Rightarrow> (Already_exists, st')
      | (Inl Keyboard_interrupt, st') \<Rightarrow> (Interrupted_run, st')
      | (Inl x, st') \<Rightarrow> (Exit_error x, st'))"

lemma provision_v1_Inr:
  assumes "provision_main_v1 env st = (Created users, st')"
  obtains hashed where "st = None" and "st' = Some \<lparr>di_mode = mode_755, di_files = user_files env hashed\<rparr>" and "no_plaintext env hashed"
proof -
  obtain r d where run: "fill_directory_v1 env (zip USERS (map (pe_token env) [0..<length USERS])) \<lparr>di_mode = mode_755, di_files = Map.empty\<rparr> = (r, d)"
    by (rule prod.exhaust)
  have "fill_directory_v1 = fill_users" by (intro ext) (simp add: fill_directory_v1_def fill_users_def)
  with run have users: "r = Inr u \<Longrightarrow> \<exists>hashed. d = \<lparr>di_mode = mode_755, di_files = user_files env hashed\<rparr> \<and> no_plaintext env hashed" for u
    using fill_users_Inr [where env = env] by auto
  have "\<exists>u. r = Inr u \<and> st = None \<and> st' = Some d"
    using assms run by (auto simp: provision_main_v1_def provision_v1_def Let_def
        split: if_splits sum.splits provision_error.splits)
  with users that show thesis by blast
qed

text \<open>
  C38. The credentials of version01 carry over. Adding the control password to a directory version01 has provisioned gives
  the very directory the current code provisions, with the passwords of the existing clients; if it fails, other than by
  an interrupt, the directory is untouched and still serves those clients.
\<close>
theorem release_credentials_upgrade:
  assumes "provision_main_v1 env st = (Created users, Some d)"
  shows "case provision_main env' True (Some d) of
      (Ready, Some d') \<Rightarrow> provisioned (env\<lparr>pe_token := (pe_token env)(3 := pe_token env' 0)\<rparr>) d'
        \<and> di_files d' |` dom (di_files d) = di_files d
    | (Interrupted_run, _) \<Rightarrow> True
    | (_, st') \<Rightarrow> st' = Some d"
proof -
  obtain hashed where d: "d = \<lparr>di_mode = mode_755, di_files = user_files env hashed\<rparr>" and plain: "no_plaintext env hashed"
    using provision_v1_Inr [OF assms] by auto
  let ?env = "env\<lparr>pe_token := (pe_token env)(3 := pe_token env' 0)\<rparr>"
  have "user_files ?env hashed = user_files env hashed" by (simp add: user_files_def)
  moreover have "no_plaintext ?env hashed" using plain by (simp add: no_plaintext_def USERS_def upt_rec)
  ultimately have ready: "provisioned ?env (with_admin (pe_token env' 0) d)"
    unfolding provisioned_def by (intro exI [of _ hashed]) (simp add: provisioned_files_def with_admin_def d)
  have none: "di_files d ''admin.password'' = None" by (simp add: d user_files_def)
  then have "di_files (with_admin (pe_token env' 0) d) |` dom (di_files d) = di_files d"
    by (intro ext) (auto simp: with_admin_def restrict_map_def domIff)
  with ready none show ?thesis
    using ensure_admin_cases [where env = env' and token = "pe_token env' 0" and d = d]
    by (auto simp: provision_main_def split: prod.splits sum.splits provision_error.splits)
qed

lemma sample_release: "\<exists>d. provision_main_v1 sample_provision_env None = (Created USERS, Some d)"
proof -
  have "\<exists>d. fill_directory_v1 sample_provision_env (zip USERS (map (pe_token sample_provision_env) [0..<length USERS]))
      \<lparr>di_mode = mode_755, di_files = Map.empty\<rparr> = (Inr (), d)"
    by (simp add: fill_directory_v1_def dbind_Inr write_file_Inr chmod_Inr hash_passwords_def get_image_Inr sample_image dret_def
        update_file_def sample_fields sample_plain Let_def USERS_def upt_rec)
  then obtain d where "fill_directory_v1 sample_provision_env (zip USERS (map (pe_token sample_provision_env) [0..<length USERS]))
      \<lparr>di_mode = mode_755, di_files = Map.empty\<rparr> = (Inr (), d)" ..
  then show ?thesis by (simp add: provision_main_v1_def provision_v1_def sample_fields)
qed

lemma sample_ensure:
  assumes "provision_main_v1 sample_provision_env None = (Created users, Some d)"
  shows "\<exists>d'. provision_main sample_provision_env True (Some d) = (Ready, Some d')"
proof -
  obtain hashed where "Some d = Some \<lparr>di_mode = mode_755, di_files = user_files sample_provision_env hashed\<rparr>"
    by (rule provision_v1_Inr [OF assms]) simp
  then have "di_files d ''admin.password'' = None" "di_files d ''passwd'' \<noteq> None" by (simp_all add: user_files_def)
  then show ?thesis by (simp add: provision_main_def ensure_admin_password_def sample_admin sample_fields)
qed

theorem release_credentials_upgrade_witness:
  "\<exists>d d'. provision_main_v1 sample_provision_env None = (Created USERS, Some d)
    \<and> provision_main sample_provision_env True (Some d) = (Ready, Some d')
    \<and> di_files d' |` dom (di_files d) = di_files d"
proof -
  obtain d where old: "provision_main_v1 sample_provision_env None = (Created USERS, Some d)" using sample_release ..
  then obtain d' where "provision_main sample_provision_env True (Some d) = (Ready, Some d')"
    using sample_ensure by blast
  with old release_credentials_upgrade [OF old, of sample_provision_env] show ?thesis by auto
qed

end
