(* ===== verification/Batch_Loop.thy ===== *)
theory Batch_Loop
  imports Simulator_Events "HOL-Library.While_Combinator"
begin

text \<open>
  The loop of \<open>batches\<close> in \<open>simulator/events.py\<close> as it is written: \<open>while batch := list(islice(events, n))\<close> over an
  iterator, with the rest of the iterator and the batches yielded so far as its state. That the loop ends is that
  \<open>while_option\<close> has a value.
\<close>

definition batches_loop :: "nat \<Rightarrow> 'a list \<Rightarrow> ('a list \<times> 'a list list) option" where
  "batches_loop n events =
     while_option (\<lambda>(rest, yielded). take n rest \<noteq> []) (\<lambda>(rest, yielded). (drop n rest, yielded @ [take n rest])) (events, [])"

lemma loop_chunks:
  assumes "0 < n"
  shows "while_option (\<lambda>(rest, yielded). take n rest \<noteq> []) (\<lambda>(rest, yielded). (drop n rest, yielded @ [take n rest]))
    (xs, yielded) = Some ([], yielded @ chunks n xs)"
  using assms
proof (induction xs arbitrary: yielded rule: chunks_induct)
  case Nil
  then show ?case by (subst while_option_unfold) simp
next
  case (step xs)
  then show ?case by (subst while_option_unfold) (simp add: chunks_step)
qed

text \<open>
  The batching loop ends. For every batch size the function admits, the loop over the events of a constructed
  scenario returns with the iterator exhausted, having yielded the batches of the model, one for every started
  \<open>batch_size\<close> readings and none of them empty or too large.
\<close>
theorem batches_end:
  assumes "constructed env s" and "batches env s n = Inr bs"
  shows "batches_loop (nat n) (generate_events env s) = Some ([], bs)
    \<and> length bs = (nat (sc_count s) + (nat n - 1)) div nat n \<and> list_all (\<lambda>b. b \<noteq> [] \<and> length b \<le> nat n) bs"
proof -
  have n: "0 < nat n" and bs: "bs = chunks (nat n) (generate_events env s)"
    using assms(2) by (auto simp: batches_def integer_Inr)
  have "length (generate_events env s) = nat (sc_count s)"
    using constructedD(2) [OF assms(1)] by (simp add: generate_events_eq scenario_ok_def)
  moreover have "list_all (\<lambda>b. b \<noteq> [] \<and> length b \<le> nat n) bs"
    unfolding list_all_iff bs using chunks_size [OF n] by blast
  ultimately show ?thesis using loop_chunks [OF n, of _ "[]"] by (simp add: batches_loop_def bs length_chunks [OF n])
qed

theorem batches_end_witness:
  "\<exists>bs. batches demo_sim demo_scenario 2 = Inr bs \<and> batches_loop 2 (generate_events demo_sim demo_scenario) = Some ([], bs)
    \<and> length bs = 2"
proof -
  have "is_ok (batches demo_sim demo_scenario 2)" by (simp add: batches_def integer_def)
  then obtain bs where bs: "batches demo_sim demo_scenario 2 = Inr bs" unfolding is_ok_iff by blast
  have "nat (sc_count demo_scenario) = 3" by (simp add: demo_scenario_def)
  with batches_end [OF demo_constructed bs] bs show ?thesis by simp
qed

end
