(* ===== verification/Row_Locks.thy ===== *)
theory Row_Locks
  imports Device_Service
begin

text \<open>
  The row locks of the transactions of the API (\<open>with_for_update\<close> in \<open>telemetry/repository.py\<close> and
  \<open>devices/repository.py\<close>, taken by \<open>telemetry/service.py\<close> and \<open>devices/service.py\<close>), and their interleaving. A
  transaction takes the locks of its plan in order, waits while another holds a conflicting one, and gives all back
  when it commits or rolls back; PostgreSQL is that scheduler. An insertion of a device counts as an exclusive lock on
  its identifier, for which a concurrent insertion or deletion makes it wait. The lock plan is read off a database of
  its own for every transaction, for rows may have changed since another one began.
\<close>

section \<open>Transactions and locks\<close>

datatype lock_mode = Share | Exclusive

record 'r txn =
  tx_held :: "('r \<times> lock_mode) list"
  tx_todo :: "('r \<times> lock_mode) list"
  tx_active :: bool

definition locks_conflict :: "'r \<times> lock_mode \<Rightarrow> 'r \<times> lock_mode \<Rightarrow> bool" where
  "locks_conflict l k \<longleftrightarrow> fst l = fst k \<and> (snd l = Exclusive \<or> snd k = Exclusive)"

definition grantable :: "'r txn list \<Rightarrow> nat \<Rightarrow> 'r \<times> lock_mode \<Rightarrow> bool" where
  "grantable ts i l \<longleftrightarrow> (\<forall>j < length ts. j \<noteq> i \<longrightarrow> list_all (\<lambda>k. \<not> locks_conflict l k) (tx_held (ts ! j)))"

definition ended :: "'r txn" where
  "ended = \<lparr>tx_held = [], tx_todo = [], tx_active = False\<rparr>"

text \<open>A transaction gets its next lock, or commits when it has them all.\<close>

inductive advances :: "'r txn list \<Rightarrow> 'r txn list \<Rightarrow> bool" where
  acquire: "i < length ts \<Longrightarrow> tx_active (ts ! i) \<Longrightarrow> tx_todo (ts ! i) = l # rest \<Longrightarrow> grantable ts i l \<Longrightarrow>
    advances ts (ts[i := (ts ! i)\<lparr>tx_held := tx_held (ts ! i) @ [l], tx_todo := rest\<rparr>])"
| commit: "i < length ts \<Longrightarrow> tx_active (ts ! i) \<Longrightarrow> tx_todo (ts ! i) = [] \<Longrightarrow> advances ts (ts[i := ended])"

lemma list_all_update: "list_all P xs \<Longrightarrow> P x \<Longrightarrow> list_all P (xs[i := x])"
  by (auto simp: list_all_iff dest!: set_update_subset_insert [THEN subsetD])

text \<open>The states of the system: transactions begin with a plan, advance, or roll back at any time.\<close>

inductive reaches :: "('op \<Rightarrow> bool) \<Rightarrow> ('op \<Rightarrow> ('r \<times> lock_mode) list) \<Rightarrow> 'r txn list \<Rightarrow> bool" for admissible plan where
  idle: "reaches admissible plan []"
| starts: "reaches admissible plan ts \<Longrightarrow> admissible q \<Longrightarrow>
    reaches admissible plan (ts @ [\<lparr>tx_held = [], tx_todo = plan q, tx_active = True\<rparr>])"
| advance: "reaches admissible plan ts \<Longrightarrow> advances ts ts' \<Longrightarrow> reaches admissible plan ts'"
| rollback: "reaches admissible plan ts \<Longrightarrow> i < length ts \<Longrightarrow> reaches admissible plan (ts[i := ended])"

inductive_cases advancesE: "advances ts ts'"

definition remaining :: "'r txn list \<Rightarrow> nat" where
  "remaining ts = sum_list (map (\<lambda>t. length (tx_todo t) + (if tx_active t then 1 else 0)) ts)"

section \<open>The discipline: shared rows first, exclusive rows in order\<close>

locale ordered_locking =
  fixes admissible :: "'op \<Rightarrow> bool" and plan :: "'op \<Rightarrow> ('r \<times> lock_mode) list"
    and shared :: "'r \<Rightarrow> bool" and rank :: "'r \<Rightarrow> 'k::linorder"
  assumes modes: "admissible q \<Longrightarrow> l \<in> set (plan q) \<Longrightarrow> snd l = (if shared (fst l) then Share else Exclusive)"
    and ordered: "admissible q \<Longrightarrow>
      sorted_wrt (\<lambda>l k. rank (fst l) < rank (fst k)) (filter (\<lambda>l. \<not> shared (fst l)) (plan q))"
begin

definition disciplined :: "'r txn \<Rightarrow> bool" where
  "disciplined t \<longleftrightarrow> (\<forall>l \<in> set (tx_held t @ tx_todo t). snd l = (if shared (fst l) then Share else Exclusive))
     \<and> sorted_wrt (\<lambda>l k. rank (fst l) < rank (fst k)) (filter (\<lambda>l. \<not> shared (fst l)) (tx_held t @ tx_todo t))
     \<and> (tx_active t \<or> t = ended)"

definition compatible :: "'r txn list \<Rightarrow> bool" where
  "compatible ts \<longleftrightarrow> (\<forall>i < length ts. \<forall>j < length ts. i \<noteq> j \<longrightarrow>
     (\<forall>l \<in> set (tx_held (ts ! i)). \<forall>k \<in> set (tx_held (ts ! j)). \<not> locks_conflict l k))"

lemma ended_disciplined [simp]: "disciplined ended" "tx_held ended = []" "tx_todo ended = []" "\<not> tx_active ended"
  by (simp_all add: disciplined_def ended_def)

lemma locks_conflict_sym: "locks_conflict l k \<longleftrightarrow> locks_conflict k l"
  by (auto simp: locks_conflict_def)

lemma compatible_update:
  assumes "compatible ts" and "i < length ts"
    and "\<And>l j. l \<in> set (tx_held t) \<Longrightarrow> j < length ts \<Longrightarrow> j \<noteq> i \<Longrightarrow> \<forall>k \<in> set (tx_held (ts ! j)). \<not> locks_conflict l k"
  shows "compatible (ts[i := t])"
  using assms unfolding compatible_def by (auto simp: nth_list_update locks_conflict_sym)

lemma reaches_inv:
  assumes "reaches admissible plan ts"
  shows "list_all disciplined ts \<and> compatible ts"
  using assms
proof induction
  case idle
  then show ?case by (simp add: compatible_def)
next
  case (starts ts q)
  have "disciplined \<lparr>tx_held = [], tx_todo = plan q, tx_active = True\<rparr>"
    using modes [OF starts(2)] ordered [OF starts(2)] by (simp add: disciplined_def)
  with starts.IH show ?case by (auto simp: compatible_def nth_append)
next
  case (advance ts ts')
  from advance(2) show ?case
  proof cases
    case (acquire i l rest)
    let ?t = "(ts ! i)\<lparr>tx_held := tx_held (ts ! i) @ [l], tx_todo := rest\<rparr>"
    have "disciplined (ts ! i)" using advance.IH acquire(2) by (simp add: list_all_length)
    then have "disciplined ?t" using acquire(3,4) by (auto simp: disciplined_def ended_def)
    moreover have "compatible (ts[i := ?t])"
      by (rule compatible_update [OF _ acquire(2)])
        (use advance.IH acquire(2,5) in \<open>auto simp: compatible_def grantable_def list_all_iff\<close>)
    ultimately show ?thesis using advance.IH acquire(1) by (simp add: list_all_update)
  next
    case (commit i)
    have "compatible (ts[i := ended])" by (rule compatible_update [OF _ commit(2)]) (use advance.IH in simp_all)
    then show ?thesis using advance.IH commit(1) by (simp add: list_all_update)
  qed
next
  case (rollback ts i)
  have "compatible (ts[i := ended])" by (rule compatible_update [OF _ rollback(2)]) (use rollback.IH in simp_all)
  then show ?case using rollback.IH by (simp add: list_all_update)
qed

text \<open>The head of what an active transaction waits for is an exclusive row beyond all it holds.\<close>

lemma waits:
  assumes "disciplined t" and "tx_todo t = l # rest" and "\<not> shared (fst l)" and "k \<in> set (tx_held t)" and "\<not> shared (fst k)"
  shows "rank (fst k) < rank (fst l)"
  using assms by (cases k) (auto simp: disciplined_def sorted_wrt_append)

lemma blocked:
  assumes inv: "list_all disciplined ts" and i: "i < length ts" "tx_todo (ts ! i) = l # rest" "\<not> grantable ts i l"
  shows "\<not> shared (fst l) \<and> (\<exists>j < length ts. \<exists>k \<in> set (tx_held (ts ! j)). fst k = fst l)"
proof -
  obtain j k where j: "j < length ts" "k \<in> set (tx_held (ts ! j))" "locks_conflict l k"
    using i(3) by (auto simp: grantable_def list_all_iff)
  have "disciplined (ts ! i)" "disciplined (ts ! j)" using inv i(1) j(1) by (simp_all add: list_all_length)
  then have "snd l = (if shared (fst l) then Share else Exclusive)" "snd k = (if shared (fst k) then Share else Exclusive)"
    using i(2) j(2) by (simp_all add: disciplined_def)
  with j show ?thesis by (auto simp: locks_conflict_def split: if_splits)
qed

theorem no_deadlock:
  assumes "reaches admissible plan ts" and "i < length ts" and "tx_active (ts ! i)"
  shows "\<exists>ts'. advances ts ts'"
proof (rule ccontr)
  assume stuck: "\<nexists>ts'. advances ts ts'"
  have inv: "list_all disciplined ts" using reaches_inv [OF assms(1)] by simp
  have wait: "\<exists>l rest. tx_todo (ts ! j) = l # rest \<and> \<not> grantable ts j l" if "j < length ts" "tx_active (ts ! j)" for j
    using that stuck advances.intros by (cases "tx_todo (ts ! j)") blast+
  define heads where "heads = (\<lambda>j. rank (fst (hd (tx_todo (ts ! j))))) ` {j. j < length ts \<and> tx_active (ts ! j)}"
  have "finite heads" "heads \<noteq> {}" using assms(2,3) by (auto simp: heads_def)
  then have "Max heads \<in> heads" by (rule Max_in)
  then obtain j where j: "j < length ts" "tx_active (ts ! j)" "Max heads = rank (fst (hd (tx_todo (ts ! j))))"
    by (auto simp: heads_def)
  obtain l rest where l: "tx_todo (ts ! j) = l # rest" "\<not> grantable ts j l" using wait [OF j(1,2)] by blast
  obtain h k where h: "\<not> shared (fst l)" "h < length ts" "k \<in> set (tx_held (ts ! h))" "fst k = fst l"
    using blocked [OF inv j(1) l] by blast
  have dis: "disciplined (ts ! h)" using inv h(2) by (simp add: list_all_length)
  then have act: "tx_active (ts ! h)" using h(3) by (auto simp: disciplined_def ended_def)
  obtain l' rest' where l': "tx_todo (ts ! h) = l' # rest'" "\<not> grantable ts h l'" using wait [OF h(2) act] by blast
  have "\<not> shared (fst l')" using blocked [OF inv h(2) l'] by blast
  then have "rank (fst l) < rank (fst l')" using waits [OF dis l'(1) _ h(3)] h(1,4) by simp
  moreover have "rank (fst l') \<le> Max heads"
    by (rule Max_ge) (use \<open>finite heads\<close> act h(2) l'(1) in \<open>force simp: heads_def\<close>)+
  ultimately show False using j(3) l(1) by simp
qed

end

lemma sum_list_update_nth:
  fixes f :: "'a \<Rightarrow> nat"
  shows "i < length xs \<Longrightarrow> sum_list (map f (xs[i := x])) + f (xs ! i) = sum_list (map f xs) + f x"
  by (induction xs arbitrary: i) (auto simp: nth_Cons' split: nat.split)

lemma advances_remaining: "advances ts ts' \<Longrightarrow> Suc (remaining ts') = remaining ts"
proof (erule advancesE)
  fix i l rest
  assume i: "i < length ts" and "ts' = ts[i := (ts ! i)\<lparr>tx_held := tx_held (ts ! i) @ [l], tx_todo := rest\<rparr>]"
    and "tx_active (ts ! i)" "tx_todo (ts ! i) = l # rest"
  then show ?thesis
    using sum_list_update_nth [OF i, where f = "\<lambda>t. length (tx_todo t) + (if tx_active t then 1 else 0)"
        and x = "(ts ! i)\<lparr>tx_held := tx_held (ts ! i) @ [l], tx_todo := rest\<rparr>"]
    by (simp add: remaining_def)
next
  fix i assume i: "i < length ts" and "ts' = ts[i := ended]" "tx_active (ts ! i)" "tx_todo (ts ! i) = []"
  then show ?thesis
    using sum_list_update_nth [OF i, where f = "\<lambda>t. length (tx_todo t) + (if tx_active t then 1 else 0)" and x = ended]
    by (simp add: remaining_def ended_def)
qed

lemma remaining_active: "list_all (\<lambda>t. tx_active t \<or> t = ended) ts \<Longrightarrow> remaining ts = 0 \<longleftrightarrow> (\<forall>i < length ts. \<not> tx_active (ts ! i))"
  by (induction ts) (auto simp: remaining_def ended_def nth_Cons split: nat.splits)

context ordered_locking
begin

lemma reaches_steps: "reaches admissible plan ts \<Longrightarrow> (advances ^^ n) ts ts' \<Longrightarrow> reaches admissible plan ts'"
  by (induction n arbitrary: ts') (auto intro: reaches.advance)

lemma steps_remaining: "(advances ^^ n) ts ts' \<Longrightarrow> remaining ts' + n = remaining ts"
proof (induction n arbitrary: ts')
  case (Suc n)
  then obtain b where "(advances ^^ n) ts b" "advances b ts'" by auto
  with Suc.IH [of b] advances_remaining show ?case by fastforce
qed simp

lemma all_ended_iff:
  assumes "reaches admissible plan ts"
  shows "remaining ts = 0 \<longleftrightarrow> (\<forall>i < length ts. \<not> tx_active (ts ! i))"
proof (rule remaining_active)
  show "list_all (\<lambda>t. tx_active t \<or> t = ended) ts"
    using reaches_inv [OF assms] by (auto simp: disciplined_def list_all_iff)
qed

theorem all_end:
  assumes "reaches admissible plan ts" and "(advances ^^ n) ts ts'"
  shows "n \<le> remaining ts \<and> (n = remaining ts \<longleftrightarrow> (\<forall>i < length ts'. \<not> tx_active (ts' ! i)))
    \<and> (n < remaining ts \<longrightarrow> (\<exists>ts''. advances ts' ts''))"
proof -
  have r: "reaches admissible plan ts'" by (rule reaches_steps [OF assms])
  have n: "remaining ts' + n = remaining ts" by (rule steps_remaining [OF assms(2)])
  show ?thesis using n all_ended_iff [OF r] no_deadlock [OF r] by auto
qed

theorem exclusive_rows:
  assumes "reaches admissible plan ts" and "i < length ts" and "j < length ts" and "i \<noteq> j"
    and "l \<in> set (tx_held (ts ! i))" and "\<not> shared (fst l)" and "k \<in> set (tx_held (ts ! j))"
  shows "fst k \<noteq> fst l"
proof
  assume same: "fst k = fst l"
  have "disciplined (ts ! i)" "compatible ts" using reaches_inv [OF assms(1)] assms(2) by (simp_all add: list_all_length)
  then have "snd l = Exclusive" "\<not> locks_conflict l k"
    using assms by (auto simp: disciplined_def compatible_def)
  with same show False by (simp add: locks_conflict_def)
qed

end

section \<open>The lock plans of the API\<close>

datatype row = Gateway_row string | Site_row string | Device_row string

datatype operation =
    Ingest string validated_batch
  | Register device_registration
  | Remove string
  | Configure_mqtt string
  | Heartbeat string

text \<open>FOR SHARE of the gateway and its site; then FOR UPDATE of the devices, in the order of their identifiers.\<close>

definition ingest_locks :: "(string \<Rightarrow> 'c::linorder) \<Rightarrow> database \<Rightarrow> string \<Rightarrow> validated_batch \<Rightarrow> (row \<times> lock_mode) list" where
  "ingest_locks coll db gateway_id batch =
     (case lookup_by g_gateway_id gateway_id (gateways db) of
        None \<Rightarrow> []
      | Some g \<Rightarrow>
          (case lookup_by s_site_id (g_site_id g) (sites db) of
             None \<Rightarrow> []
           | Some s \<Rightarrow>
               [(Gateway_row gateway_id, Share), (Site_row (s_site_id s), Share)]
               @ (if g_enabled g \<and> s_enabled s
                  then map (\<lambda>d. (Device_row (d_device_id d), Exclusive))
                         (order_asc (\<lambda>d. (coll (d_device_id d), d_device_id d))
                           (filter (\<lambda>d. d_device_id d \<in> batch_device_ids (vb_items batch)) (devices db)))
                  else [])))"

text \<open>FOR SHARE of the gateway; the insertion, when the checks before it pass.\<close>

definition register_locks :: "database \<Rightarrow> device_registration \<Rightarrow> (row \<times> lock_mode) list" where
  "register_locks db r =
     (case lock_registration_gateway db (dr_gateway_id r) of
        None \<Rightarrow> []
      | Some g \<Rightarrow> (Gateway_row (dr_gateway_id r), Share)
          # (if gateway_open db (Some g) = Inr True \<and> py_strip (dr_name r) \<noteq> ''''
             then [(Device_row (dr_device_id r), Exclusive)] else []))"

definition device_locks :: "database \<Rightarrow> string \<Rightarrow> (row \<times> lock_mode) list" where
  "device_locks db dev = (if lock_device db dev = None then [] else [(Device_row dev, Exclusive)])"

fun lock_plan :: "(string \<Rightarrow> 'c::linorder) \<Rightarrow> database \<times> operation \<Rightarrow> (row \<times> lock_mode) list" where
  "lock_plan coll (db, Ingest gateway_id batch) = ingest_locks coll db gateway_id batch"
| "lock_plan coll (db, Register r) = register_locks db r"
| "lock_plan coll (db, Remove dev) = device_locks db dev"
| "lock_plan coll (db, Configure_mqtt dev) = device_locks db dev"
| "lock_plan coll (db, Heartbeat dev) = device_locks db dev"

fun shared_row :: "row \<Rightarrow> bool" where
  "shared_row (Device_row _) = False"
| "shared_row _ = True"

fun row_rank :: "(string \<Rightarrow> 'c::linorder) \<Rightarrow> row \<Rightarrow> 'c \<times> string" where
  "row_rank coll (Device_row dev) = (coll dev, dev)"
| "row_rank coll (Gateway_row g) = (coll g, g)"
| "row_rank coll (Site_row s) = (coll s, s)"

definition keyed :: "database \<times> operation \<Rightarrow> bool" where
  "keyed q \<longleftrightarrow> registry_ok (fst q)"

lemma ordered_ids:
  assumes "distinct (map d_device_id ds)"
  shows "sorted_wrt (\<lambda>d e. (coll (d_device_id d), d_device_id d) < (coll (d_device_id e), d_device_id e))
    (order_asc (\<lambda>d. (coll (d_device_id d), d_device_id d)) ds)"
proof -
  let ?key = "\<lambda>d. (coll (d_device_id d), d_device_id d)"
  have "distinct (map d_device_id (order_asc ?key ds))" using assms by (simp add: order_asc_def)
  then have "distinct (map snd (map ?key (order_asc ?key ds)))" by (simp add: comp_def)
  then have "distinct (map ?key (order_asc ?key ds))" by (simp only: distinct_map)
  then have "sorted_wrt (<) (map ?key (order_asc ?key ds))"
    using sorted_order_asc [of ?key ds] by (simp add: strict_sorted_iff)
  then show ?thesis by (simp add: sorted_wrt_map)
qed

lemma ingest_locks_sorted:
  assumes "registry_ok db"
  shows "sorted_wrt (\<lambda>l k. row_rank coll (fst l) < row_rank coll (fst k)) (filter (\<lambda>l. \<not> shared_row (fst l)) (ingest_locks coll db g batch))"
proof -
  let ?ds = "filter (\<lambda>d. d_device_id d \<in> batch_device_ids (vb_items batch)) (devices db)"
  let ?locks = "map (\<lambda>d. (Device_row (d_device_id d), Exclusive)) (order_asc (\<lambda>d. (coll (d_device_id d), d_device_id d)) ?ds)"
  have "distinct (map d_device_id ?ds)" using assms by (simp add: registry_ok_def distinct_map_filter)
  then have "sorted_wrt (\<lambda>l k. row_rank coll (fst l) < row_rank coll (fst k)) ?locks"
    using ordered_ids [of ?ds coll] by (simp add: sorted_wrt_map)
  moreover have "filter (\<lambda>l. \<not> shared_row (fst l)) ?locks = ?locks" by (simp add: filter_map comp_def)
  ultimately show ?thesis by (simp add: ingest_locks_def split: option.split)
qed

lemma lock_plan_modes: "l \<in> set (lock_plan coll q) \<Longrightarrow> snd l = (if shared_row (fst l) then Share else Exclusive)"
  by (cases q; cases "snd q")
    (auto simp: ingest_locks_def register_locks_def device_locks_def split: option.splits if_splits)

interpretation api: ordered_locking keyed "lock_plan coll" shared_row "row_rank coll" for coll :: "string \<Rightarrow> 'c::linorder"
proof
  fix q l assume "l \<in> set (lock_plan coll q)"
  then show "snd l = (if shared_row (fst l) then Share else Exclusive)" by (rule lock_plan_modes)
next
  fix q :: "database \<times> operation" assume "keyed q"
  then show "sorted_wrt (\<lambda>l k. row_rank coll (fst l) < row_rank coll (fst k)) (filter (\<lambda>l. \<not> shared_row (fst l)) (lock_plan coll q))"
    by (cases q; cases "snd q")
      (simp_all add: keyed_def ingest_locks_sorted register_locks_def device_locks_def split: option.split)
qed

section \<open>Properties\<close>

text \<open>
  C39. The transactions of the API cannot deadlock, and all of them end. From every state that any number of concurrent
  ingestions, registrations, removals, broker set-ups and heartbeats can reach, with rollbacks at any time, and as long as
  no new one begins: a run of grants and commits has at most as many steps as locks and commits are left; while it has
  fewer, some transaction can go on; and when it has that many, every transaction has ended.
\<close>
theorem api_transactions_end:
  assumes "reaches keyed (lock_plan coll) ts" and "(advances ^^ n) ts ts'"
  shows "n \<le> remaining ts \<and> (n < remaining ts \<longrightarrow> (\<exists>ts''. advances ts' ts''))
    \<and> (n = remaining ts \<longleftrightarrow> (\<forall>i < length ts'. \<not> tx_active (ts' ! i)))"
  using api.all_end [OF assms] by blast


text \<open>Two heartbeats of one device: the second waits for the first.\<close>

definition heartbeat_txn :: "row txn" where
  "heartbeat_txn = \<lparr>tx_held = [], tx_todo = [(Device_row ''d1'', Exclusive)], tx_active = True\<rparr>"

definition locked_txn :: "row txn" where
  "locked_txn = \<lparr>tx_held = [(Device_row ''d1'', Exclusive)], tx_todo = [], tx_active = True\<rparr>"

lemma demo_heartbeat: "keyed (demo_db, Heartbeat ''d1'')" "lock_plan coll (demo_db, Heartbeat ''d1'') = [(Device_row ''d1'', Exclusive)]"
proof -
  show "keyed (demo_db, Heartbeat ''d1'')" using demo_db_inv by (simp add: keyed_def db_inv_def)
  have "lock_device demo_db ''d1'' \<noteq> None" by (simp add: lock_device_def demo_db_def)
  then show "lock_plan coll (demo_db, Heartbeat ''d1'') = [(Device_row ''d1'', Exclusive)]" by (simp add: device_locks_def)
qed

lemma demo_waiting: "reaches keyed (lock_plan coll) [heartbeat_txn, heartbeat_txn]"
proof -
  have step: "reaches keyed (lock_plan coll) (ts @ [heartbeat_txn])" if "reaches keyed (lock_plan coll) ts" for ts
    using reaches.starts [where admissible = keyed and plan = "lock_plan coll" and q = "(demo_db, Heartbeat ''d1'')", OF that demo_heartbeat(1)]
    unfolding demo_heartbeat(2) by (simp add: heartbeat_txn_def)
  show ?thesis using step [OF step [OF reaches.idle]] by simp
qed

lemma demo_acquire: "advances [heartbeat_txn, heartbeat_txn] [locked_txn, heartbeat_txn]"
  using advances.acquire [of 0 "[heartbeat_txn, heartbeat_txn]" "(Device_row ''d1'', Exclusive)" "[]"]
  by (simp add: heartbeat_txn_def locked_txn_def grantable_def nth_Cons')

theorem api_transactions_end_witness:
  "remaining [heartbeat_txn, heartbeat_txn] = 4 \<and> (\<exists>ts''. advances [locked_txn, heartbeat_txn] ts'')"
proof -
  have "(advances ^^ 1) [heartbeat_txn, heartbeat_txn] [locked_txn, heartbeat_txn]" using demo_acquire by (simp add: eq_OO)
  moreover have "remaining [heartbeat_txn, heartbeat_txn] = 4" by (simp add: remaining_def heartbeat_txn_def)
  ultimately show ?thesis using api_transactions_end [OF demo_waiting [of "\<lambda>dev. dev"]] by fastforce
qed


end
